(* ===== verification/Prelude.thy ===== *)
theory Prelude
  imports Main "HOL-Library.Word" "HOL-Library.Signed_Division"
begin

text \<open>
  Shared material of the development: the names of the machine types of the ia32 build
  (a \<open>size_t\<close> and an \<open>ADDRINT\<close> have 32 bits), the result type in which every
  failing C++ operation returns its failure, iteration of failing operations over a list,
  the address range that the source's \<open>for(addr = start; addr < end; addr++)\<close> loops
  visit, decimal and hexadecimal output of numbers, and the locale of a failing step that
  keeps an invariant.
\<close>

unbundle bit_operations_syntax

named_theorems result_simps "equations of the result type"
named_theorems taint_defs "definitions unfolded together in the proofs about taint operations"
named_theorems inv_intros "operations that keep the invariant of the taint state"

type_synonym size_t = "32 word"
type_synonym ADDRINT = "32 word"
type_synonym mark = nat

section \<open>Results\<close>

text \<open>
  \<open>Assert_failed\<close>: a C \<open>assert\<close> stops the process. \<open>Abort\<close>: a call of
  \<open>abort()\<close>. \<open>Exit\<close>: a call of \<open>exit\<close>. \<open>Undefined\<close>: the C++ standard gives the
  execution no meaning (an access outside an array, a null pointer, a missing vararg).
  \<open>Out_of_fuel\<close>: a recursion of the model stopped before the code would.
\<close>

datatype error = Assert_failed | Abort string | Exit int | Undefined | Out_of_fuel

type_synonym 'a result = "error + 'a"

fun rbind :: "'a result \<Rightarrow> ('a \<Rightarrow> 'b result) \<Rightarrow> 'b result" where
  "rbind (Inl e) f = Inl e"
| "rbind (Inr x) f = f x"

declare rbind.simps [result_simps]

definition cassert :: "bool \<Rightarrow> 'a result \<Rightarrow> 'a result" where
  "cassert P r = (if P then r else Inl Assert_failed)"

lemma cassert_True [simp, result_simps]: "cassert True r = r"
  by (simp add: cassert_def)

lemma cassert_False [simp, result_simps]: "cassert False r = Inl Assert_failed"
  by (simp add: cassert_def)

lemma rbind_eq_Inr: "rbind m f = Inr y \<longleftrightarrow> (\<exists>x. m = Inr x \<and> f x = Inr y)"
  by (cases m) auto

lemma rbind_eq_Inl: "rbind m f = Inl e \<longleftrightarrow> m = Inl e \<or> (\<exists>x. m = Inr x \<and> f x = Inl e)"
  by (cases m) auto

lemma rbind_assoc: "rbind (rbind m f) g = rbind m (\<lambda>x. rbind (f x) g)"
  by (cases m) auto

lemma rbind_cong [fundef_cong]:
  "m = m' \<Longrightarrow> (\<And>x. m' = Inr x \<Longrightarrow> f x = f' x) \<Longrightarrow> rbind m f = rbind m' f'"
  by (cases m') auto

fun is_ok :: "'a result \<Rightarrow> bool" where
  "is_ok (Inl e) = False"
| "is_ok (Inr x) = True"

lemma is_ok_iff: "is_ok r \<longleftrightarrow> (\<exists>x. r = Inr x)"
  by (cases r) auto

text \<open>Running a failing step over a list, left to right, stopping at the first failure.\<close>

fun rfold :: "('a \<Rightarrow> 's \<Rightarrow> 's result) \<Rightarrow> 'a list \<Rightarrow> 's \<Rightarrow> 's result" where
  "rfold f [] s = Inr s"
| "rfold f (x # xs) s = rbind (f x s) (rfold f xs)"

lemma rfold_append: "rfold f (xs @ ys) s = rbind (rfold f xs s) (rfold f ys)"
  by (induction xs arbitrary: s) (auto simp: rbind_assoc intro!: rbind_cong)

lemma rfold_pure:
  "(\<And>x s. x \<in> set xs \<Longrightarrow> f x s = Inr (g x s)) \<Longrightarrow> rfold f xs s = Inr (fold g xs s)"
  by (induction xs arbitrary: s) auto

lemma rfold_map: "rfold f (map g xs) s = rfold (\<lambda>x. f (g x)) xs s"
  by (induction xs arbitrary: s) (auto intro!: rbind_cong)

section \<open>Failing steps that keep an invariant\<close>

text \<open>
  The contract shared by the bitset operations, the taint operations, the inserted analysis
  calls and the system call handlers: from a state that satisfies the invariant the step
  does not fail and leads to a state that satisfies it.
\<close>

locale safe_step =
  fixes inv :: "'s \<Rightarrow> bool"
    and ok :: "'a \<Rightarrow> bool"
    and step :: "'a \<Rightarrow> 's \<Rightarrow> 's result"
  assumes step_safe: "inv s \<Longrightarrow> ok a \<Longrightarrow> \<exists>s'. step a s = Inr s' \<and> inv s'"
begin

lemma run_safe: "inv s \<Longrightarrow> list_all ok as \<Longrightarrow> \<exists>s'. rfold step as s = Inr s' \<and> inv s'"
proof (induction as arbitrary: s)
  case Nil
  then show ?case by simp
next
  case (Cons a as)
  then obtain s1 where "step a s = Inr s1" and "inv s1"
    using step_safe by fastforce
  with Cons show ?case by auto
qed

lemma run_not_fail: "inv s \<Longrightarrow> list_all ok as \<Longrightarrow> rfold step as s \<noteq> Inl e"
  using run_safe by fastforce

lemma run_inv: "inv s \<Longrightarrow> list_all ok as \<Longrightarrow> rfold step as s = Inr s' \<Longrightarrow> inv s'"
  using run_safe by fastforce

end

text \<open>A step that, where it succeeds, changes the view of the state as a pure step does.\<close>

locale refines_step = safe_step inv ok step
  for inv :: "'s \<Rightarrow> bool" and ok :: "'a \<Rightarrow> bool" and step :: "'a \<Rightarrow> 's \<Rightarrow> 's result" +
  fixes view :: "'s \<Rightarrow> 'v"
    and vstep :: "'a \<Rightarrow> 'v \<Rightarrow> 'v"
  assumes step_view: "inv s \<Longrightarrow> ok a \<Longrightarrow> step a s = Inr s' \<Longrightarrow> view s' = vstep a (view s)"
begin

lemma run_view:
  "inv s \<Longrightarrow> list_all ok as \<Longrightarrow> rfold step as s = Inr s' \<Longrightarrow> view s' = fold vstep as (view s)"
proof (induction as arbitrary: s)
  case Nil
  then show ?case by simp
next
  case (Cons a as)
  then obtain s1 where s1: "step a s = Inr s1" "inv s1"
    using step_safe by fastforce
  with Cons.prems have "view s1 = vstep a (view s)"
    using step_view by auto
  with Cons s1 show ?case by auto
qed

end

section \<open>Address ranges\<close>

text \<open>
  The values that \<open>addr\<close> takes in \<open>for(ADDRINT addr = a; addr < e; addr++)\<close>, in order.
  All arithmetic is modulo \<open>2 ^ 32\<close>; a wrapped end address gives an empty loop.
\<close>

function addr_range :: "ADDRINT \<Rightarrow> ADDRINT \<Rightarrow> ADDRINT list" where
  "addr_range a e = (if a < e then a # addr_range (a + 1) e else [])"
  by pat_completeness auto
termination
proof (relation "measure (\<lambda>(a, e). unat e - unat a)")
  fix a e :: ADDRINT
  assume "a < e"
  then have "unat (a + 1) = Suc (unat a)" and "unat a < unat e"
    by unat_arith+
  then show "((a + 1, e), (a, e)) \<in> measure (\<lambda>(a, e). unat e - unat a)"
    by simp
qed simp

declare addr_range.simps [simp del]

lemma addr_range_empty: "e \<le> a \<Longrightarrow> addr_range a e = []"
  by (subst addr_range.simps) (simp add: not_less)

lemma addr_range_step: "a < e \<Longrightarrow> addr_range a e = a # addr_range (a + 1) e"
  by (subst addr_range.simps) simp

lemma set_addr_range: "set (addr_range a e) = {a..<e}"
proof (induction a e rule: addr_range.induct)
  case (1 a e)
  show ?case
  proof (cases "a < e")
    case True
    then have "{a..<e} = insert a {a + 1..<e}"
      by (auto intro: inc_le simp: word_le_less_eq) (unat_arith)+
    with True "1.IH" show ?thesis
      by (simp add: addr_range_step)
  next
    case False
    then show ?thesis by (simp add: addr_range_empty not_less)
  qed
qed

lemma addr_range_mem [simp]: "x \<in> set (addr_range a e) \<longleftrightarrow> a \<le> x \<and> x < e"
  by (simp add: set_addr_range)

lemma distinct_addr_range: "distinct (addr_range a e)"
proof (induction a e rule: addr_range.induct)
  case (1 a e)
  show ?case
  proof (cases "a < e")
    case True
    then have "a \<notin> set (addr_range (a + 1) e)"
      by simp unat_arith
    with True "1.IH" show ?thesis by (simp add: addr_range_step)
  next
    case False
    then show ?thesis by (simp add: addr_range_empty not_less)
  qed
qed

lemma length_addr_range: "length (addr_range a e) = unat e - unat a"
proof (induction a e rule: addr_range.induct)
  case (1 a e)
  show ?case
  proof (cases "a < e")
    case True
    then have "unat (a + 1) = Suc (unat a)" and "unat a < unat e"
      by unat_arith+
    with True "1.IH" show ?thesis by (simp add: addr_range_step)
  next
    case False
    then show ?thesis
      by (simp add: addr_range_empty not_less word_le_nat_alt)
  qed
qed

lemma map_unat_addr_range: "map unat (addr_range a e) = [unat a..<unat e]"
proof (induction a e rule: addr_range.induct)
  case (1 a e)
  show ?case
  proof (cases "a < e")
    case True
    then have "unat (a + 1) = Suc (unat a)" and "unat a < unat e"
      by unat_arith+
    with True "1.IH" show ?thesis by (simp add: addr_range_step upt_rec)
  next
    case False
    then show ?thesis
      by (simp add: addr_range_empty not_less word_le_nat_alt)
  qed
qed

section \<open>Numbers as the streams print them\<close>

text \<open>\<open>std::dec\<close> and \<open>std::hex\<close> output of an unsigned number, without a prefix.\<close>

definition digit_char :: "nat \<Rightarrow> char" where
  "digit_char d = ''0123456789abcdef'' ! d"

fun show_base :: "nat \<Rightarrow> nat \<Rightarrow> string" where
  "show_base b n =
     (if n < b \<or> b < 2 then [digit_char n] else show_base b (n div b) @ [digit_char (n mod b)])"

declare show_base.simps [simp del]

definition show_dec :: "nat \<Rightarrow> string" where
  "show_dec n = show_base 10 n"

definition show_hex :: "32 word \<Rightarrow> string" where
  "show_hex w = show_base 16 (unat w)"

end
