(* ===== verification/Instrument_IMA.thy ===== *)
theory Instrument_IMA
  imports Prelude
begin

text \<open>
  The LLVM pass of \<open>InstrumentIMA.cpp\<close>, which inserts the calls of the user interface that tag
  allocated memory and the pointers to it, with a counter in a global variable of the program.

  A function is the list of its basic blocks, a basic block the list of its instructions.
  What LLVM knows of the instructions of the function, and what it does to insert one, is the
  record \<open>llvm_function\<close>, a parameter of the pass; the uses and operands of a value depend on the
  instructions that the pass has created so far. A created instruction is inserted before another
  one, or stays outside every block when there is no such instruction; \<open>insertion_ok\<close> is what the
  documentation of LLVM says of that.
  \<open>getOrInsertFunction\<close> is taken to give a function of the requested type, and the module not to
  have a global of the counter's name before \<open>doInitialization\<close> (LLVM would rename the new one). The loop over the
  instructions of a block also meets the instructions inserted behind the current one; none
  of them is a call of an allocation function, so it does nothing there and the model goes over the
  instructions that were there at first.
\<close>

section \<open>Functions, instructions and insertion\<close>

datatype ir_value = Given nat | New nat | Int32 int | Global string

datatype ir_kind =
    Call_kind "string option" | Store_kind | BitCast_kind | Cmp_kind | Return_kind | Other_kind

datatype new_inst =
    Load_global string
  | BitCast_i8ptr ir_value
  | Call_function string "ir_value list"
  | Mul_inst ir_value ir_value
  | Add_inst ir_value ir_value
  | Store_global ir_value string

record llvm_function =
  kind_of :: "nat \<Rightarrow> ir_kind"
  getOperand :: "new_inst list \<Rightarrow> ir_value \<Rightarrow> nat \<Rightarrow> ir_value"
  arg_operand_of :: "nat \<Rightarrow> nat \<Rightarrow> ir_value"
  uses_of :: "new_inst list \<Rightarrow> ir_value \<Rightarrow> ir_value list"
  getNextNode :: "ir_value list list \<Rightarrow> ir_value \<Rightarrow> ir_value option"
  insert_inst :: "ir_value \<Rightarrow> ir_value \<Rightarrow> ir_value list list \<Rightarrow> ir_value list list"

record ima_state =
  ir_body :: "ir_value list list"
  created :: "new_inst list"
  declared :: "string list"
  ir_globals :: "(string \<times> int) list"
  errs :: string

fun new_kind :: "new_inst \<Rightarrow> ir_kind" where
  "new_kind (Load_global g) = Other_kind"
| "new_kind (BitCast_i8ptr v) = BitCast_kind"
| "new_kind (Call_function f args) = Call_kind (Some f)"
| "new_kind (Mul_inst a b) = Other_kind"
| "new_kind (Add_inst a b) = Other_kind"
| "new_kind (Store_global v g) = Store_kind"

fun value_kind :: "llvm_function \<Rightarrow> ima_state \<Rightarrow> ir_value \<Rightarrow> ir_kind" where
  "value_kind E s (Given n) = kind_of E n"
| "value_kind E s (New n) = (if n < length (created s) then new_kind (created s ! n) else Other_kind)"
| "value_kind E s _ = Other_kind"

definition insertion_ok :: "llvm_function \<Rightarrow> bool" where
  "insertion_ok E \<longleftrightarrow>
     (\<forall>y v bs1 pre post bs2. y \<notin> set (concat bs1 @ pre) \<longrightarrow>
        insert_inst E y v (bs1 @ (pre @ y # post) # bs2) = bs1 @ (pre @ v # y # post) # bs2) \<and>
     (\<forall>bs v y. getNextNode E bs v = Some y \<longrightarrow> y \<in> set (concat bs))"

definition create_inst :: "llvm_function \<Rightarrow> new_inst \<Rightarrow> ir_value option \<Rightarrow> ima_state \<Rightarrow> ir_value \<times> ima_state" where
  "create_inst E i before s =
     (let v = New (length (created s)) in
      (v, s\<lparr>created := created s @ [i],
            ir_body := (case before of None \<Rightarrow> ir_body s | Some y \<Rightarrow> insert_inst E y v (ir_body s))\<rparr>))"

definition getOrInsertFunction :: "string \<Rightarrow> ima_state \<Rightarrow> ima_state" where
  "getOrInsertFunction f s = (if f \<in> set (declared s) then s else s\<lparr>declared := declared s @ [f]\<rparr>)"

definition print_err :: "string \<Rightarrow> ima_state \<Rightarrow> ima_state" where
  "print_err msg s = s\<lparr>errs := errs s @ msg @ [CHR 0x0A]\<rparr>"

section \<open>The stores of an allocated pointer\<close>

text \<open>The loops over the uses: a list of stores, each new one in front, or the message with which
  the code gives up.\<close>

fun bitcast_users :: "llvm_function \<Rightarrow> ima_state \<Rightarrow> string \<Rightarrow> ir_value list \<Rightarrow> ir_value list \<Rightarrow> string + ir_value list" where
  "bitcast_users E s fname [] acc = Inr acc"
| "bitcast_users E s fname (u # us) acc =
     (case value_kind E s u of
        Store_kind \<Rightarrow> bitcast_users E s fname us (u # acc)
      | Cmp_kind \<Rightarrow> bitcast_users E s fname us acc
      | _ \<Rightarrow> Inl (''Having a new type of user for bitcast of '' @ fname))"

fun call_users :: "llvm_function \<Rightarrow> ima_state \<Rightarrow> string \<Rightarrow> ir_value list \<Rightarrow> ir_value list \<Rightarrow> string + ir_value list" where
  "call_users E s fname [] acc = Inr acc"
| "call_users E s fname (u # us) acc =
     (case value_kind E s u of
        Store_kind \<Rightarrow> call_users E s fname us (u # acc)
      | BitCast_kind \<Rightarrow>
          (case bitcast_users E s fname (uses_of E (created s) u) acc of
             Inl msg \<Rightarrow> Inl msg
           | Inr acc' \<Rightarrow> call_users E s fname us acc')
      | Return_kind \<Rightarrow> Inl (''Do not know how I can handle return of '' @ fname)
      | _ \<Rightarrow> Inl (''Having a new type of user for '' @ fname))"

definition pointer_stores :: "llvm_function \<Rightarrow> string \<Rightarrow> ir_value \<Rightarrow> ima_state \<Rightarrow> string + ir_value list" where
  "pointer_stores E fname ci s =
     (let us = uses_of E (created s) ci in
      if length us \<noteq> 1 then Inl (''Result of '' @ fname @ '' is used by a strange number of users'')
      else
        (case call_users E s fname us [] of
           Inl msg \<Rightarrow> Inl msg
         | Inr [] \<Rightarrow> Inl (''No store instructions for pointer of '' @ fname)
         | Inr (si # sis) \<Rightarrow> Inr (si # sis)))"

section \<open>The inserted code\<close>

datatype size_of_memory = Size_argument nat | Size_product

text \<open>The size of the allocated memory: an argument of the call, or for \<open>calloc\<close> a multiplication
  that is inserted as well.\<close>

definition memory_size ::
  "llvm_function \<Rightarrow> nat \<Rightarrow> size_of_memory \<Rightarrow> ir_value option \<Rightarrow> ima_state \<Rightarrow> ir_value \<times> ima_state" where
  "memory_size E ci sz before s =
     (case sz of
        Size_argument k \<Rightarrow> (arg_operand_of E ci k, s)
      | Size_product \<Rightarrow> create_inst E (Mul_inst (arg_operand_of E ci 0) (arg_operand_of E ci 1)) before s)"

definition tag_store ::
  "llvm_function \<Rightarrow> nat \<Rightarrow> size_of_memory \<Rightarrow> ir_value \<Rightarrow> bool \<Rightarrow> ir_value \<Rightarrow> ima_state \<Rightarrow> ima_state" where
  "tag_store E ci sz load final si s =
     (let before = getNextNode E (ir_body s) si;
          (cast, s1) = create_inst E (BitCast_i8ptr (getOperand E (created s) si 1)) before s;
          s2 = getOrInsertFunction ''DYTAN_tag_pointer'' s1;
          (c1, s3) = create_inst E (Call_function ''DYTAN_tag_pointer'' [cast, Int32 4, load]) before s2;
          s4 = getOrInsertFunction ''DYTAN_tag_memory'' s3;
          (size, s5) = memory_size E ci sz before s4;
          (c2, s6) = create_inst E (Call_function ''DYTAN_tag_memory'' [Given ci, size, load]) before s5
      in if final then
           let (inc, s7) = create_inst E (Add_inst load (Int32 1)) before s6
           in snd (create_inst E (Store_global inc ''ima_tag_count'') before s7)
         else s6)"

fun tag_stores ::
  "llvm_function \<Rightarrow> nat \<Rightarrow> size_of_memory \<Rightarrow> ir_value \<Rightarrow> ir_value list \<Rightarrow> ima_state \<Rightarrow> ima_state" where
  "tag_stores E ci sz load [] s = s"
| "tag_stores E ci sz load (si # sis) s = tag_stores E ci sz load sis (tag_store E ci sz load (sis = []) si s)"

definition tag_allocation ::
  "llvm_function \<Rightarrow> nat \<Rightarrow> size_of_memory \<Rightarrow> ir_value list \<Rightarrow> ima_state \<Rightarrow> bool \<times> ima_state" where
  "tag_allocation E ci sz stores s =
     (if ''ima_tag_count'' \<notin> fst ` set (ir_globals s) then (False, print_err ''Could not get global tag count for IMA'' s)
      else
        let (load, s1) = create_inst E (Load_global ''ima_tag_count'') (getNextNode E (ir_body s) (Given ci)) s
        in (True, tag_stores E ci sz load stores s1))"

definition insert_free :: "llvm_function \<Rightarrow> nat \<Rightarrow> ima_state \<Rightarrow> ima_state" where
  "insert_free E ci s =
     snd (create_inst E (Call_function ''DYTAN_free'' [arg_operand_of E ci 0]) (getNextNode E (ir_body s) (Given ci))
       (getOrInsertFunction ''DYTAN_free'' s))"

definition instrumentMalloc :: "llvm_function \<Rightarrow> nat \<Rightarrow> ima_state \<Rightarrow> bool \<times> ima_state" where
  "instrumentMalloc E ci s =
     (case pointer_stores E ''malloc'' (Given ci) s of
        Inl msg \<Rightarrow> (False, print_err msg s)
      | Inr stores \<Rightarrow> tag_allocation E ci (Size_argument 0) stores s)"

definition instrumentRealloc :: "llvm_function \<Rightarrow> nat \<Rightarrow> ima_state \<Rightarrow> bool \<times> ima_state" where
  "instrumentRealloc E ci s =
     (case pointer_stores E ''realloc'' (Given ci) s of
        Inl msg \<Rightarrow> (False, print_err msg s)
      | Inr stores \<Rightarrow> tag_allocation E ci (Size_argument 1) stores (insert_free E ci s))"

definition instrumentCalloc :: "llvm_function \<Rightarrow> nat \<Rightarrow> ima_state \<Rightarrow> bool \<times> ima_state" where
  "instrumentCalloc E ci s =
     (case pointer_stores E ''calloc'' (Given ci) s of
        Inl msg \<Rightarrow> (False, print_err msg s)
      | Inr stores \<Rightarrow> tag_allocation E ci Size_product stores s)"

definition instrumentFree :: "llvm_function \<Rightarrow> nat \<Rightarrow> ima_state \<Rightarrow> bool \<times> ima_state" where
  "instrumentFree E ci s = (True, insert_free E ci s)"

section \<open>The pass\<close>

text \<open>One instruction of the function; the first component is \<open>return_value\<close>.\<close>

definition instrument_instruction :: "llvm_function \<Rightarrow> nat \<Rightarrow> bool \<times> ima_state \<Rightarrow> bool \<times> ima_state" where
  "instrument_instruction E ci = (\<lambda>(return_value, s).
     case kind_of E ci of
       Call_kind (Some f) \<Rightarrow>
         (case (if f = ''malloc'' then instrumentMalloc E ci s
                else if f = ''realloc'' then instrumentRealloc E ci s
                else if f = ''calloc'' then instrumentCalloc E ci s
                else if f = ''free'' then instrumentFree E ci s
                else (False, s)) of
            (changed, s') \<Rightarrow> (return_value \<or> changed, s'))
     | _ \<Rightarrow> (return_value, s))"

fun given :: "ir_value \<Rightarrow> nat list" where
  "given (Given n) = [n]"
| "given _ = []"

definition runOnFunction :: "llvm_function \<Rightarrow> ima_state \<Rightarrow> bool \<times> ima_state" where
  "runOnFunction E s = fold (instrument_instruction E) (concat (map given (concat (ir_body s)))) (False, s)"

definition doInitialization :: "ima_state \<Rightarrow> bool \<times> ima_state" where
  "doInitialization s = (True, s\<lparr>ir_globals := ir_globals s @ [(''ima_tag_count'', 0)]\<rparr>)"

section \<open>What the pass keeps\<close>

definition originals :: "ima_state \<Rightarrow> nat list list" where
  "originals s = map (\<lambda>b. concat (map given b)) (ir_body s)"

definition body_ok :: "ima_state \<Rightarrow> bool" where
  "body_ok s \<longleftrightarrow> distinct (concat (ir_body s)) \<and> (\<forall>n. New n \<in> set (concat (ir_body s)) \<longrightarrow> n < length (created s))"

text \<open>One state follows from another by insertions, and the calls inserted are calls of the user
  interface of the tool.\<close>

definition dytan_calls :: "new_inst list \<Rightarrow> bool" where
  "dytan_calls is \<longleftrightarrow> (\<forall>f args. Call_function f args \<in> set is \<longrightarrow>
     f \<in> {''DYTAN_tag_pointer'', ''DYTAN_tag_memory'', ''DYTAN_free''})"

definition only_inserts :: "ima_state \<Rightarrow> ima_state \<Rightarrow> bool" where
  "only_inserts s s' \<longleftrightarrow> originals s' = originals s \<and> ir_globals s' = ir_globals s \<and>
     set (concat (ir_body s)) \<subseteq> set (concat (ir_body s')) \<and>
     (\<exists>is. created s' = created s @ is \<and> dytan_calls is) \<and> (body_ok s \<longrightarrow> body_ok s')"

lemma only_inserts_refl [simp]: "only_inserts s s"
  by (simp add: only_inserts_def dytan_calls_def)

lemma dytan_calls_append [simp]: "dytan_calls (a @ b) \<longleftrightarrow> dytan_calls a \<and> dytan_calls b"
  by (auto simp: dytan_calls_def)

lemma only_inserts_trans:
  assumes "only_inserts s s1" "only_inserts s1 s2"
  shows "only_inserts s s2"
proof -
  obtain is1 is2 where "created s1 = created s @ is1" "dytan_calls is1" "created s2 = created s1 @ is2" "dytan_calls is2"
    using assms by (auto simp: only_inserts_def)
  then have "created s2 = created s @ is1 @ is2 \<and> dytan_calls (is1 @ is2)" by simp
  then have "\<exists>is. created s2 = created s @ is \<and> dytan_calls is" by blast
  moreover have "set (concat (ir_body s)) \<subseteq> set (concat (ir_body s2))"
    using assms unfolding only_inserts_def by (meson subset_trans)
  ultimately show ?thesis using assms by (simp add: only_inserts_def)
qed

lemma split_at_first:
  "y \<in> set (concat bs) \<Longrightarrow> \<exists>bs1 pre post bs2. bs = bs1 @ (pre @ y # post) # bs2 \<and> y \<notin> set (concat bs1 @ pre)"
proof (induction bs)
  case (Cons b bs)
  show ?case
  proof (cases "y \<in> set b")
    case True
    then obtain pre post where "b = pre @ y # post" "y \<notin> set pre" by (meson split_list_first)
    then have "b # bs = [] @ (pre @ y # post) # bs \<and> y \<notin> set (concat [] @ pre)" by simp
    then show ?thesis by blast
  next
    case False
    with Cons obtain bs1 pre post bs2 where "bs = bs1 @ (pre @ y # post) # bs2" "y \<notin> set (concat bs1 @ pre)" by auto
    with False have "b # bs = (b # bs1) @ (pre @ y # post) # bs2 \<and> y \<notin> set (concat (b # bs1) @ pre)" by simp
    then show ?thesis by blast
  qed
qed simp

text \<open>The place of an insertion: none, or an instruction of the function.\<close>

definition place_ok :: "ima_state \<Rightarrow> ir_value option \<Rightarrow> bool" where
  "place_ok s before \<longleftrightarrow> (\<forall>y. before = Some y \<longrightarrow> y \<in> set (concat (ir_body s)))"

lemma place_ok_next [simp]: "insertion_ok E \<Longrightarrow> place_ok s (getNextNode E (ir_body s) v)"
  by (simp add: place_ok_def insertion_ok_def)

lemma insert_inst_body:
  assumes "insertion_ok E" "y \<in> set (concat bs)"
  shows "concat (map given (concat (insert_inst E y (New n) bs))) = concat (map given (concat bs)) \<and>
    map (\<lambda>b. concat (map given b)) (insert_inst E y (New n) bs) = map (\<lambda>b. concat (map given b)) bs \<and>
    set (concat (insert_inst E y (New n) bs)) = insert (New n) (set (concat bs)) \<and>
    (distinct (concat bs) \<and> New n \<notin> set (concat bs) \<longrightarrow> distinct (concat (insert_inst E y (New n) bs)))"
proof -
  obtain bs1 pre post bs2 where b: "bs = bs1 @ (pre @ y # post) # bs2" "y \<notin> set (concat bs1 @ pre)"
    using split_at_first[OF assms(2)] by blast
  with assms(1) have "insert_inst E y (New n) bs = bs1 @ (pre @ New n # y # post) # bs2"
    unfolding insertion_ok_def by blast
  then show ?thesis by (auto simp: b(1))
qed

lemma create_inst_only:
  assumes "insertion_ok E" "place_ok s before" "dytan_calls [i]"
  shows "only_inserts s (snd (create_inst E i before s))"
proof (cases before)
  case None
  then show ?thesis using assms(3) by (auto simp: only_inserts_def create_inst_def body_ok_def originals_def Let_def)
next
  case (Some y)
  let ?v = "New (length (created s))"
  have y: "y \<in> set (concat (ir_body s))" using assms(2) by (simp add: Some place_ok_def)
  note b = insert_inst_body[OF assms(1) y, of "length (created s)"]
  have "body_ok (snd (create_inst E i before s))" if ok: "body_ok s"
  proof -
    have "?v \<notin> set (concat (ir_body s))" using ok unfolding body_ok_def by blast
    with ok b show ?thesis unfolding body_ok_def by (auto simp: Some create_inst_def Let_def less_SucI)
  qed
  then show ?thesis
    using assms(3) b by (auto simp: Some only_inserts_def originals_def create_inst_def Let_def)
qed

lemma place_ok_mono: "only_inserts s0 s \<Longrightarrow> place_ok s0 before \<Longrightarrow> place_ok s before"
  unfolding only_inserts_def place_ok_def by blast

lemma create_inst_after:
  assumes "insertion_ok E" "place_ok s0 before" "only_inserts s0 s" "dytan_calls [i]"
  shows "only_inserts s0 (snd (create_inst E i before s))"
  using only_inserts_trans[OF assms(3) create_inst_only[OF assms(1) place_ok_mono[OF assms(3,2)] assms(4)]] .

lemma dytan_calls_single [simp]:
  "dytan_calls [Load_global g]" "dytan_calls [BitCast_i8ptr v]" "dytan_calls [Mul_inst a b]" "dytan_calls [Add_inst a b]"
  "dytan_calls [Store_global v g]" "dytan_calls [Call_function ''DYTAN_tag_pointer'' args]"
  "dytan_calls [Call_function ''DYTAN_tag_memory'' args]" "dytan_calls [Call_function ''DYTAN_free'' args]"
  by (auto simp: dytan_calls_def)

lemma getOrInsertFunction_only [simp]: "only_inserts s (getOrInsertFunction f s)"
  by (auto simp: only_inserts_def originals_def getOrInsertFunction_def body_ok_def dytan_calls_def)

lemma memory_size_after:
  "insertion_ok E \<Longrightarrow> place_ok s0 before \<Longrightarrow> only_inserts s0 s \<Longrightarrow> only_inserts s0 (snd (memory_size E ci sz before s))"
  by (simp add: memory_size_def create_inst_after split: size_of_memory.split)

lemma tag_store_only: "insertion_ok E \<Longrightarrow> only_inserts s (tag_store E ci sz load final si s)"
  unfolding tag_store_def Let_def case_prod_beta
  by (auto intro!: create_inst_after memory_size_after only_inserts_trans[OF _ getOrInsertFunction_only])

lemma tag_stores_only: "insertion_ok E \<Longrightarrow> only_inserts s (tag_stores E ci sz load sis s)"
  by (induction sis arbitrary: s) (auto intro: only_inserts_trans[OF tag_store_only])

lemma insert_free_only: "insertion_ok E \<Longrightarrow> only_inserts s (insert_free E ci s)"
  unfolding insert_free_def by (intro create_inst_after place_ok_next getOrInsertFunction_only dytan_calls_single)

text \<open>With the counter in place, a function that reports no change has changed nothing but the messages,
  and one that reports a change has created an instruction.\<close>

definition reported :: "ima_state \<Rightarrow> bool \<times> ima_state \<Rightarrow> bool" where
  "reported s r \<longleftrightarrow> only_inserts s (snd r) \<and>
     (if fst r then length (created s) < length (created (snd r))
      else ir_body (snd r) = ir_body s \<and> created (snd r) = created s \<and> declared (snd r) = declared s)"

lemma reported_print: "reported s (False, print_err msg s)"
  by (auto simp: reported_def print_err_def only_inserts_def originals_def body_ok_def dytan_calls_def)

lemma only_inserts_length: "only_inserts s s' \<Longrightarrow> length (created s) \<le> length (created s')"
  by (auto simp: only_inserts_def)

lemma create_inst_length [simp]: "length (created (snd (create_inst E i before s))) = Suc (length (created s))"
  by (simp add: create_inst_def Let_def)

lemma tag_allocation_reported:
  assumes E: "insertion_ok E" and "''ima_tag_count'' \<in> fst ` set (ir_globals s)"
  shows "fst (tag_allocation E ci sz stores s)" "only_inserts s (snd (tag_allocation E ci sz stores s))"
    "length (created s) < length (created (snd (tag_allocation E ci sz stores s)))"
proof -
  let ?c = "create_inst E (Load_global ''ima_tag_count'') (getNextNode E (ir_body s) (Given ci)) s"
  have e: "tag_allocation E ci sz stores s = (True, tag_stores E ci sz (fst ?c) stores (snd ?c))"
    using assms by (simp add: tag_allocation_def case_prod_beta)
  show "fst (tag_allocation E ci sz stores s)" by (simp add: e)
  show "only_inserts s (snd (tag_allocation E ci sz stores s))"
    by (simp add: e only_inserts_trans[OF create_inst_only[OF E] tag_stores_only[OF E]] E)
  have "Suc (length (created s)) \<le> length (created (tag_stores E ci sz (fst ?c) stores (snd ?c)))"
    using only_inserts_length[OF tag_stores_only[OF E, of "snd ?c" ci sz "fst ?c" stores]] by simp
  then show "length (created s) < length (created (snd (tag_allocation E ci sz stores s)))" by (simp add: e)
qed

lemma tag_allocation_reports:
  "insertion_ok E \<Longrightarrow> ''ima_tag_count'' \<in> fst ` set (ir_globals s) \<Longrightarrow> reported s (tag_allocation E ci sz stores s)"
  using tag_allocation_reported by (simp add: reported_def)

lemma insert_free_reports: "insertion_ok E \<Longrightarrow> reported s (True, insert_free E ci s)"
  using insert_free_only[of E s ci]
  by (simp add: reported_def insert_free_def getOrInsertFunction_def)

lemma instrument_reports:
  assumes E: "insertion_ok E" and "''ima_tag_count'' \<in> fst ` set (ir_globals s)"
  shows "reported s (instrumentMalloc E ci s)" "reported s (instrumentRealloc E ci s)"
    "reported s (instrumentCalloc E ci s)" "reported s (instrumentFree E ci s)"
proof -
  show "reported s (instrumentMalloc E ci s)" "reported s (instrumentCalloc E ci s)"
    using assms by (auto simp: instrumentMalloc_def instrumentCalloc_def reported_print tag_allocation_reports split: sum.split)
  show "reported s (instrumentFree E ci s)" by (simp add: instrumentFree_def insert_free_reports E)
  have g: "''ima_tag_count'' \<in> fst ` set (ir_globals (insert_free E ci s))"
    using assms insert_free_only[OF E, of s ci] by (simp add: only_inserts_def)
  note t = tag_allocation_reported[OF E g]
  have "reported s (tag_allocation E ci (Size_argument 1) stores (insert_free E ci s))" for stores
    using t[of ci "Size_argument 1" stores] only_inserts_trans[OF insert_free_only[OF E] t(2)] only_inserts_length[OF insert_free_only[OF E, of s ci]]
    by (simp add: reported_def)
  then show "reported s (instrumentRealloc E ci s)"
    by (auto simp: instrumentRealloc_def reported_print split: sum.split)
qed

lemma reported_or:
  assumes "reported s (r, s1)" "reported s1 (b, s2)"
  shows "reported s (r \<or> b, s2)"
  using assms only_inserts_trans[of s s1 s2] only_inserts_length[of s s1] only_inserts_length[of s1 s2]
  by (auto simp: reported_def split: if_splits)

lemma runOnFunction_reports:
  assumes E: "insertion_ok E" and g: "''ima_tag_count'' \<in> fst ` set (ir_globals s)"
  shows "reported s (runOnFunction E s)"
proof -
  have step: "reported s (instrument_instruction E ci (r, s1))" if i: "reported s (r, s1)" for ci r s1
  proof -
    have g: "''ima_tag_count'' \<in> fst ` set (ir_globals s1)" using g i by (simp add: reported_def only_inserts_def)
    have "reported s (r \<or> fst x, snd x)" if "reported s1 x" for x using reported_or[OF i, of "fst x" "snd x"] that by simp
    moreover have "reported s1 (False, s1)" by (simp add: reported_def)
    ultimately show ?thesis
      using i instrument_reports[OF E g] by (auto simp: instrument_instruction_def case_prod_beta split: ir_kind.split option.split)
  qed
  have "reported s (fold (instrument_instruction E) cis x)" if "reported s x" for cis x
    using that
  proof (induction cis arbitrary: x)
    case (Cons c cis)
    show ?case using Cons.IH[of "instrument_instruction E c x"] step[of "fst x" "snd x" c] Cons.prems by simp
  qed simp
  moreover have "reported s (False, s)" by (simp add: reported_def)
  ultimately show ?thesis by (simp add: runOnFunction_def)
qed

lemma runOnFunction_effect:
  assumes E: "insertion_ok E" and "''ima_tag_count'' \<in> fst ` set (ir_globals s)" "body_ok s"
  shows "\<exists>changed s' is. runOnFunction E s = (changed, s') \<and> originals s' = originals s \<and>
    ir_globals s' = ir_globals s \<and> body_ok s' \<and> created s' = created s @ is \<and>
    (\<forall>f args. Call_function f args \<in> set is \<longrightarrow> f \<in> {''DYTAN_tag_pointer'', ''DYTAN_tag_memory'', ''DYTAN_free''}) \<and>
    (changed \<longleftrightarrow> is \<noteq> []) \<and> (\<not> changed \<longrightarrow> ir_body s' = ir_body s \<and> declared s' = declared s)"
proof -
  obtain changed s' where r: "runOnFunction E s = (changed, s')" by fastforce
  have rep: "reported s (changed, s')" using runOnFunction_reports[OF assms(1,2)] by (simp add: r)
  then obtain "is" where i: "created s' = created s @ is" "dytan_calls is" by (auto simp: reported_def only_inserts_def)
  have "changed \<longleftrightarrow> is \<noteq> []" using rep i(1) by (auto simp: reported_def split: if_splits)
  moreover have "originals s' = originals s \<and> ir_globals s' = ir_globals s \<and> body_ok s' \<and>
      (\<not> changed \<longrightarrow> ir_body s' = ir_body s \<and> declared s' = declared s)"
    using rep assms(3) by (auto simp: reported_def only_inserts_def)
  ultimately show ?thesis using r i unfolding dytan_calls_def by blast
qed

lemma realloc_without_counter:
  assumes E: "insertion_ok E" and "''ima_tag_count'' \<notin> fst ` set (ir_globals s)" "pointer_stores E ''realloc'' (Given ci) s = Inr stores"
  shows "fst (instrumentRealloc E ci s) = False \<and>
    created (snd (instrumentRealloc E ci s)) = created s @ [Call_function ''DYTAN_free'' [arg_operand_of E ci 0]]"
proof -
  have "ir_globals (insert_free E ci s) = ir_globals s"
    using insert_free_only[OF E, of s ci] by (simp add: only_inserts_def)
  moreover have "created (insert_free E ci s) = created s @ [Call_function ''DYTAN_free'' [arg_operand_of E ci 0]]"
    by (simp add: insert_free_def create_inst_def getOrInsertFunction_def Let_def)
  ultimately show ?thesis
    using assms by (simp add: instrumentRealloc_def tag_allocation_def print_err_def)
qed

end
