(* ===== verification/Std_Map.thy ===== *)
theory Std_Map
  imports Prelude
begin

text \<open>
  The ordered containers of the C++ standard library that the program iterates over: a
  \<open>std::map\<close> is a list of key and value pairs with strictly increasing keys, so that its
  iterators visit the entries in key order. \<open>map_find\<close> is \<open>find\<close> (\<open>None\<close> is
  \<open>end()\<close>), \<open>map_put\<close> is the assignment \<open>m[k] = v\<close>, \<open>map_erase\<close> is \<open>erase(k)\<close>.
  The locale states what the clients rely on; the clients that only look keys up use a
  HOL map instead.
\<close>

type_synonym ('k, 'v) stdmap = "('k \<times> 'v) list"

fun map_find :: "('k::linorder, 'v) stdmap \<Rightarrow> 'k \<Rightarrow> 'v option" where
  "map_find [] k = None"
| "map_find ((k', v) # m) k = (if k = k' then Some v else map_find m k)"

fun map_put :: "('k::linorder, 'v) stdmap \<Rightarrow> 'k \<Rightarrow> 'v \<Rightarrow> ('k, 'v) stdmap" where
  "map_put [] k v = [(k, v)]"
| "map_put ((k', v') # m) k v =
     (if k < k' then (k, v) # (k', v') # m
      else if k = k' then (k, v) # m
      else (k', v') # map_put m k v)"

fun map_erase :: "('k::linorder, 'v) stdmap \<Rightarrow> 'k \<Rightarrow> ('k, 'v) stdmap" where
  "map_erase [] k = []"
| "map_erase ((k', v) # m) k = (if k = k' then m else (k', v) # map_erase m k)"

definition stdmap_inv :: "('k::linorder, 'v) stdmap \<Rightarrow> bool" where
  "stdmap_inv m \<longleftrightarrow> sorted_wrt (<) (map fst m)"

section \<open>The contract of an ordered map\<close>

locale ordered_map =
  fixes empty :: "'m"
    and find :: "'m \<Rightarrow> 'k::linorder \<Rightarrow> 'v option"
    and put :: "'m \<Rightarrow> 'k \<Rightarrow> 'v \<Rightarrow> 'm"
    and erase :: "'m \<Rightarrow> 'k \<Rightarrow> 'm"
    and entries :: "'m \<Rightarrow> ('k \<times> 'v) list"
    and inv :: "'m \<Rightarrow> bool"
  assumes find_empty: "find empty k = None"
    and find_put: "inv m \<Longrightarrow> find (put m k v) = (find m)(k \<mapsto> v)"
    and find_erase: "inv m \<Longrightarrow> find (erase m k) = (find m)(k := None)"
    and find_entries: "inv m \<Longrightarrow> find m = map_of (entries m)"
    and sorted_entries: "inv m \<Longrightarrow> sorted_wrt (<) (map fst (entries m))"
    and inv_empty: "inv empty"
    and inv_put: "inv m \<Longrightarrow> inv (put m k v)"
    and inv_erase: "inv m \<Longrightarrow> inv (erase m k)"
begin

lemma distinct_keys: "inv m \<Longrightarrow> distinct (map fst (entries m))"
  using sorted_entries strict_sorted_iff by blast

lemma set_entries: "inv m \<Longrightarrow> (k, v) \<in> set (entries m) \<longleftrightarrow> find m k = Some v"
  by (metis distinct_keys find_entries map_of_eq_Some_iff)

lemma values_ran: "inv m \<Longrightarrow> snd ` set (entries m) = ran (find m)"
  by (auto simp: ran_def image_iff Bex_def set_entries)

lemma keys_dom: "inv m \<Longrightarrow> fst ` set (entries m) = dom (find m)"
  by (auto simp: dom_def image_iff Bex_def set_entries)

end

section \<open>The association list satisfies the contract\<close>

lemma map_find_map_of: "map_find m = map_of m"
proof
  fix k
  show "map_find m k = map_of m k" by (induction m) auto
qed

lemma map_find_notin: "k \<notin> fst ` set m \<Longrightarrow> map_find m k = None"
  by (simp add: map_find_map_of map_of_eq_None_iff)

lemma map_find_less: "stdmap_inv ((k', v) # m) \<Longrightarrow> k \<le> k' \<Longrightarrow> map_find m k = None"
  by (rule map_find_notin) (force simp: stdmap_inv_def)

lemma set_map_put: "fst ` set (map_put m k v) = insert k (fst ` set m)"
  by (induction m k v rule: map_put.induct) auto

lemma set_map_erase: "set (map_erase m k) \<subseteq> set m"
  by (induction m k rule: map_erase.induct) auto

lemma stdmap_inv_Cons:
  "stdmap_inv ((k, v) # m) \<longleftrightarrow> (\<forall>k' \<in> fst ` set m. k < k') \<and> stdmap_inv m"
  by (auto simp: stdmap_inv_def)

lemma stdmap_inv_put: "stdmap_inv m \<Longrightarrow> stdmap_inv (map_put m k v)"
proof (induction m k v rule: map_put.induct)
  case (1 k v)
  then show ?case by (simp add: stdmap_inv_def)
next
  case (2 k' v' m k v)
  then have IH: "k' < k \<Longrightarrow> stdmap_inv (map_put m k v)"
    and lt: "\<forall>x \<in> fst ` set m. k' < x" and m: "stdmap_inv m"
    by (auto simp: stdmap_inv_Cons)
  consider "k < k'" | "k = k'" | "k' < k" by (rule linorder_cases)
  then show ?case
  proof cases
    case 1
    then have "\<forall>x \<in> fst ` set m. k < x" using lt by (blast intro: less_trans)
    with 1 lt m show ?thesis by (simp add: stdmap_inv_Cons)
  next
    case 2
    with lt m show ?thesis by (simp add: stdmap_inv_Cons)
  next
    case 3
    then have "\<forall>x \<in> fst ` set (map_put m k v). k' < x" using lt by (simp add: set_map_put)
    with 3 IH show ?thesis by (auto simp: stdmap_inv_Cons)
  qed
qed

lemma stdmap_inv_erase: "stdmap_inv m \<Longrightarrow> stdmap_inv (map_erase m k)"
proof (induction m k rule: map_erase.induct)
  case (1 k)
  then show ?case by (simp add: stdmap_inv_def)
next
  case (2 k' v m k)
  then show ?case
    using set_map_erase[of m k] by (auto simp: stdmap_inv_Cons)
qed

lemma map_find_put: "stdmap_inv m \<Longrightarrow> map_find (map_put m k v) = (map_find m)(k \<mapsto> v)"
proof (induction m k v rule: map_put.induct)
  case (1 k v)
  then show ?case by auto
next
  case (2 k' v' m k v)
  then show ?case
    using map_find_less[OF "2.prems", of k] by (auto simp: stdmap_inv_Cons fun_eq_iff)
qed

lemma map_find_erase: "stdmap_inv m \<Longrightarrow> map_find (map_erase m k) = (map_find m)(k := None)"
proof (induction m k rule: map_erase.induct)
  case (1 k)
  then show ?case by auto
next
  case (2 k' v m k)
  then show ?case
    using map_find_less[OF "2.prems", of k] by (auto simp: stdmap_inv_Cons fun_eq_iff)
qed

interpretation sm: ordered_map "[]" map_find map_put map_erase "\<lambda>m. m" stdmap_inv
  by unfold_locales
    (simp_all add: map_find_put map_find_erase stdmap_inv_put stdmap_inv_erase,
      simp_all add: map_find_map_of stdmap_inv_def)

end
