(* ===== verification/Basic_Block.thy ===== *)
theory Basic_Block
  imports Std_Map
begin

text \<open>
  The basic blocks of \<open>BasicBlock.H\<close> and their post-dominance pointers.

  Blocks are objects on a heap that the routines share and change through pointers, so the
  model has an explicit heap: a list of blocks, a pointer is an index into it, \<open>NULL\<close> is
  \<open>None\<close>, and reading through any other pointer is undefined. The constructor leaves
  \<open>Dominator\<close>, \<open>PostDominator\<close> and \<open>isEntry\<close> without a value; what the memory of a new block holds
  there is an argument. A \<open>std::set\<close> of pointers is the list of its elements in the order
  of insertion. Looking up a missing key of \<open>postDominated\<close> with \<open>operator[]\<close> inserts it
  with the value \<open>NULL\<close>. The methods that walk up the chain of post-dominators recurse on
  the objects; they have fuel, and running out of it is the error \<open>Out_of_fuel\<close>.

  The counterparts for dominators, which nothing calls, are in the theory \<open>Dominance\<close>.
\<close>

type_synonym block = nat

record basic_block =
  isEntry :: int
  visited :: int
  routineCalled :: string
  body :: "ADDRINT list"
  successors :: "block list"
  predecessors :: "block list"
  dominated :: "(ADDRINT, block option) stdmap"
  Dominator :: "block option"
  immediatelyDominated :: "(ADDRINT, block option) stdmap"
  postDominated :: "(ADDRINT, block option) stdmap"
  PostDominator :: "block option"
  immediatelyPostDominated :: "(ADDRINT, block option) stdmap"
  startingAddress :: ADDRINT
  endingAddress :: ADDRINT
  isPostDominated :: int

type_synonym heap = "basic_block list"

text \<open>The values that the constructor does not set.\<close>

record uninit_block =
  junk_isEntry :: int
  junk_Dominator :: "block option"
  junk_PostDominator :: "block option"

definition new_BasicBlock :: "uninit_block \<Rightarrow> basic_block" where
  "new_BasicBlock u = \<lparr>isEntry = junk_isEntry u, visited = 0, routineCalled = '''', body = [], successors = [],
     predecessors = [], dominated = [], Dominator = junk_Dominator u, immediatelyDominated = [], postDominated = [], PostDominator = junk_PostDominator u, immediatelyPostDominated = [],
     startingAddress = 0, endingAddress = 0, isPostDominated = 0\<rparr>"

definition deref :: "heap \<Rightarrow> block \<Rightarrow> basic_block result" where
  "deref h p = (if p < length h then Inr (h ! p) else Inl Undefined)"

definition upd :: "block \<Rightarrow> (basic_block \<Rightarrow> basic_block) \<Rightarrow> heap \<Rightarrow> heap" where
  "upd p f h = (if p < length h then h[p := f (h ! p)] else h)"

section \<open>Setters\<close>

definition ptr_insert :: "block \<Rightarrow> block list \<Rightarrow> block list" where
  "ptr_insert p ps = (if p \<in> set ps then ps else ps @ [p])"

definition setRoutineCalled :: "string \<Rightarrow> basic_block \<Rightarrow> basic_block" where
  "setRoutineCalled routineName b = b\<lparr>routineCalled := routineName\<rparr>"

definition visitNode :: "basic_block \<Rightarrow> basic_block" where
  "visitNode b = b\<lparr>visited := 1\<rparr>"

definition revisitNode :: "basic_block \<Rightarrow> basic_block" where
  "revisitNode b = b\<lparr>visited := 2\<rparr>"

definition setAsEntryNode :: "basic_block \<Rightarrow> basic_block" where
  "setAsEntryNode b = b\<lparr>isEntry := 1\<rparr>"

definition insertPreds :: "block \<Rightarrow> basic_block \<Rightarrow> basic_block" where
  "insertPreds p b = b\<lparr>predecessors := ptr_insert p (predecessors b)\<rparr>"

definition insertBody :: "ADDRINT \<Rightarrow> basic_block \<Rightarrow> basic_block" where
  "insertBody a b = b\<lparr>body := body b @ [a]\<rparr>"

definition insertSuccs :: "block \<Rightarrow> basic_block \<Rightarrow> basic_block" where
  "insertSuccs p b = b\<lparr>successors := ptr_insert p (successors b)\<rparr>"

definition setEnding :: "ADDRINT \<Rightarrow> basic_block \<Rightarrow> basic_block" where
  "setEnding a b = b\<lparr>endingAddress := a\<rparr>"

definition setStarting :: "ADDRINT \<Rightarrow> basic_block \<Rightarrow> basic_block" where
  "setStarting a b = b\<lparr>startingAddress := a\<rparr>"

definition setPostDominator :: "block \<Rightarrow> basic_block \<Rightarrow> basic_block" where
  "setPostDominator p b = b\<lparr>isPostDominated := 1, PostDominator := Some p\<rparr>"

definition addImmediatePostDominator :: "ADDRINT \<Rightarrow> block \<Rightarrow> basic_block \<Rightarrow> basic_block" where
  "addImmediatePostDominator a p b = b\<lparr>immediatelyPostDominated := map_put (immediatelyPostDominated b) a (Some p)\<rparr>"

section \<open>Post-dominance\<close>

text \<open>\<open>postDominated[key] != NULL\<close>, and the block after that expression was evaluated.\<close>

definition post_dominates :: "basic_block \<Rightarrow> ADDRINT \<Rightarrow> bool" where
  "post_dominates b key \<longleftrightarrow> (case map_find (postDominated b) key of Some (Some q) \<Rightarrow> True | _ \<Rightarrow> False)"

definition probe :: "ADDRINT \<Rightarrow> basic_block \<Rightarrow> basic_block" where
  "probe key b = (case map_find (postDominated b) key of
     None \<Rightarrow> b\<lparr>postDominated := map_put (postDominated b) key None\<rparr>
   | Some v \<Rightarrow> b)"

fun getCommonPostDominator :: "nat \<Rightarrow> block \<Rightarrow> block \<Rightarrow> heap \<Rightarrow> (block \<times> heap) result" where
  "getCommonPostDominator 0 this sibling h = Inl Out_of_fuel"
| "getCommonPostDominator (Suc n) this sibling h =
     rbind (deref h sibling) (\<lambda>s.
     rbind (deref h this) (\<lambda>b.
     let h1 = upd this (probe (startingAddress s)) h in
     if post_dominates b (startingAddress s) then Inr (this, h1)
     else if startingAddress b = 2 then Inr (this, h1)
     else (case PostDominator b of
             None \<Rightarrow> Inl Undefined
           | Some q \<Rightarrow> getCommonPostDominator n q sibling h1)))"

fun passDownPostDominanceInfo :: "nat \<Rightarrow> block \<Rightarrow> block \<Rightarrow> heap \<Rightarrow> heap result" where
  "passDownPostDominanceInfo 0 this newChild h = Inl Out_of_fuel"
| "passDownPostDominanceInfo (Suc n) this newChild h =
     rbind (deref h newChild) (\<lambda>c.
     rbind (deref h this) (\<lambda>b.
     let h1 = upd this (\<lambda>b. b\<lparr>postDominated := map_put (postDominated b) (startingAddress c) (Some newChild)\<rparr>) h in
     if startingAddress b \<noteq> 2
     then (case PostDominator b of
             None \<Rightarrow> Inl Undefined
           | Some q \<Rightarrow> passDownPostDominanceInfo n q newChild h1)
     else Inr h1))"

definition erase_keys :: "ADDRINT list \<Rightarrow> basic_block \<Rightarrow> basic_block" where
  "erase_keys ks b = b\<lparr>postDominated := fold (\<lambda>k m. map_erase m k) ks (postDominated b)\<rparr>"

fun deleteDownPostDominanceInfo ::
  "nat \<Rightarrow> block \<Rightarrow> (ADDRINT, block option) stdmap \<Rightarrow> ADDRINT \<Rightarrow> ADDRINT \<Rightarrow> heap \<Rightarrow> heap result" where
  "deleteDownPostDominanceInfo 0 this deletableBlocks parent lastNodesStarting h = Inl Out_of_fuel"
| "deleteDownPostDominanceInfo (Suc n) this deletableBlocks parent lastNodesStarting h =
     rbind (deref h this) (\<lambda>b.
     if startingAddress b \<noteq> lastNodesStarting then
       let h1 = upd this (erase_keys (parent # map fst deletableBlocks)) h in
       (case PostDominator b of
          None \<Rightarrow> Inr h1
        | Some q \<Rightarrow> deleteDownPostDominanceInfo n q deletableBlocks parent lastNodesStarting h1)
     else Inr h)"

definition addPredecessorAsPostDominated :: "nat \<Rightarrow> block \<Rightarrow> block \<Rightarrow> heap \<Rightarrow> heap result" where
  "addPredecessorAsPostDominated n this predecessor h =
     rbind (deref h predecessor) (\<lambda>p.
     if isPostDominated p = 0 then
       passDownPostDominanceInfo n this predecessor
         (upd this (addImmediatePostDominator (startingAddress p) predecessor)
           (upd predecessor (setPostDominator this) h))
     else
       rbind (case PostDominator p of None \<Rightarrow> Inl Undefined | Some q \<Rightarrow> Inr q) (\<lambda>competingSibling.
       rbind (getCommonPostDominator n this predecessor h) (\<lambda>(newPostDominator, h1).
       let h2 = upd this (\<lambda>b. b\<lparr>immediatelyPostDominated := map_erase (immediatelyPostDominated b) (startingAddress p)\<rparr>) h1 in
       rbind (deref h2 newPostDominator) (\<lambda>d.
       rbind (deref h2 predecessor) (\<lambda>p2.
       rbind (deleteDownPostDominanceInfo n competingSibling (postDominated p2) (startingAddress p2) (startingAddress d) h2) (\<lambda>h3.
       Inr (upd newPostDominator (addImmediatePostDominator (startingAddress p2) predecessor)
              (upd predecessor (setPostDominator newPostDominator) h3))))))))"

end
