(* ===== verification/Routine_Graph.thy ===== *)
theory Routine_Graph
  imports Basic_Block
begin

text \<open>
  The control flow graph of a routine (\<open>RoutineGraph.H\<close>) and the places at which
  \<open>Controlflow\<close> of \<open>dytan.cpp\<close> opens and closes branches.

  A routine is the list of its instructions with what Pin says of them; \<open>INS_Next\<close> is the
  next element of the list, and the address of an invalid instruction is undefined. The sets of
  addresses are sorted lists without repetition. The order in which a set of block pointers is
  iterated is the order of the addresses of the blocks, the argument \<open>ptr\<close>.
\<close>

record rtn_ins =
  INS_Address :: ADDRINT
  INS_IsBranch :: bool
  INS_IsDirectBranchOrCall :: bool
  INS_DirectBranchOrCallTargetAddress :: ADDRINT
  INS_HasFallThrough :: bool
  INS_NextAddress :: ADDRINT
  INS_IsCall :: bool
  INS_IsRet :: bool
  INS_IsCondBr :: bool

definition addr_insert :: "ADDRINT \<Rightarrow> ADDRINT list \<Rightarrow> ADDRINT list" where
  "addr_insert a as = (if a \<in> set as then as else insort a as)"

record routine_graph =
  blocks :: heap
  addressMap :: "ADDRINT \<Rightarrow> block option"
  allBlocks :: "block list"
  branches :: "ADDRINT \<Rightarrow> ADDRINT list"
  targets :: "ADDRINT \<Rightarrow> ADDRINT list"
  EntranceNode :: "block option"
  ReturnNode :: "block option"

definition empty_graph :: routine_graph where
  "empty_graph = \<lparr>blocks = [], addressMap = (\<lambda>a. None), allBlocks = [], branches = (\<lambda>a. []), targets = (\<lambda>a. []),
     EntranceNode = None, ReturnNode = None\<rparr>"

section \<open>First pass: branches and targets\<close>

definition add_branch :: "ADDRINT \<Rightarrow> ADDRINT \<Rightarrow> routine_graph \<Rightarrow> routine_graph" where
  "add_branch addr target g = g\<lparr>branches := (branches g)(addr := addr_insert target (branches g addr))\<rparr>"

definition add_target :: "ADDRINT \<Rightarrow> ADDRINT \<Rightarrow> routine_graph \<Rightarrow> routine_graph" where
  "add_target target addr g = g\<lparr>targets := (targets g)(target := addr_insert addr (targets g target))\<rparr>"

definition add_fall_through :: "rtn_ins \<Rightarrow> routine_graph \<Rightarrow> routine_graph" where
  "add_fall_through ins g =
     (if INS_HasFallThrough ins
      then add_target (INS_NextAddress ins) (INS_Address ins) (add_branch (INS_Address ins) (INS_NextAddress ins) g)
      else g)"

definition mapper :: "rtn_ins \<Rightarrow> routine_graph \<Rightarrow> routine_graph" where
  "mapper ins g =
     (let addr = INS_Address ins;
          g1 = (if INS_IsBranch ins then
                  if INS_IsDirectBranchOrCall ins then
                    let target = INS_DirectBranchOrCallTargetAddress ins in
                    add_fall_through ins (add_target target addr (add_branch addr target g))
                  else add_fall_through ins (add_branch addr 5 g)
                else g);
          g2 = (if INS_IsCall ins then
                  if INS_IsDirectBranchOrCall ins then add_fall_through ins (add_branch addr 1 g1)
                  else add_fall_through ins (add_branch addr 4 g1)
                else g1)
      in if INS_IsRet ins then add_branch addr 2 g2 else g2)"

section \<open>Second pass: blocks\<close>

text \<open>\<open>new BasicBlock()\<close>: the block is appended to the heap, \<open>u\<close> gives the values that its
  constructor does not set.\<close>

type_synonym uninit = "block \<Rightarrow> uninit_block"

definition new_block :: "uninit \<Rightarrow> routine_graph \<Rightarrow> block \<times> routine_graph" where
  "new_block u g = (length (blocks g), g\<lparr>blocks := blocks g @ [new_BasicBlock (u (length (blocks g)))]\<rparr>)"

definition upd_block :: "block \<Rightarrow> (basic_block \<Rightarrow> basic_block) \<Rightarrow> routine_graph \<Rightarrow> routine_graph" where
  "upd_block p f g = g\<lparr>blocks := upd p f (blocks g)\<rparr>"

definition map_address :: "ADDRINT \<Rightarrow> block \<Rightarrow> routine_graph \<Rightarrow> routine_graph" where
  "map_address a p g = g\<lparr>addressMap := (addressMap g)(a \<mapsto> p)\<rparr>"

definition add_block :: "block \<Rightarrow> routine_graph \<Rightarrow> routine_graph" where
  "add_block p g = g\<lparr>allBlocks := ptr_insert p (allBlocks g)\<rparr>"

definition Get_BasicBlock_At :: "uninit \<Rightarrow> ADDRINT \<Rightarrow> routine_graph \<Rightarrow> block \<times> routine_graph" where
  "Get_BasicBlock_At u a g =
     (case addressMap g a of
        Some p \<Rightarrow> (p, g)
      | None \<Rightarrow> (case new_block u g of (p, g1) \<Rightarrow> (p, add_block p (map_address a p g1))))"

text \<open>The pairs of edges that the code inserts: from the current block to a block, and the edge of
  a call or an indirect call, which goes forward through the block of the call and backward
  directly to the current block.\<close>

definition link :: "block \<Rightarrow> block \<Rightarrow> routine_graph \<Rightarrow> routine_graph" where
  "link p q g = upd_block p (insertSuccs q) (upd_block q (insertPreds p) g)"

definition link_via :: "block \<Rightarrow> block \<Rightarrow> block \<Rightarrow> routine_graph \<Rightarrow> routine_graph" where
  "link_via p c q g = upd_block c (insertSuccs q) (upd_block q (insertPreds p) g)"

text \<open>\<open>INS_Address(INS_Next(ins))\<close>.\<close>

definition next_address :: "rtn_ins list \<Rightarrow> ADDRINT result" where
  "next_address rest = (case rest of [] \<Rightarrow> Inl Undefined | i # is \<Rightarrow> Inr (INS_Address i))"

definition special_block :: "uninit \<Rightarrow> ADDRINT \<Rightarrow> routine_graph \<Rightarrow> block \<times> routine_graph" where
  "special_block u a g = (case new_block u g of (p, g1) \<Rightarrow> (p, upd_block p (setEnding a) (upd_block p (setStarting a) g1)))"

definition BranchIns ::
  "uninit \<Rightarrow> (ADDRINT \<Rightarrow> string option) \<Rightarrow> rtn_ins \<Rightarrow> rtn_ins list \<Rightarrow> block \<Rightarrow> routine_graph \<Rightarrow> routine_graph result" where
  "BranchIns u rtn_name ins rest cur g =
     (let addr = INS_Address ins;
          g1 = map_address addr cur (upd_block cur (setEnding addr) g)
      in case branches g1 addr of
           [] \<Rightarrow> Inl Undefined
         | target # others \<Rightarrow>
             if target = 1 then
               (case special_block u 1 g1 of (called, g2) \<Rightarrow>
                let g3 = (case rtn_name (INS_DirectBranchOrCallTargetAddress ins) of
                            Some nm \<Rightarrow> upd_block called (setRoutineCalled nm) g2 | None \<Rightarrow> g2);
                    g4 = link cur called g3
                in rbind (next_address rest) (\<lambda>a.
                   case Get_BasicBlock_At u a g4 of (q, g5) \<Rightarrow> Inr (link_via cur called q g5)))
             else if target = 2 then
               (case addressMap g1 2 of
                  None \<Rightarrow> Inl Undefined
                | Some r \<Rightarrow> Inr (link cur r g1))
             else if target = 4 then
               (case special_block u 4 g1 of (ind, g2) \<Rightarrow>
                let g3 = link cur ind (add_block ind g2)
                in rbind (next_address rest) (\<lambda>a.
                   case Get_BasicBlock_At u a g3 of (q, g4) \<Rightarrow> Inr (link_via cur ind q g4)))
             else if target = 5 then
               (case special_block u 5 g1 of (ind, g2) \<Rightarrow> Inr (link cur ind (add_block ind g2)))
             else
               (case Get_BasicBlock_At u target g1 of (t, g2) \<Rightarrow>
                let g3 = link cur t g2 in
                (case others of
                  other # rem \<Rightarrow> (case Get_BasicBlock_At u other g3 of (q, g4) \<Rightarrow> Inr (link cur q g4))
                | [] \<Rightarrow>
                    rbind (deref (blocks g3) cur) (\<lambda>b.
                    if target = startingAddress b then
                      rbind (next_address rest) (\<lambda>a.
                      case Get_BasicBlock_At u a g3 of (q, g4) \<Rightarrow> Inr (link cur q g4))
                    else Inr g3))))"

text \<open>The loop of \<open>BlockBuilder\<close>; \<open>previous\<close> is the instruction before the current one.\<close>

fun build_loop ::
  "uninit \<Rightarrow> (ADDRINT \<Rightarrow> string option) \<Rightarrow> rtn_ins \<Rightarrow> rtn_ins list \<Rightarrow> block option \<Rightarrow> routine_graph \<Rightarrow>
   (rtn_ins \<times> block option \<times> routine_graph) result" where
  "build_loop u nm previous [] cur g = Inr (previous, cur, g)"
| "build_loop u nm previous (ins # rest) cur g =
     (let addr = INS_Address ins; is_branch = (branches g addr \<noteq> []) in
      case cur of
        None \<Rightarrow>
          (case Get_BasicBlock_At u addr g of (p, g1) \<Rightarrow>
           let g2 = upd_block p (setStarting addr) g1 in
           if is_branch
           then rbind (BranchIns u nm ins rest p g2) (build_loop u nm ins rest None)
           else build_loop u nm ins rest (Some p) g2)
      | Some c \<Rightarrow>
          if targets g addr \<noteq> [] then
            (case Get_BasicBlock_At u addr (upd_block c (setEnding (INS_Address previous)) g) of (p, g1) \<Rightarrow>
             let g2 = upd_block p (setStarting addr) (link c p g1) in
             if is_branch
             then rbind (BranchIns u nm ins rest p g2) (build_loop u nm ins rest None)
             else build_loop u nm ins rest (Some p) g2)
          else if is_branch
          then rbind (BranchIns u nm ins rest c g) (build_loop u nm ins rest None)
          else build_loop u nm ins rest (Some c) (map_address addr c g))"

definition BlockBuilder ::
  "uninit \<Rightarrow> (ADDRINT \<Rightarrow> string option) \<Rightarrow> rtn_ins list \<Rightarrow> routine_graph \<Rightarrow> routine_graph result" where
  "BlockBuilder u nm rtn g =
     (case rtn of
        [] \<Rightarrow> Inl Undefined
      | firstIns # rest \<Rightarrow>
          (case Get_BasicBlock_At u (INS_Address firstIns) g of (head, g1) \<Rightarrow>
           let g2 = map_address (INS_Address firstIns) head
                 (upd_block head (setStarting (INS_Address firstIns)) (upd_block head setAsEntryNode g1))
           in case special_block u 2 g2 of (ret, g3) \<Rightarrow>
              let g4 = add_block ret (add_block head (map_address 2 ret g3)) in
              rbind (build_loop u nm firstIns rest (Some head) g4) (\<lambda>(previous, cur, g5).
              let g6 = (case cur of Some c \<Rightarrow> upd_block c (setEnding (INS_Address previous)) g5 | None \<Rightarrow> g5)
              in Inr (g6\<lparr>EntranceNode := Some head, ReturnNode := Some ret\<rparr>))))"

section \<open>Third pass: post-dominators\<close>

text \<open>The loop over the predecessors: a block without a post-dominator is queued.\<close>

definition visit_predecessor :: "nat \<Rightarrow> block \<Rightarrow> block \<Rightarrow> block list \<times> heap \<Rightarrow> (block list \<times> heap) result" where
  "visit_predecessor n cur p = (\<lambda>(queue, h).
     rbind (deref h p) (\<lambda>b.
     let queue' = (if PostDominator b = None then queue @ [p] else queue) in
     rbind (addPredecessorAsPostDominated n cur p h) (\<lambda>h'. Inr (queue', h'))))"

fun buildPostDominanceTree :: "(block \<Rightarrow> ADDRINT) \<Rightarrow> nat \<Rightarrow> nat \<Rightarrow> block \<Rightarrow> block list \<Rightarrow> heap \<Rightarrow> heap result" where
  "buildPostDominanceTree ptr n 0 cur queue h = Inl Out_of_fuel"
| "buildPostDominanceTree ptr n (Suc k) cur queue h =
     rbind (deref h cur) (\<lambda>b.
     rbind (rfold (visit_predecessor n cur) (sort_key ptr (predecessors b)) (queue, h)) (\<lambda>(queue', h').
     case queue' of
       [] \<Rightarrow> Inr h'
     | nxt # rest \<Rightarrow> buildPostDominanceTree ptr n k nxt rest h'))"

text \<open>The whole constructor; the fuel is the number of blocks.\<close>

definition initializeRoutineInfo ::
  "(block \<Rightarrow> ADDRINT) \<Rightarrow> uninit \<Rightarrow> (ADDRINT \<Rightarrow> string option) \<Rightarrow> rtn_ins list \<Rightarrow> routine_graph result" where
  "initializeRoutineInfo ptr u nm rtn =
     rbind (BlockBuilder u nm rtn (fold mapper rtn empty_graph)) (\<lambda>g.
     case ReturnNode g of
       None \<Rightarrow> Inl Undefined
     | Some r \<Rightarrow>
         rbind (buildPostDominanceTree ptr (length (blocks g)) (length (blocks g)) r [] (blocks g)) (\<lambda>h.
         Inr (g\<lparr>blocks := h\<rparr>)))"

section \<open>Opening and closing branches\<close>

datatype control_call = Push_at ADDRINT | Pop_at ADDRINT nat "ADDRINT list"

type_synonym controls = "(ADDRINT, ADDRINT list) stdmap"

definition branch_block :: "routine_graph \<Rightarrow> ADDRINT \<Rightarrow> ADDRINT result" where
  "branch_block g addr =
     (case addressMap g addr of
        None \<Rightarrow> Inl Undefined
      | Some p \<Rightarrow>
          rbind (deref (blocks g) p) (\<lambda>b.
          case PostDominator b of
            None \<Rightarrow> Inl Undefined
          | Some q \<Rightarrow> rbind (deref (blocks g) q) (\<lambda>d. Inr (startingAddress d))))"

definition push_branch ::
  "routine_graph \<Rightarrow> rtn_ins \<Rightarrow> controls \<times> control_call list \<Rightarrow> (controls \<times> control_call list) result" where
  "push_branch g ins = (\<lambda>(controls, calls).
     if INS_IsCondBr ins then
       let addr = INS_Address ins in
       rbind (branch_block g addr) (\<lambda>ipdom.
       let old = (case map_find controls ipdom of Some s \<Rightarrow> s | None \<Rightarrow> []) in
       Inr (map_put controls ipdom (addr_insert addr old), calls @ [Push_at addr]))
     else Inr (controls, calls))"

definition pop_branches :: "controls \<Rightarrow> rtn_ins \<Rightarrow> control_call list" where
  "pop_branches controls ins =
     (case map_find controls (INS_Address ins) of
        None \<Rightarrow> []
      | Some s \<Rightarrow> [Pop_at (INS_Address ins) (length s) s])"

definition Controlflow ::
  "(block \<Rightarrow> ADDRINT) \<Rightarrow> uninit \<Rightarrow> (ADDRINT \<Rightarrow> string option) \<Rightarrow> bool \<Rightarrow> rtn_ins list \<Rightarrow> control_call list result" where
  "Controlflow ptr u nm sharedlib rtn =
     (if sharedlib then Inr []
      else
        rbind (initializeRoutineInfo ptr u nm rtn) (\<lambda>g.
        rbind (rfold (push_branch g) rtn ([], [])) (\<lambda>(controls, calls).
        Inr (calls @ concat (map (pop_branches controls) rtn)))))"

end
