(* ===== verification/Post_Dominance.thy ===== *)
theory Post_Dominance
  imports Routine_Graph
begin

text \<open>
  The third pass over a routine ends, and the post-dominator pointers it sets form a tree with
  the return block as its root. The proof ranks the blocks by the order in which they are
  queued: every pointer goes to a block of smaller rank, because a block is entered into the
  map \<open>postDominated\<close> of blocks of smaller rank only.
\<close>

section \<open>The heap\<close>

lemma length_upd [simp]: "length (upd p f h) = length h"
  by (simp add: upd_def)

lemma nth_upd: "b < length h \<Longrightarrow> upd p f h ! b = (if b = p then f (h ! b) else h ! b)"
  by (auto simp: upd_def)

lemma deref_ok [simp]: "p < length h \<Longrightarrow> deref h p = Inr (h ! p)"
  by (simp add: deref_def)

text \<open>What the third pass never changes.\<close>

definition same_shape :: "heap \<Rightarrow> heap \<Rightarrow> bool" where
  "same_shape h h' \<longleftrightarrow> length h' = length h \<and>
     (\<forall>b < length h. startingAddress (h' ! b) = startingAddress (h ! b) \<and> predecessors (h' ! b) = predecessors (h ! b))"

lemma same_shape_refl [simp]: "same_shape h h"
  by (simp add: same_shape_def)

lemma same_shape_trans: "same_shape h h1 \<Longrightarrow> same_shape h1 h2 \<Longrightarrow> same_shape h h2"
  by (simp add: same_shape_def)

lemma same_shapeD:
  assumes "same_shape h h'"
  shows "length h' = length h" "b < length h \<Longrightarrow> startingAddress (h' ! b) = startingAddress (h ! b)"
    "b < length h \<Longrightarrow> predecessors (h' ! b) = predecessors (h ! b)"
  using assms by (simp_all add: same_shape_def)

lemma same_shape_upd:
  assumes "\<And>b. startingAddress (f b) = startingAddress b" "\<And>b. predecessors (f b) = predecessors b"
  shows "same_shape h (upd p f h)"
  using assms by (simp add: same_shape_def nth_upd)

section \<open>The invariant\<close>

definition entries_ok :: "block set \<Rightarrow> (block \<Rightarrow> nat) \<Rightarrow> heap \<Rightarrow> block \<Rightarrow> bool" where
  "entries_ok S rk h b \<longleftrightarrow> stdmap_inv (postDominated (h ! b)) \<and>
     (\<forall>k q. map_find (postDominated (h ! b)) k = Some (Some q) \<longrightarrow>
        b \<in> S \<and> q \<in> S \<and> startingAddress (h ! q) = k \<and> rk b < rk q)"

definition parent_ok :: "block \<Rightarrow> block set \<Rightarrow> (block \<Rightarrow> nat) \<Rightarrow> heap \<Rightarrow> block \<Rightarrow> bool" where
  "parent_ok ret S rk h b \<longleftrightarrow>
     (if b \<in> S - {ret} then isPostDominated (h ! b) = 1 \<and> (\<exists>a \<in> S. PostDominator (h ! b) = Some a \<and> rk a < rk b)
      else isPostDominated (h ! b) = 0 \<and> PostDominator (h ! b) = None)"

definition pd_tree :: "block \<Rightarrow> block set \<Rightarrow> (block \<Rightarrow> nat) \<Rightarrow> heap \<Rightarrow> bool" where
  "pd_tree ret S rk h \<longleftrightarrow> ret \<in> S \<and> S \<subseteq> {..<length h} \<and> (\<forall>b \<in> S. rk b < card S) \<and>
     startingAddress (h ! ret) = 2 \<and> (\<forall>b \<in> S. startingAddress (h ! b) = 2 \<longrightarrow> b = ret) \<and>
     inj_on (\<lambda>b. startingAddress (h ! b)) S \<and>
     (\<forall>b < length h. parent_ok ret S rk h b \<and> entries_ok S rk h b)"

lemma pd_treeD:
  assumes "pd_tree ret S rk h"
  shows "ret \<in> S" "S \<subseteq> {..<length h}" "b \<in> S \<Longrightarrow> rk b < card S" "startingAddress (h ! ret) = 2"
    "b \<in> S \<Longrightarrow> startingAddress (h ! b) = 2 \<Longrightarrow> b = ret" "inj_on (\<lambda>b. startingAddress (h ! b)) S"
    "b < length h \<Longrightarrow> parent_ok ret S rk h b" "b < length h \<Longrightarrow> entries_ok S rk h b" "finite S"
    "b \<in> S \<Longrightarrow> b < length h"
  using assms finite_subset[of S "{..<length h}"] by (auto simp: pd_tree_def)

lemma pd_tree_bound: "pd_tree ret S rk h \<Longrightarrow> b \<in> S \<Longrightarrow> rk b < length h"
  using pd_treeD(2,3)[of ret S rk h] card_mono[of "{..<length h}" S] by fastforce

lemma pd_tree_parent:
  assumes "pd_tree ret S rk h" "b \<in> S" "startingAddress (h ! b) \<noteq> 2"
  obtains a where "a \<in> S" "PostDominator (h ! b) = Some a" "rk a < rk b"
  using pd_treeD(7)[OF assms(1) pd_treeD(10)[OF assms(1,2)]] assms pd_treeD(4)[OF assms(1)]
  by (auto simp: parent_ok_def split: if_splits)

text \<open>Changing the map of one block only, without new entries that break the ranks.\<close>

lemma pd_tree_upd_map:
  assumes t: "pd_tree ret S rk h" and p: "p < length h"
    and m: "stdmap_inv m" "\<forall>k q. map_find m k = Some (Some q) \<longrightarrow>
      p \<in> S \<and> q \<in> S \<and> startingAddress (h ! q) = k \<and> rk p < rk q"
    and f: "f (h ! p) = (h ! p)\<lparr>postDominated := m\<rparr>"
  shows "pd_tree ret S rk (upd p f h)" "same_shape h (upd p f h)"
proof -
  have s: "startingAddress (upd p f h ! b) = startingAddress (h ! b)"
      "predecessors (upd p f h ! b) = predecessors (h ! b)"
      "PostDominator (upd p f h ! b) = PostDominator (h ! b)" "isPostDominated (upd p f h ! b) = isPostDominated (h ! b)"
    if "b < length h" for b
    using that f by (simp_all add: nth_upd)
  show "same_shape h (upd p f h)" using s by (simp add: same_shape_def)
  have st: "startingAddress (upd p f h ! b) = startingAddress (h ! b)" if "b \<in> S" for b
    using that s(1) pd_treeD(10)[OF t] by simp
  have "entries_ok S rk (upd p f h) b" if b: "b < length h" for b
  proof (cases "b = p")
    case True
    then show ?thesis using m f p st by (auto simp: entries_ok_def nth_upd)
  next
    case False
    then show ?thesis using pd_treeD(8)[OF t b] st b by (auto simp: entries_ok_def nth_upd)
  qed
  moreover have "parent_ok ret S rk (upd p f h) b" if "b < length h" for b
    using pd_treeD(7)[OF t that] s[OF that] by (simp add: parent_ok_def)
  moreover have "inj_on (\<lambda>b. startingAddress (upd p f h ! b)) S"
    using pd_treeD(6)[OF t] by (rule inj_on_cong[THEN iffD1, rotated]) (simp add: st)
  ultimately show "pd_tree ret S rk (upd p f h)"
    using t st by (auto simp: pd_tree_def)
qed

lemma pd_tree_probe:
  assumes t: "pd_tree ret S rk h" and p: "p < length h"
  shows "pd_tree ret S rk (upd p (probe key) h)" "same_shape h (upd p (probe key) h)"
proof -
  let ?m = "case map_find (postDominated (h ! p)) key of None \<Rightarrow> map_put (postDominated (h ! p)) key None
    | Some v \<Rightarrow> postDominated (h ! p)"
  have e: "entries_ok S rk h p" using pd_treeD(8)[OF t p] .
  have m: "stdmap_inv ?m" using e by (auto simp: entries_ok_def stdmap_inv_put split: option.splits)
  have n: "\<forall>k q. map_find ?m k = Some (Some q) \<longrightarrow> p \<in> S \<and> q \<in> S \<and> startingAddress (h ! q) = k \<and> rk p < rk q"
    using e by (auto simp: entries_ok_def map_find_put split: option.splits if_splits)
  have f: "probe key (h ! p) = (h ! p)\<lparr>postDominated := ?m\<rparr>" by (simp add: probe_def split: option.splits)
  from pd_tree_upd_map[OF t p m n, of "probe key", OF f]
  show "pd_tree ret S rk (upd p (probe key) h)" "same_shape h (upd p (probe key) h)" .
qed

lemma fold_map_erase:
  assumes "stdmap_inv m"
  shows "stdmap_inv (fold (\<lambda>k m. map_erase m k) ks m)"
    "map_find (fold (\<lambda>k m. map_erase m k) ks m) x = Some v \<Longrightarrow> map_find m x = Some v"
proof -
  have "stdmap_inv (fold (\<lambda>k m. map_erase m k) ks m) \<and>
     (map_find (fold (\<lambda>k m. map_erase m k) ks m) x = Some v \<longrightarrow> map_find m x = Some v)"
    using assms
  proof (induction ks arbitrary: m)
    case (Cons k ks)
    then show ?case using Cons.IH[OF stdmap_inv_erase[OF Cons.prems], of k]
      by (auto simp: map_find_erase split: if_splits)
  qed simp
  then show "stdmap_inv (fold (\<lambda>k m. map_erase m k) ks m)"
    "map_find (fold (\<lambda>k m. map_erase m k) ks m) x = Some v \<Longrightarrow> map_find m x = Some v" by blast+
qed

lemma pd_tree_erase:
  assumes t: "pd_tree ret S rk h" and p: "p < length h"
  shows "pd_tree ret S rk (upd p (erase_keys ks) h)" "same_shape h (upd p (erase_keys ks) h)"
proof -
  let ?m = "fold (\<lambda>k m. map_erase m k) ks (postDominated (h ! p))"
  have e: "entries_ok S rk h p" using pd_treeD(8)[OF t p] .
  then have i: "stdmap_inv (postDominated (h ! p))" by (simp add: entries_ok_def)
  have m: "stdmap_inv ?m" using i by (rule fold_map_erase(1))
  have n: "\<forall>k q. map_find ?m k = Some (Some q) \<longrightarrow> p \<in> S \<and> q \<in> S \<and> startingAddress (h ! q) = k \<and> rk p < rk q"
    using e fold_map_erase(2)[OF i] unfolding entries_ok_def by blast
  from pd_tree_upd_map[OF t p m n, of "erase_keys ks"]
  show "pd_tree ret S rk (upd p (erase_keys ks) h)" "same_shape h (upd p (erase_keys ks) h)"
    by (simp_all add: erase_keys_def)
qed

section \<open>The walks up the chain\<close>

lemma getCommonPostDominator_ok:
  assumes "pd_tree ret S rk h" "this \<in> S" "sib < length h" "rk this < n"
  shows "\<exists>a h'. getCommonPostDominator n this sib h = Inr (a, h') \<and> pd_tree ret S rk h' \<and> same_shape h h' \<and> a \<in> S \<and>
    (a = ret \<or> post_dominates (h' ! a) (startingAddress (h ! sib))) \<and>
    (\<forall>b < length h. PostDominator (h' ! b) = PostDominator (h ! b))"
  using assms
proof (induction n arbitrary: this h)
  case (Suc n)
  let ?k = "startingAddress (h ! sib)"
  let ?h = "upd this (probe ?k) h"
  have l: "this < length h" using pd_treeD(10)[OF Suc.prems(1,2)] .
  note p = pd_tree_probe[OF Suc.prems(1) l, of ?k]
  have pd: "PostDominator (?h ! b) = PostDominator (h ! b)" if "b < length h" for b
    using that by (simp add: nth_upd probe_def split: option.splits)
  have run: "getCommonPostDominator (Suc n) this sib h =
      (if post_dominates (h ! this) ?k then Inr (this, ?h)
       else if startingAddress (h ! this) = 2 then Inr (this, ?h)
       else (case PostDominator (h ! this) of None \<Rightarrow> Inl Undefined | Some q \<Rightarrow> getCommonPostDominator n q sib ?h))"
    using l Suc.prems(3) by (simp add: Let_def)
  consider (found) "post_dominates (h ! this) ?k" | (root) "\<not> post_dominates (h ! this) ?k" "startingAddress (h ! this) = 2"
    | (up) "\<not> post_dominates (h ! this) ?k" "startingAddress (h ! this) \<noteq> 2" by blast
  then show ?case
  proof cases
    case found
    then have "post_dominates (?h ! this) ?k"
      using l by (auto simp: nth_upd probe_def post_dominates_def split: option.splits)
    with found p pd Suc.prems(2) show ?thesis unfolding run by auto
  next
    case root
    then have "this = ret" using pd_treeD(5)[OF Suc.prems(1,2)] by simp
    with root p pd Suc.prems(2) show ?thesis unfolding run by auto
  next
    case up
    obtain a where a: "a \<in> S" "PostDominator (h ! this) = Some a" "rk a < rk this"
      using pd_tree_parent[OF Suc.prems(1,2) up(2)] .
    have "sib < length ?h" "rk a < n" using Suc.prems(3,4) a(3) by simp_all
    from Suc.IH[OF p(1) a(1) this] obtain x h' where x: "getCommonPostDominator n a sib ?h = Inr (x, h')" "pd_tree ret S rk h'"
        "same_shape ?h h'" "x \<in> S" "x = ret \<or> post_dominates (h' ! x) (startingAddress (?h ! sib))"
        "\<forall>b < length ?h. PostDominator (h' ! b) = PostDominator (?h ! b)" by blast
    have "startingAddress (?h ! sib) = ?k" using same_shapeD(2)[OF p(2) Suc.prems(3)] .
    moreover have "same_shape h h'" using p(2) x(3) by (rule same_shape_trans)
    ultimately show ?thesis unfolding run using up a(2) x pd by auto
  qed
qed simp

lemma passDown_ok:
  assumes "pd_tree ret S rk h" "this \<in> S" "child \<in> S" "rk this < rk child" "rk this < n"
  shows "\<exists>h'. passDownPostDominanceInfo n this child h = Inr h' \<and> pd_tree ret S rk h' \<and> same_shape h h' \<and>
    (\<forall>b < length h. PostDominator (h' ! b) = PostDominator (h ! b))"
  using assms
proof (induction n arbitrary: this h)
  case (Suc n)
  let ?k = "startingAddress (h ! child)"
  let ?f = "\<lambda>b. b\<lparr>postDominated := map_put (postDominated b) ?k (Some child)\<rparr>"
  let ?h = "upd this ?f h"
  have l: "this < length h" "child < length h" using pd_treeD(10)[OF Suc.prems(1)] Suc.prems(2,3) by simp_all
  have e: "entries_ok S rk h this" using pd_treeD(8)[OF Suc.prems(1) l(1)] .
  have m: "stdmap_inv (map_put (postDominated (h ! this)) ?k (Some child))" using e by (simp add: entries_ok_def stdmap_inv_put)
  have "\<forall>k q. map_find (map_put (postDominated (h ! this)) ?k (Some child)) k = Some (Some q) \<longrightarrow>
      this \<in> S \<and> q \<in> S \<and> startingAddress (h ! q) = k \<and> rk this < rk q"
    using e Suc.prems(2-4) by (auto simp: entries_ok_def map_find_put split: if_splits)
  note p = pd_tree_upd_map[OF Suc.prems(1) l(1) m this, of ?f, OF refl]
  have pd: "PostDominator (?h ! b) = PostDominator (h ! b)" if "b < length h" for b
    using that by (simp add: nth_upd)
  have run: "passDownPostDominanceInfo (Suc n) this child h =
      (if startingAddress (h ! this) \<noteq> 2
       then (case PostDominator (h ! this) of None \<Rightarrow> Inl Undefined | Some q \<Rightarrow> passDownPostDominanceInfo n q child ?h)
       else Inr ?h)"
    using l by (simp add: Let_def)
  show ?case
  proof (cases "startingAddress (h ! this) = 2")
    case True
    then show ?thesis unfolding run using p pd by auto
  next
    case False
    obtain a where a: "a \<in> S" "PostDominator (h ! this) = Some a" "rk a < rk this"
      using pd_tree_parent[OF Suc.prems(1,2) False] .
    have "rk a < rk child" "rk a < n" using Suc.prems(4,5) a(3) by simp_all
    from Suc.IH[OF p(1) a(1) Suc.prems(3) this] obtain h' where h': "passDownPostDominanceInfo n a child ?h = Inr h'"
      "pd_tree ret S rk h'" "same_shape ?h h'" "\<forall>b < length ?h. PostDominator (h' ! b) = PostDominator (?h ! b)" by blast
    have "same_shape h h'" using p(2) h'(3) by (rule same_shape_trans)
    then show ?thesis unfolding run using False a(2) h' pd by auto
  qed
qed simp

lemma deleteDown_ok:
  assumes "pd_tree ret S rk h" "this \<in> S" "rk this < n"
  shows "\<exists>h'. deleteDownPostDominanceInfo n this ds parent fin h = Inr h' \<and> pd_tree ret S rk h' \<and> same_shape h h' \<and>
    (\<forall>b < length h. PostDominator (h' ! b) = PostDominator (h ! b))"
  using assms
proof (induction n arbitrary: this h)
  case (Suc n)
  let ?h = "upd this (erase_keys (parent # map fst ds)) h"
  have l: "this < length h" using pd_treeD(10)[OF Suc.prems(1,2)] .
  note p = pd_tree_erase[OF Suc.prems(1) l, of "parent # map fst ds"]
  have pd: "PostDominator (?h ! b) = PostDominator (h ! b)" if "b < length h" for b
    using that by (simp add: nth_upd erase_keys_def)
  have run: "deleteDownPostDominanceInfo (Suc n) this ds parent fin h =
      (if startingAddress (h ! this) \<noteq> fin
       then (case PostDominator (h ! this) of None \<Rightarrow> Inr ?h | Some q \<Rightarrow> deleteDownPostDominanceInfo n q ds parent fin ?h)
       else Inr h)"
    using l by (simp add: Let_def)
  show ?case
  proof (cases "startingAddress (h ! this) \<noteq> fin \<and> PostDominator (h ! this) \<noteq> None")
    case False
    then show ?thesis unfolding run using p pd Suc.prems(1) by (auto split: option.splits)
  next
    case True
    then obtain a where a: "PostDominator (h ! this) = Some a" "a \<in> S" "rk a < rk this"
      using pd_treeD(7)[OF Suc.prems(1) l] by (auto simp: parent_ok_def split: if_splits)
    have "rk a < n" using Suc.prems(3) a(3) by simp
    from Suc.IH[OF p(1) a(2) this] obtain h' where h': "deleteDownPostDominanceInfo n a ds parent fin ?h = Inr h'"
      "pd_tree ret S rk h'" "same_shape ?h h'" "\<forall>b < length ?h. PostDominator (h' ! b) = PostDominator (?h ! b)" by blast
    have "same_shape h h'" using p(2) h'(3) by (rule same_shape_trans)
    then show ?thesis unfolding run using True a(1) h' pd by auto
  qed
qed simp

section \<open>Adding a predecessor\<close>

lemma startingAddress_setters [simp]:
  "startingAddress (setPostDominator q b) = startingAddress b" "predecessors (setPostDominator q b) = predecessors b"
  "postDominated (setPostDominator q b) = postDominated b" "PostDominator (setPostDominator q b) = Some q"
  "isPostDominated (setPostDominator q b) = 1"
  "startingAddress (addImmediatePostDominator k q b) = startingAddress b"
  "predecessors (addImmediatePostDominator k q b) = predecessors b"
  "postDominated (addImmediatePostDominator k q b) = postDominated b"
  "PostDominator (addImmediatePostDominator k q b) = PostDominator b"
  "isPostDominated (addImmediatePostDominator k q b) = isPostDominated b"
  by (simp_all add: setPostDominator_def addImmediatePostDominator_def)

text \<open>Changes outside the fields of the invariant.\<close>

lemma pd_tree_same:
  assumes t: "pd_tree ret S rk h" and s: "same_shape h h'"
    and f: "\<forall>b < length h. PostDominator (h' ! b) = PostDominator (h ! b) \<and> isPostDominated (h' ! b) = isPostDominated (h ! b) \<and>
      postDominated (h' ! b) = postDominated (h ! b)"
  shows "pd_tree ret S rk h'"
proof -
  have l: "length h' = length h" using same_shapeD(1)[OF s] .
  have st: "startingAddress (h' ! b) = startingAddress (h ! b)" if "b \<in> S" for b
    using same_shapeD(2)[OF s pd_treeD(10)[OF t that]] .
  have "inj_on (\<lambda>b. startingAddress (h' ! b)) S"
    using pd_treeD(6)[OF t] by (rule inj_on_cong[THEN iffD1, rotated]) (simp add: st)
  moreover have "entries_ok S rk h' b" "parent_ok ret S rk h' b" if "b < length h" for b
    using pd_treeD(7,8)[OF t that] f that st by (auto simp: entries_ok_def parent_ok_def)
  ultimately show ?thesis using t st l by (auto simp: pd_tree_def)
qed

lemma pd_tree_upd_immediate:
  assumes "pd_tree ret S rk h"
    and "\<And>b. startingAddress (f b) = startingAddress b" "\<And>b. predecessors (f b) = predecessors b"
      "\<And>b. PostDominator (f b) = PostDominator b" "\<And>b. isPostDominated (f b) = isPostDominated b"
      "\<And>b. postDominated (f b) = postDominated b"
  shows "pd_tree ret S rk (upd p f h)" "same_shape h (upd p f h)"
proof -
  show s: "same_shape h (upd p f h)" using assms(2,3) by (rule same_shape_upd)
  show "pd_tree ret S rk (upd p f h)"
    using assms(1) s by (rule pd_tree_same) (simp add: nth_upd assms)
qed

text \<open>A new parent: of a block that has one already, or of a block that becomes part of the tree.\<close>

lemma pd_tree_new_parent:
  assumes t: "pd_tree ret S rk h" and p: "p \<in> S" "p \<noteq> ret" and a: "a \<in> S" "rk a < rk p"
  shows "pd_tree ret S rk (upd p (setPostDominator a) h)" "same_shape h (upd p (setPostDominator a) h)"
proof -
  let ?h = "upd p (setPostDominator a) h"
  show s: "same_shape h ?h" by (rule same_shape_upd) simp_all
  have st: "startingAddress (?h ! b) = startingAddress (h ! b)" if "b \<in> S" for b
    using same_shapeD(2)[OF s pd_treeD(10)[OF t that]] .
  have "inj_on (\<lambda>b. startingAddress (?h ! b)) S"
    using pd_treeD(6)[OF t] by (rule inj_on_cong[THEN iffD1, rotated]) (simp add: st)
  moreover have "entries_ok S rk ?h b" "parent_ok ret S rk ?h b" if "b < length h" for b
    using pd_treeD(7,8)[OF t that] that st p a by (auto simp: entries_ok_def parent_ok_def nth_upd)
  ultimately show "pd_tree ret S rk ?h" using t st by (auto simp: pd_tree_def)
qed

lemma pd_tree_insert:
  assumes t: "pd_tree ret S rk h" and p: "p \<notin> S" "p < length h" "startingAddress (h ! p) \<noteq> 2" and a: "a \<in> S"
    and i: "\<forall>b \<in> S. startingAddress (h ! b) \<noteq> startingAddress (h ! p)"
  shows "pd_tree ret (insert p S) (rk(p := card S)) (upd p (setPostDominator a) h)"
    "same_shape h (upd p (setPostDominator a) h)"
proof -
  let ?h = "upd p (setPostDominator a) h" and ?rk = "rk(p := card S)" and ?S = "insert p S"
  show s: "same_shape h ?h" by (rule same_shape_upd) simp_all
  have st: "startingAddress (?h ! b) = startingAddress (h ! b)" if "b \<in> ?S" for b
    using same_shapeD(2)[OF s, of b] pd_treeD(10)[OF t] that p(2) by auto
  have rk: "?rk b = rk b" if "b \<in> S" for b using that p(1) by auto
  have "inj_on (\<lambda>b. startingAddress (h ! b)) ?S" using pd_treeD(6)[OF t] i p(1) by (auto simp: inj_on_def)
  then have "inj_on (\<lambda>b. startingAddress (?h ! b)) ?S" by (rule inj_on_cong[THEN iffD1, rotated]) (simp add: st)
  moreover have "entries_ok ?S ?rk ?h b" "parent_ok ret ?S ?rk ?h b" if b: "b < length h" for b
  proof -
    have e: "stdmap_inv (postDominated (h ! b))" "map_find (postDominated (h ! b)) k = Some (Some q) \<Longrightarrow>
        b \<in> S \<and> q \<in> S \<and> startingAddress (h ! q) = k \<and> rk b < rk q" for k q
      using pd_treeD(8)[OF t b] by (auto simp: entries_ok_def)
    have "postDominated (?h ! b) = postDominated (h ! b)" using b by (simp add: nth_upd)
    then show "entries_ok ?S ?rk ?h b" using e st rk by (fastforce simp: entries_ok_def)
    show "parent_ok ret ?S ?rk ?h b"
    proof (cases "b = p")
      case True
      then show ?thesis using a p pd_treeD(1,3)[OF t] rk[OF a] by (auto simp: parent_ok_def nth_upd)
    next
      case False
      then show ?thesis using pd_treeD(7)[OF t b] b rk by (auto simp: parent_ok_def nth_upd)
    qed
  qed
  moreover have "\<forall>b \<in> ?S. ?rk b < card ?S" using pd_treeD(3,9)[OF t] p(1) by (auto simp: less_SucI)
  ultimately show "pd_tree ret ?S ?rk ?h"
    using t st p by (auto simp: pd_tree_def)
qed

text \<open>What the blocks that become part of the tree must satisfy: the return block is not among
  them, and their addresses identify them.\<close>

definition preds_ok :: "block \<Rightarrow> block set \<Rightarrow> heap \<Rightarrow> bool" where
  "preds_ok ret P h \<longleftrightarrow> ret \<in> P \<and> P \<subseteq> {..<length h} \<and> inj_on (\<lambda>b. startingAddress (h ! b)) P \<and>
     startingAddress (h ! ret) = 2 \<and> (\<forall>b < length h. set (predecessors (h ! b)) \<subseteq> P - {ret})"

lemma preds_ok_same: "preds_ok ret P h \<Longrightarrow> same_shape h h' \<Longrightarrow> preds_ok ret P h'"
proof -
  assume p: "preds_ok ret P h" and s: "same_shape h h'"
  have "startingAddress (h' ! b) = startingAddress (h ! b)" if "b \<in> P" for b
    using that p s by (auto simp: preds_ok_def same_shape_def)
  with p s show ?thesis
    by (auto simp: preds_ok_def same_shape_def inj_on_def)
qed

lemma post_dominates_rank:
  assumes t: "pd_tree ret S rk h" and a: "a \<in> S" and p: "p \<in> S" and d: "post_dominates (h ! a) (startingAddress (h ! p))"
  shows "rk a < rk p"
proof -
  obtain q where q: "map_find (postDominated (h ! a)) (startingAddress (h ! p)) = Some (Some q)"
    using d by (auto simp: post_dominates_def split: option.splits)
  have "entries_ok S rk h a" using pd_treeD(8)[OF t pd_treeD(10)[OF t a]] .
  with q have "q \<in> S" "startingAddress (h ! q) = startingAddress (h ! p)" "rk a < rk q" by (auto simp: entries_ok_def)
  with inj_onD[OF pd_treeD(6)[OF t] _ _ p] show ?thesis by metis
qed

lemma pd_tree_root_rank:
  assumes "pd_tree ret S rk h" "p \<in> S" "p \<noteq> ret"
  shows "rk ret < rk p"
  using assms(2,3)
proof (induction "rk p" arbitrary: p rule: less_induct)
  case less
  obtain a where a: "a \<in> S" "rk a < rk p"
    using pd_treeD(7)[OF assms(1) pd_treeD(10)[OF assms(1) less.prems(1)]] less.prems by (auto simp: parent_ok_def)
  show ?case
  proof (cases "a = ret")
    case False
    then show ?thesis using less.hyps[OF a(2,1)] a(2) by simp
  qed (use a in simp)
qed

lemma addPredecessor_ok:
  assumes t: "pd_tree ret S rk h" and P: "preds_ok ret P h" and S: "S \<subseteq> P" and cur: "this \<in> S"
    and p: "p \<in> P" "p \<noteq> ret" and n: "n = length h"
  shows "\<exists>rk' h'. addPredecessorAsPostDominated n this p h = Inr h' \<and> pd_tree ret (insert p S) rk' h' \<and> same_shape h h'"
proof (cases "p \<in> S")
  case True
  have l: "p < length h" "this < length h" using pd_treeD(10)[OF t] True cur by simp_all
  obtain c where c: "PostDominator (h ! p) = Some c" "c \<in> S" "isPostDominated (h ! p) = 1"
    using pd_treeD(7)[OF t l(1)] True p(2) by (auto simp: parent_ok_def)
  obtain a h1 where a: "getCommonPostDominator n this p h = Inr (a, h1)" "pd_tree ret S rk h1" "same_shape h h1" "a \<in> S"
      "a = ret \<or> post_dominates (h1 ! a) (startingAddress (h ! p))"
    using getCommonPostDominator_ok[OF t cur l(1), of n] pd_tree_bound[OF t cur] n by blast
  have "startingAddress (h1 ! p) = startingAddress (h ! p)" using same_shapeD(2)[OF a(3) l(1)] .
  then have rk: "rk a < rk p"
    using a(5) post_dominates_rank[OF a(2,4) True] pd_tree_root_rank[OF t True p(2)] by auto
  let ?f = "\<lambda>b. b\<lparr>immediatelyPostDominated := map_erase (immediatelyPostDominated b) (startingAddress (h ! p))\<rparr>"
  let ?h2 = "upd this ?f h1"
  note h2 = pd_tree_upd_immediate[OF a(2), of ?f this, simplified]
  have l2: "a < length ?h2" "p < length ?h2" using pd_treeD(10)[OF h2(1)] a(4) True by simp_all
  obtain h3 where h3: "deleteDownPostDominanceInfo n c (postDominated (?h2 ! p)) (startingAddress (?h2 ! p)) (startingAddress (?h2 ! a)) ?h2 = Inr h3"
      "pd_tree ret S rk h3" "same_shape ?h2 h3"
    using deleteDown_ok[OF h2(1) c(2), of n] pd_tree_bound[OF t c(2)] n by blast
  note h4 = pd_tree_new_parent[OF h3(2) True p(2) a(4) rk]
  let ?g = "addImmediatePostDominator (startingAddress (?h2 ! p)) p"
  note h5 = pd_tree_upd_immediate[OF h4(1), of ?g a, simplified]
  have "addPredecessorAsPostDominated n this p h = Inr (upd a ?g (upd p (setPostDominator a) h3))"
    using l c a(1) l2 h3(1) by (simp add: addPredecessorAsPostDominated_def Let_def)
  moreover have "same_shape h (upd a ?g (upd p (setPostDominator a) h3))"
    using same_shape_trans[OF same_shape_trans[OF same_shape_trans[OF a(3) h2(2)] h3(3)] same_shape_trans[OF h4(2) h5(2)]] .
  ultimately show ?thesis using h5(1) True by (auto simp: insert_absorb)
next
  case False
  have l: "p < length h" "this < length h" using P p(1) pd_treeD(10)[OF t cur] by (auto simp: preds_ok_def)
  have u: "isPostDominated (h ! p) = 0" using pd_treeD(7)[OF t l(1)] False by (simp add: parent_ok_def)
  have inj: "inj_on (\<lambda>b. startingAddress (h ! b)) P" "ret \<in> P" "startingAddress (h ! ret) = 2" using P by (auto simp: preds_ok_def)
  have i: "\<forall>b \<in> S. startingAddress (h ! b) \<noteq> startingAddress (h ! p)"
    using inj_onD[OF inj(1)] S p(1) False by (metis subsetD)
  have s2: "startingAddress (h ! p) \<noteq> 2" using inj_onD[OF inj(1), of p ret] inj(2,3) p by auto
  let ?rk = "rk(p := card S)" and ?S = "insert p S" and ?h1 = "upd p (setPostDominator this) h"
  note h1 = pd_tree_insert[OF t False l(1) s2 cur i]
  let ?g = "addImmediatePostDominator (startingAddress (h ! p)) p"
  note h2 = pd_tree_upd_immediate[OF h1(1), of ?g this, simplified]
  have r: "?rk this < ?rk p" "?rk this < n"
    using pd_treeD(3)[OF t cur] pd_tree_bound[OF t cur] False cur n by auto
  obtain h3 where h3: "passDownPostDominanceInfo n this p (upd this ?g ?h1) = Inr h3" "pd_tree ret ?S ?rk h3"
      "same_shape (upd this ?g ?h1) h3"
    using passDown_ok[OF h2(1) _ _ r(1), of n] cur r(2) by blast
  have "addPredecessorAsPostDominated n this p h = Inr h3"
    using l u h3(1) by (simp add: addPredecessorAsPostDominated_def)
  moreover have "same_shape h h3" using same_shape_trans[OF same_shape_trans[OF h1(2) h2(2)] h3(3)] .
  ultimately show ?thesis using h3(2) by blast
qed

section \<open>The queue\<close>

lemma visit_predecessors_ok:
  assumes "pd_tree ret S rk h" "preds_ok ret P h" "S \<subseteq> P" "cur \<in> S" "set ps \<subseteq> P - {ret}" "n = length h"
  shows "\<exists>rk' fresh h'. rfold (visit_predecessor n cur) ps (queue, h) = Inr (queue @ fresh, h') \<and>
    pd_tree ret (S \<union> set ps) rk' h' \<and> same_shape h h' \<and> set fresh = set ps - S \<and> distinct fresh"
  using assms
proof (induction ps arbitrary: S rk h queue)
  case (Cons p ps)
  have p: "p \<in> P" "p \<noteq> ret" using Cons.prems(5) by auto
  have l: "p < length h" using p(1) Cons.prems(2) by (auto simp: preds_ok_def)
  obtain rk1 h1 where h1: "addPredecessorAsPostDominated n cur p h = Inr h1" "pd_tree ret (insert p S) rk1 h1" "same_shape h h1"
    using addPredecessor_ok[OF Cons.prems(1-4) p Cons.prems(6)] by blast
  have q: "PostDominator (h ! p) = None \<longleftrightarrow> p \<notin> S"
    using pd_treeD(7)[OF Cons.prems(1) l] p(2) by (auto simp: parent_ok_def split: if_splits)
  have n: "n = length h1" using Cons.prems(6) same_shapeD(1)[OF h1(3)] by simp
  let ?q = "if p \<notin> S then queue @ [p] else queue"
  have "insert p S \<subseteq> P" "cur \<in> insert p S" "set ps \<subseteq> P - {ret}" using Cons.prems(3-5) p(1) by auto
  from Cons.IH[OF h1(2) preds_ok_same[OF Cons.prems(2) h1(3)] this n, of ?q] obtain rk2 fresh h2 where
    h2: "rfold (visit_predecessor n cur) ps (?q, h1) = Inr (?q @ fresh, h2)" "pd_tree ret (insert p S \<union> set ps) rk2 h2"
      "same_shape h1 h2" "set fresh = set ps - insert p S" "distinct fresh" by blast
  have "visit_predecessor n cur p (queue, h) = Inr (?q, h1)"
    using l h1(1) q by (simp add: visit_predecessor_def Let_def)
  then have "rfold (visit_predecessor n cur) (p # ps) (queue, h) = Inr (queue @ (if p \<notin> S then p # fresh else fresh), h2)"
    using h2(1) by simp
  moreover have "set (if p \<notin> S then p # fresh else fresh) = set (p # ps) - S" "distinct (if p \<notin> S then p # fresh else fresh)"
    using h2(4,5) by auto
  moreover have "same_shape h h2" using h1(3) h2(3) by (rule same_shape_trans)
  ultimately show ?case using h2(2) by (intro exI[of _ rk2] exI[of _ "if p \<notin> S then p # fresh else fresh"] exI[of _ h2]) simp
qed auto

lemma buildPostDominanceTree_ok:
  assumes "pd_tree ret S rk h" "preds_ok ret P h" "S \<subseteq> P" "cur \<in> S" "set queue \<subseteq> S" "n = length h"
    and "length queue + (length h - card S) < k"
    and "\<forall>b \<in> S - insert cur (set queue). set (predecessors (h ! b)) \<subseteq> S"
  shows "\<exists>S' rk' h'. buildPostDominanceTree ptr n k cur queue h = Inr h' \<and> pd_tree ret S' rk' h' \<and> same_shape h h' \<and>
    S \<subseteq> S' \<and> (\<forall>b \<in> S'. set (predecessors (h ! b)) \<subseteq> S')"
  using assms
proof (induction k arbitrary: S rk h cur queue)
  case (Suc k)
  let ?ps = "sort_key ptr (predecessors (h ! cur))"
  have l: "cur < length h" using pd_treeD(10)[OF Suc.prems(1,4)] .
  have "set ?ps \<subseteq> P - {ret}" using Suc.prems(2) l by (auto simp: preds_ok_def)
  from visit_predecessors_ok[OF Suc.prems(1-4) this Suc.prems(6), of queue] obtain rk1 fresh h1 where
    v: "rfold (visit_predecessor n cur) ?ps (queue, h) = Inr (queue @ fresh, h1)"
      "pd_tree ret (S \<union> set ?ps) rk1 h1" "same_shape h h1" "set fresh = set ?ps - S" "distinct fresh" by blast
  let ?S = "S \<union> set ?ps"
  have pr: "predecessors (h1 ! b) = predecessors (h ! b)" if "b \<in> ?S" for b
    using pd_treeD(10)[OF v(2) that] same_shapeD[OF v(3)] by simp
  have closed: "set (predecessors (h1 ! b)) \<subseteq> ?S" if "b \<in> ?S - set (queue @ fresh)" for b
  proof (cases "b = cur")
    case True
    then show ?thesis using pr[of cur] Suc.prems(4) by auto
  next
    case False
    then have "b \<in> S - insert cur (set queue)" using that v(4) by auto
    then show ?thesis using Suc.prems(8) pr[of b] by auto
  qed
  show ?case
  proof (cases "queue @ fresh")
    case Nil
    then have "buildPostDominanceTree ptr n (Suc k) cur queue h = Inr h1" using l v(1) by simp
    moreover have "\<forall>b \<in> ?S. set (predecessors (h ! b)) \<subseteq> ?S" using closed pr Nil by auto
    ultimately show ?thesis using v(2,3) by blast
  next
    case (Cons nxt rest)
    have run: "buildPostDominanceTree ptr n (Suc k) cur queue h = buildPostDominanceTree ptr n k nxt rest h1"
      using l v(1) Cons by simp
    have fin: "finite S" using pd_treeD(9)[OF Suc.prems(1)] .
    have sub: "set (queue @ fresh) \<subseteq> ?S" using Suc.prems(5) v(4) by auto
    have SP: "?S \<subseteq> P" using Suc.prems(2,3) l by (auto simp: preds_ok_def)
    have "?S = S \<union> set fresh" "S \<inter> set fresh = {}" using v(4) by auto
    then have card: "card ?S = card S + length fresh" using fin v(5) by (simp add: card_Un_disjoint distinct_card)
    have "card ?S \<le> length h1" using pd_treeD(2)[OF v(2)] card_mono[of "{..<length h1}" ?S] by simp
    then have "length rest + (length h1 - card ?S) < k"
      using Suc.prems(7) same_shapeD(1)[OF v(3)] card arg_cong[OF Cons, of length] by simp
    moreover have "\<forall>b \<in> ?S - insert nxt (set rest). set (predecessors (h1 ! b)) \<subseteq> ?S"
      using closed Cons by (metis list.simps(15))
    moreover have "nxt \<in> ?S" "set rest \<subseteq> ?S" using sub Cons by auto
    moreover have "n = length h1" using Suc.prems(6) same_shapeD(1)[OF v(3)] by simp
    ultimately obtain S' rk' h' where r: "buildPostDominanceTree ptr n k nxt rest h1 = Inr h'" "pd_tree ret S' rk' h'"
        "same_shape h1 h'" "?S \<subseteq> S'" "\<forall>b \<in> S'. set (predecessors (h1 ! b)) \<subseteq> S'"
      using Suc.IH[OF v(2) preds_ok_same[OF Suc.prems(2) v(3)] SP] by blast
    have "\<forall>b \<in> S'. set (predecessors (h ! b)) \<subseteq> S'"
      using r(5) pd_treeD(10)[OF r(2)] same_shapeD[OF v(3)] same_shapeD(1)[OF r(3)] by auto
    moreover have "same_shape h h'" using v(3) r(3) by (rule same_shape_trans)
    ultimately show ?thesis unfolding run using r by auto
  qed
qed simp

section \<open>The tree\<close>

definition post_dominator_edges :: "heap \<Rightarrow> (block \<times> block) set" where
  "post_dominator_edges h = {(b, a). b < length h \<and> PostDominator (h ! b) = Some a}"

definition flow_edges :: "heap \<Rightarrow> (block \<times> block) set" where
  "flow_edges h = {(p, b). b < length h \<and> p \<in> set (predecessors (h ! b))}"

lemma pd_tree_path:
  assumes t: "pd_tree ret S rk h" and b: "b \<in> S"
  shows "(b, ret) \<in> (post_dominator_edges h)\<^sup>*"
  using b
proof (induction "rk b" arbitrary: b rule: less_induct)
  case less
  show ?case
  proof (cases "b = ret")
    case False
    have l: "b < length h" using pd_treeD(10)[OF t less.prems] .
    obtain a where a: "a \<in> S" "PostDominator (h ! b) = Some a" "rk a < rk b"
      using pd_treeD(7)[OF t l] False less.prems by (auto simp: parent_ok_def)
    have "(b, a) \<in> post_dominator_edges h" using a(2) l by (simp add: post_dominator_edges_def)
    with less.hyps[OF a(3,1)] show ?thesis by (rule converse_rtrancl_into_rtrancl[rotated])
  qed simp
qed

lemma pd_tree_acyclic:
  assumes "pd_tree ret S rk h"
  shows "acyclic (post_dominator_edges h)"
proof -
  have "post_dominator_edges h \<subseteq> (measure rk)\<inverse>"
    using pd_treeD(7)[OF assms] by (fastforce simp: post_dominator_edges_def parent_ok_def split: if_splits)
  moreover have "acyclic ((measure rk)\<inverse>)" using wf_acyclic[OF wf_measure] by (simp only: acyclic_converse)
  ultimately show ?thesis by (rule acyclic_subset[rotated])
qed

definition fresh_blocks :: "heap \<Rightarrow> bool" where
  "fresh_blocks h \<longleftrightarrow> (\<forall>b < length h. PostDominator (h ! b) = None \<and> isPostDominated (h ! b) = 0 \<and> postDominated (h ! b) = [])"

text \<open>A post-dominator lies on a path to the return block: the edges of the tree are paths of the
  flow, because a new parent is a successor of the block or an ancestor of a successor.\<close>

type_synonym edges = "heap \<Rightarrow> (block \<times> block) set"

definition keeps :: "edges \<Rightarrow> edges \<Rightarrow> heap \<Rightarrow> heap \<Rightarrow> bool" where
  "keeps parents flow h h' \<longleftrightarrow> parents h' = parents h \<and> flow h' = flow h"

definition along :: "edges \<Rightarrow> edges \<Rightarrow> heap \<Rightarrow> bool" where
  "along parents flow h \<longleftrightarrow> parents h \<subseteq> (flow h)\<^sup>+"

text \<open>What a tree of parents needs of the assignment of a parent. The post-dominators and the
  dominators are the two trees of the code.\<close>

locale parent_tree =
  fixes parents flow :: edges and set_parent :: "block \<Rightarrow> basic_block \<Rightarrow> basic_block"
  assumes flow_set: "flow (upd p (set_parent a) h) = flow h"
    and parents_set: "parents (upd p (set_parent a) h) \<subseteq> insert (p, a) (parents h)"
begin

lemma keeps_refl [simp]: "keeps parents flow h h"
  by (simp add: keeps_def)

lemma keeps_trans: "keeps parents flow h h1 \<Longrightarrow> keeps parents flow h1 h2 \<Longrightarrow> keeps parents flow h h2"
  by (simp add: keeps_def)

lemma along_keeps: "keeps parents flow h h' \<Longrightarrow> along parents flow h' = along parents flow h"
  by (simp add: keeps_def along_def)

lemma along_star: "along parents flow h \<Longrightarrow> (parents h)\<^sup>* \<subseteq> (flow h)\<^sup>*"
  unfolding along_def by (metis rtrancl_mono trancl_rtrancl_absorb rtrancl_trancl_absorb rtrancl_subset_rtrancl trancl_into_rtrancl subsetI subset_trans)

text \<open>The first parent of a node is a neighbour in the flow; a later one is an ancestor of a neighbour.\<close>

lemma first_parent:
  assumes o: "along parents flow h" and e: "(p, this) \<in> flow h" and k: "keeps parents flow (upd p (set_parent this) h) h'"
  shows "along parents flow h' \<and> flow h' = flow h"
proof -
  have "along parents flow (upd p (set_parent this) h)"
    using o e parents_set[of p this h] unfolding along_def flow_set by blast
  then show ?thesis using along_keeps[OF k] k by (simp add: keeps_def flow_set)
qed

lemma later_parent:
  assumes o: "along parents flow h" and e: "(p, this) \<in> flow h" and a: "(this, a) \<in> (parents h)\<^sup>*"
    and k: "keeps parents flow h h3" and k': "keeps parents flow (upd p (set_parent a) h3) h'"
  shows "along parents flow h' \<and> flow h' = flow h"
proof -
  have f: "flow h3 = flow h" using k by (simp add: keeps_def)
  have "(p, a) \<in> (flow h3)\<^sup>+"
    unfolding f using e subsetD[OF along_star[OF o] a] by (rule rtrancl_into_trancl2)
  moreover have "along parents flow h3" using along_keeps[OF k] o by simp
  ultimately have "along parents flow (upd p (set_parent a) h3)"
    using parents_set[of p a h3] unfolding along_def flow_set by blast
  then show ?thesis using along_keeps[OF k'] k' f by (simp add: keeps_def flow_set)
qed

end

interpretation pdt: parent_tree post_dominator_edges flow_edges setPostDominator
  by unfold_locales (auto simp: post_dominator_edges_def flow_edges_def nth_upd setPostDominator_def split: if_splits)

abbreviation keeps_edges :: "heap \<Rightarrow> heap \<Rightarrow> bool" where
  "keeps_edges \<equiv> keeps post_dominator_edges flow_edges"

abbreviation on_paths :: "heap \<Rightarrow> bool" where
  "on_paths \<equiv> along post_dominator_edges flow_edges"

lemmas keeps_edges_trans = pdt.keeps_trans

lemma keeps_edges_upd:
  "(\<And>b. PostDominator (f b) = PostDominator b) \<Longrightarrow> (\<And>b. predecessors (f b) = predecessors b) \<Longrightarrow> keeps_edges h (upd p f h)"
  by (auto simp: keeps_def post_dominator_edges_def flow_edges_def nth_upd split: if_splits)

lemma probe_edges [simp]: "PostDominator (probe k b) = PostDominator b" "predecessors (probe k b) = predecessors b"
  by (simp_all add: probe_def split: option.split)

lemma getCommonPostDominator_edges:
  "getCommonPostDominator n this p h = Inr (a, h1) \<Longrightarrow> (this, a) \<in> (post_dominator_edges h)\<^sup>* \<and> keeps_edges h h1"
proof (induction n this p h rule: getCommonPostDominator.induct)
  case (2 n this p h)
  then obtain s b where sb: "deref h p = Inr s" "deref h this = Inr b" by (auto simp: rbind_eq_Inr)
  let ?h1 = "upd this (probe (startingAddress s)) h"
  have k: "keeps_edges h ?h1" by (simp add: keeps_edges_upd)
  show ?case
  proof (cases "post_dominates b (startingAddress s) \<or> startingAddress b = 2")
    case True
    then show ?thesis using 2(2) sb k by (auto simp: Let_def split: if_splits)
  next
    case False
    then obtain q where q: "PostDominator b = Some q" "getCommonPostDominator n q p ?h1 = Inr (a, h1)"
      using 2(2) sb by (auto simp: Let_def split: option.splits)
    have "(this, q) \<in> post_dominator_edges h" using sb(2) q(1) by (auto simp: deref_def post_dominator_edges_def split: if_splits)
    moreover have "(q, a) \<in> (post_dominator_edges ?h1)\<^sup>*" "keeps_edges ?h1 h1"
      using 2(1)[OF sb refl _ _ q] False by auto
    ultimately show ?thesis using k by (auto simp: keeps_def intro: converse_rtrancl_into_rtrancl)
  qed
qed simp

lemma passDown_edges: "passDownPostDominanceInfo n this c h = Inr h' \<Longrightarrow> keeps_edges h h'"
proof (induction n this c h rule: passDownPostDominanceInfo.induct)
  case (2 n this p h)
  then obtain c b where cb: "deref h p = Inr c" "deref h this = Inr b" by (auto simp: rbind_eq_Inr)
  let ?h1 = "upd this (\<lambda>b. b\<lparr>postDominated := map_put (postDominated b) (startingAddress c) (Some p)\<rparr>) h"
  have k: "keeps_edges h ?h1" by (simp add: keeps_edges_upd)
  show ?case using 2(2) 2(1)[OF cb refl] cb k
    by (auto simp: Let_def split: if_splits option.splits intro: keeps_edges_trans)
qed simp

lemma deleteDown_edges: "deleteDownPostDominanceInfo n this del parent lst h = Inr h' \<Longrightarrow> keeps_edges h h'"
proof (induction n this del parent lst h rule: deleteDownPostDominanceInfo.induct)
  case (2 n this del parent lst h)
  then obtain b where b: "deref h this = Inr b" by (auto simp: rbind_eq_Inr)
  have k: "keeps_edges h (upd this (erase_keys (parent # map fst del)) h)" by (simp add: keeps_edges_upd erase_keys_def)
  show ?case using 2(2) 2(1)[OF b _ refl] b k
    by (auto simp: Let_def split: if_splits option.splits intro: keeps_edges_trans)
qed simp

lemma addPredecessor_edges:
  assumes run: "addPredecessorAsPostDominated n this p h = Inr h'" and e: "(p, this) \<in> flow_edges h" and o: "on_paths h"
  shows "on_paths h' \<and> flow_edges h' = flow_edges h"
proof (cases "isPostDominated (h ! p) = 0")
  case True
  let ?h2 = "upd this (addImmediatePostDominator (startingAddress (h ! p)) p) (upd p (setPostDominator this) h)"
  have "passDownPostDominanceInfo n this p ?h2 = Inr h'"
    using run True by (auto simp: addPredecessorAsPostDominated_def rbind_eq_Inr deref_def split: if_splits)
  from passDown_edges[OF this] have "keeps_edges (upd p (setPostDominator this) h) h'"
    by (rule keeps_edges_trans[rotated]) (simp add: keeps_edges_upd addImmediatePostDominator_def)
  then show ?thesis by (rule pdt.first_parent[OF o e])
next
  case False
  obtain c a h1 del st lst k h3 where s: "getCommonPostDominator n this p h = Inr (a, h1)"
      "deleteDownPostDominanceInfo n c del st lst
        (upd this (\<lambda>b. b\<lparr>immediatelyPostDominated := map_erase (immediatelyPostDominated b) (startingAddress (h ! p))\<rparr>) h1) = Inr h3"
      "h' = upd a (addImmediatePostDominator k p) (upd p (setPostDominator a) h3)"
    using run False by (auto simp: addPredecessorAsPostDominated_def rbind_eq_Inr deref_def Let_def split: if_splits)
  note g = getCommonPostDominator_edges[OF s(1)]
  have "keeps_edges h1 h3"
    using deleteDown_edges[OF s(2)] by (rule keeps_edges_trans[rotated]) (simp add: keeps_edges_upd)
  with g have k: "keeps_edges h h3" using keeps_edges_trans by blast
  have "keeps_edges (upd p (setPostDominator a) h3) h'"
    unfolding s(3) by (simp add: keeps_edges_upd addImmediatePostDominator_def)
  with k show ?thesis by (rule pdt.later_parent[OF o e conjunct1[OF g]])
qed

lemma visit_predecessors_edges:
  "rfold (visit_predecessor n cur) ps (queue, h) = Inr (queue', h') \<Longrightarrow> \<forall>p \<in> set ps. (p, cur) \<in> flow_edges h \<Longrightarrow> on_paths h \<Longrightarrow>
   on_paths h' \<and> flow_edges h' = flow_edges h"
proof (induction ps arbitrary: queue h)
  case (Cons p ps)
  then obtain q1 h1 where "visit_predecessor n cur p (queue, h) = Inr (q1, h1)"
      and r: "rfold (visit_predecessor n cur) ps (q1, h1) = Inr (queue', h')"
    by (auto simp: rbind_eq_Inr)
  then have "addPredecessorAsPostDominated n cur p h = Inr h1" by (auto simp: visit_predecessor_def Let_def rbind_eq_Inr)
  from addPredecessor_edges[OF this] have "on_paths h1" "flow_edges h1 = flow_edges h" using Cons.prems by auto
  with Cons.IH[OF r] Cons.prems(2) show ?case by auto
qed simp

lemma buildPostDominanceTree_edges:
  "buildPostDominanceTree ptr n k cur queue h = Inr h' \<Longrightarrow> on_paths h \<Longrightarrow> on_paths h' \<and> flow_edges h' = flow_edges h"
proof (induction k arbitrary: cur queue h)
  case (Suc k)
  then obtain b q1 h1 where b: "deref h cur = Inr b" "rfold (visit_predecessor n cur) (sort_key ptr (predecessors b)) (queue, h) = Inr (q1, h1)"
      and r: "(case q1 of [] \<Rightarrow> Inr h1 | nxt # rest \<Rightarrow> buildPostDominanceTree ptr n k nxt rest h1) = Inr h'"
    by (auto simp: rbind_eq_Inr)
  have "\<forall>p \<in> set (sort_key ptr (predecessors b)). (p, cur) \<in> flow_edges h"
    using b(1) by (auto simp: flow_edges_def deref_def split: if_splits)
  from visit_predecessors_edges[OF b(2) this Suc.prems(2)] show ?case
    using r Suc.IH by (cases q1) auto
qed simp

lemma post_dominance_tree:
  assumes P: "preds_ok ret P h" and f: "fresh_blocks h"
  shows "\<exists>h'. buildPostDominanceTree ptr (length h) (length h) ret [] h = Inr h' \<and> same_shape h h' \<and>
    acyclic (post_dominator_edges h') \<and> post_dominator_edges h' \<subseteq> (flow_edges h)\<^sup>+ \<and>
    (\<forall>b. (b, ret) \<in> (flow_edges h)\<^sup>* \<longleftrightarrow> (b, ret) \<in> (post_dominator_edges h')\<^sup>*) \<and>
    (\<forall>b < length h. PostDominator (h' ! b) \<noteq> None \<longleftrightarrow> b \<noteq> ret \<and> (b, ret) \<in> (flow_edges h)\<^sup>*)"
proof -
  have r: "ret < length h" "ret \<in> P" "startingAddress (h ! ret) = 2" using P by (auto simp: preds_ok_def)
  have t: "pd_tree ret {ret} (\<lambda>b. 0) h"
    using r f by (auto simp: pd_tree_def parent_ok_def entries_ok_def fresh_blocks_def stdmap_inv_def)
  obtain S rk h' where h': "buildPostDominanceTree ptr (length h) (length h) ret [] h = Inr h'" "pd_tree ret S rk h'"
      "same_shape h h'" "ret \<in> S" "\<forall>b \<in> S. set (predecessors (h ! b)) \<subseteq> S"
  proof -
    have "length h - Suc 0 < length h" using r(1) by linarith
    then show thesis
      using buildPostDominanceTree_ok[OF t P, of ret "[]" "length h" "length h" ptr] r that by auto
  qed
  have "on_paths h" using f by (auto simp: along_def post_dominator_edges_def fresh_blocks_def)
  from buildPostDominanceTree_edges[OF h'(1) this] have o: "on_paths h'" "flow_edges h' = flow_edges h" by blast+
  have "b \<in> S" if "(b, ret) \<in> (flow_edges h)\<^sup>*" for b
    using that
  proof (induction rule: converse_rtrancl_induct)
    case (step x y)
    then show ?case using h'(5) by (auto simp: flow_edges_def)
  qed (rule h'(4))
  moreover have up: "(b, ret) \<in> (flow_edges h)\<^sup>*" if "(b, ret) \<in> (post_dominator_edges h')\<^sup>*" for b
    using subsetD[OF pdt.along_star[OF o(1)] that] unfolding o(2) .
  ultimately have S: "b \<in> S \<longleftrightarrow> (b, ret) \<in> (flow_edges h)\<^sup>*" "b \<in> S \<longleftrightarrow> (b, ret) \<in> (post_dominator_edges h')\<^sup>*" for b
    using pd_tree_path[OF h'(2)] by blast+
  have "PostDominator (h' ! b) \<noteq> None \<longleftrightarrow> b \<noteq> ret \<and> b \<in> S" if "b < length h" for b
    using pd_treeD(7)[OF h'(2), of b] that same_shapeD(1)[OF h'(3)] by (auto simp: parent_ok_def split: if_splits)
  then show ?thesis
    using S h'(1,3) o pd_tree_acyclic[OF h'(2)] unfolding along_def by (intro exI[of _ h'] conjI) simp_all
qed

end
