(* ===== verification/Dominance.thy ===== *)
theory Dominance
  imports Post_Dominance
begin

text \<open>
  The dominators of \<open>BasicBlock.H\<close> and \<open>buildDominanceTree\<close> of \<open>RoutineGraph.H\<close>.

  Nothing in the tool calls them (a comment says that they are kept from the time when the two
  notions were confused). They mirror the functions for post-dominators along the successors,
  with the flag \<open>isEntry\<close> in place of the address of the return block. The lemmas show that a
  dominator reaches its block along the flow and that the post-dominators are left alone.
\<close>

section \<open>The dominators of a block\<close>

definition setDominator :: "block \<Rightarrow> basic_block \<Rightarrow> basic_block" where
  "setDominator p b = b\<lparr>Dominator := Some p\<rparr>"

definition addImmediateDominator :: "ADDRINT \<Rightarrow> block \<Rightarrow> basic_block \<Rightarrow> basic_block" where
  "addImmediateDominator a p b = b\<lparr>immediatelyDominated := map_put (immediatelyDominated b) a (Some p)\<rparr>"

definition dominates :: "basic_block \<Rightarrow> ADDRINT \<Rightarrow> bool" where
  "dominates b key \<longleftrightarrow> (case map_find (dominated b) key of Some (Some q) \<Rightarrow> True | _ \<Rightarrow> False)"

text \<open>\<open>dominated[key]\<close> inserts a missing key with the value \<open>NULL\<close>.\<close>

definition probe_dominated :: "ADDRINT \<Rightarrow> basic_block \<Rightarrow> basic_block" where
  "probe_dominated key b = (case map_find (dominated b) key of
     None \<Rightarrow> b\<lparr>dominated := map_put (dominated b) key None\<rparr>
   | Some v \<Rightarrow> b)"

fun getCommonDominator :: "nat \<Rightarrow> block \<Rightarrow> block \<Rightarrow> heap \<Rightarrow> (block \<times> heap) result" where
  "getCommonDominator 0 this sibling h = Inl Out_of_fuel"
| "getCommonDominator (Suc n) this sibling h =
     rbind (deref h sibling) (\<lambda>s.
     rbind (deref h this) (\<lambda>b.
     let h1 = upd this (probe_dominated (startingAddress s)) h in
     if dominates b (startingAddress s) then Inr (this, h1)
     else if isEntry b = 1 then Inr (this, h1)
     else (case Dominator b of
             None \<Rightarrow> Inl Undefined
           | Some q \<Rightarrow> getCommonDominator n q sibling h1)))"

fun passUpDominanceInfo :: "nat \<Rightarrow> block \<Rightarrow> block \<Rightarrow> heap \<Rightarrow> heap result" where
  "passUpDominanceInfo 0 this newChild h = Inl Out_of_fuel"
| "passUpDominanceInfo (Suc n) this newChild h =
     rbind (deref h newChild) (\<lambda>c.
     rbind (deref h this) (\<lambda>b.
     let h1 = upd this (\<lambda>b. b\<lparr>dominated := map_put (dominated b) (startingAddress c) (Some newChild)\<rparr>) h in
     if isEntry b = 0
     then (case Dominator b of
             None \<Rightarrow> Inl Undefined
           | Some q \<Rightarrow> passUpDominanceInfo n q newChild h1)
     else Inr h1))"

definition erase_dominated :: "ADDRINT list \<Rightarrow> basic_block \<Rightarrow> basic_block" where
  "erase_dominated ks b = b\<lparr>dominated := fold (\<lambda>k m. map_erase m k) ks (dominated b)\<rparr>"

text \<open>The walk stops at the first block whose address is not below that of the common dominator.\<close>

fun deleteUpDominanceInfo ::
  "nat \<Rightarrow> block \<Rightarrow> (ADDRINT, block option) stdmap \<Rightarrow> ADDRINT \<Rightarrow> ADDRINT \<Rightarrow> heap \<Rightarrow> heap result" where
  "deleteUpDominanceInfo 0 this deletableBlocks parent lastNodesStarting h = Inl Out_of_fuel"
| "deleteUpDominanceInfo (Suc n) this deletableBlocks parent lastNodesStarting h =
     rbind (deref h this) (\<lambda>b.
     if startingAddress b < lastNodesStarting then
       let h1 = upd this (erase_dominated (parent # map fst deletableBlocks)) h in
       (case Dominator b of
          None \<Rightarrow> Inr h1
        | Some q \<Rightarrow> deleteUpDominanceInfo n q deletableBlocks parent lastNodesStarting h1)
     else Inr h)"

definition addSuccessorAsDominated :: "nat \<Rightarrow> block \<Rightarrow> block \<Rightarrow> heap \<Rightarrow> heap result" where
  "addSuccessorAsDominated n this successor h =
     rbind (deref h successor) (\<lambda>s.
     case Dominator s of
       None \<Rightarrow>
         passUpDominanceInfo n this successor
           (upd this (addImmediateDominator (startingAddress s) successor)
             (upd successor (setDominator this) h))
     | Some competingSibling \<Rightarrow>
         rbind (getCommonDominator n this successor h) (\<lambda>(newDominator, h1).
         let h2 = upd this (\<lambda>b. b\<lparr>immediatelyDominated := map_erase (immediatelyDominated b) (startingAddress s)\<rparr>) h1 in
         rbind (deref h2 newDominator) (\<lambda>d.
         rbind (deref h2 successor) (\<lambda>s2.
         rbind (deleteUpDominanceInfo n competingSibling (dominated s2) (startingAddress s2) (startingAddress d) h2) (\<lambda>h3.
         Inr (upd newDominator (addImmediateDominator (startingAddress s2) successor)
                (upd successor (setDominator newDominator) h3)))))))"

section \<open>The tree\<close>

definition visit_successor :: "nat \<Rightarrow> block \<Rightarrow> block \<Rightarrow> block list \<times> heap \<Rightarrow> (block list \<times> heap) result" where
  "visit_successor n cur p = (\<lambda>(queue, h).
     rbind (deref h p) (\<lambda>b.
     let queue' = (if Dominator b = None then queue @ [p] else queue) in
     rbind (addSuccessorAsDominated n cur p h) (\<lambda>h'. Inr (queue', h'))))"

fun buildDominanceTree :: "(block \<Rightarrow> ADDRINT) \<Rightarrow> nat \<Rightarrow> nat \<Rightarrow> block \<Rightarrow> block list \<Rightarrow> heap \<Rightarrow> heap result" where
  "buildDominanceTree ptr n 0 cur queue h = Inl Out_of_fuel"
| "buildDominanceTree ptr n (Suc k) cur queue h =
     rbind (deref h cur) (\<lambda>b.
     rbind (rfold (visit_successor n cur) (sort_key ptr (successors b)) (queue, h)) (\<lambda>(queue', h').
     case queue' of
       [] \<Rightarrow> Inr h'
     | nxt # rest \<Rightarrow> buildDominanceTree ptr n k nxt rest h'))"

section \<open>A dominator reaches its block\<close>

definition dominator_edges :: "heap \<Rightarrow> (block \<times> block) set" where
  "dominator_edges h = {(b, q). b < length h \<and> Dominator (h ! b) = Some q}"

text \<open>The flow, backwards: from a successor to the block.\<close>

definition back_edges :: "heap \<Rightarrow> (block \<times> block) set" where
  "back_edges h = {(s, b). b < length h \<and> s \<in> set (successors (h ! b))}"

interpretation domt: parent_tree dominator_edges back_edges setDominator
  by unfold_locales (auto simp: dominator_edges_def back_edges_def nth_upd setDominator_def split: if_splits)

text \<open>What the functions for dominators may change of a block.\<close>

abbreviation keeps_dominators :: "heap \<Rightarrow> heap \<Rightarrow> bool" where
  "keeps_dominators \<equiv> keeps dominator_edges back_edges"

lemma keeps_dominators_upd:
  "(\<And>b. Dominator (f b) = Dominator b) \<Longrightarrow> (\<And>b. successors (f b) = successors b) \<Longrightarrow> keeps_dominators h (upd p f h)"
  by (auto simp: keeps_def dominator_edges_def back_edges_def nth_upd split: if_splits)

lemma probe_dominated_sel [simp]:
  "Dominator (probe_dominated k b) = Dominator b" "successors (probe_dominated k b) = successors b"
  "PostDominator (probe_dominated k b) = PostDominator b" "predecessors (probe_dominated k b) = predecessors b"
  by (simp_all add: probe_dominated_def split: option.split)

lemma erase_dominated_sel [simp]:
  "Dominator (erase_dominated ks b) = Dominator b" "successors (erase_dominated ks b) = successors b"
  "PostDominator (erase_dominated ks b) = PostDominator b" "predecessors (erase_dominated ks b) = predecessors b"
  by (simp_all add: erase_dominated_def)

lemma dominator_setters [simp]:
  "successors (setDominator p b) = successors b" "PostDominator (setDominator p b) = PostDominator b"
  "predecessors (setDominator p b) = predecessors b" "Dominator (addImmediateDominator a p b) = Dominator b"
  "successors (addImmediateDominator a p b) = successors b" "PostDominator (addImmediateDominator a p b) = PostDominator b"
  "predecessors (addImmediateDominator a p b) = predecessors b"
  by (simp_all add: setDominator_def addImmediateDominator_def)

text \<open>All of them leave the post-dominators and the flow to them alone.\<close>

lemma getCommonDominator_edges:
  "getCommonDominator n this p h = Inr (a, h1) \<Longrightarrow>
     (this, a) \<in> (dominator_edges h)\<^sup>* \<and> keeps_dominators h h1 \<and> keeps_edges h h1"
proof (induction n this p h rule: getCommonDominator.induct)
  case (2 n this p h)
  then obtain s b where sb: "deref h p = Inr s" "deref h this = Inr b" by (auto simp: rbind_eq_Inr)
  let ?h1 = "upd this (probe_dominated (startingAddress s)) h"
  have k: "keeps_dominators h ?h1" "keeps_edges h ?h1" by (simp_all add: keeps_dominators_upd keeps_edges_upd)
  show ?case
  proof (cases "dominates b (startingAddress s) \<or> isEntry b = 1")
    case True
    then show ?thesis using 2(2) sb k by (auto simp: Let_def split: if_splits)
  next
    case False
    then obtain q where q: "Dominator b = Some q" "getCommonDominator n q p ?h1 = Inr (a, h1)"
      using 2(2) sb by (auto simp: Let_def split: option.splits)
    have "(this, q) \<in> dominator_edges h" using sb(2) q(1) by (auto simp: deref_def dominator_edges_def split: if_splits)
    moreover have "(q, a) \<in> (dominator_edges ?h1)\<^sup>*" "keeps_dominators ?h1 h1" "keeps_edges ?h1 h1"
      using 2(1)[OF sb refl _ _ q] False by auto
    ultimately show ?thesis using k by (auto simp: keeps_def intro: converse_rtrancl_into_rtrancl)
  qed
qed simp

lemma passUp_edges: "passUpDominanceInfo n this c h = Inr h' \<Longrightarrow> keeps_dominators h h' \<and> keeps_edges h h'"
proof (induction n this c h rule: passUpDominanceInfo.induct)
  case (2 n this p h)
  then obtain c b where cb: "deref h p = Inr c" "deref h this = Inr b" by (auto simp: rbind_eq_Inr)
  let ?h1 = "upd this (\<lambda>b. b\<lparr>dominated := map_put (dominated b) (startingAddress c) (Some p)\<rparr>) h"
  have k: "keeps_dominators h ?h1" "keeps_edges h ?h1" by (simp_all add: keeps_dominators_upd keeps_edges_upd)
  show ?case using 2(2) 2(1)[OF cb refl] cb k
    by (auto simp: Let_def split: if_splits option.splits intro: domt.keeps_trans pdt.keeps_trans)
qed simp

lemma deleteUp_edges:
  "deleteUpDominanceInfo n this del parent lst h = Inr h' \<Longrightarrow> keeps_dominators h h' \<and> keeps_edges h h'"
proof (induction n this del parent lst h rule: deleteUpDominanceInfo.induct)
  case (2 n this del parent lst h)
  then obtain b where b: "deref h this = Inr b" by (auto simp: rbind_eq_Inr)
  have k: "keeps_dominators h (upd this (erase_dominated (parent # map fst del)) h)"
      "keeps_edges h (upd this (erase_dominated (parent # map fst del)) h)"
    by (simp_all add: keeps_dominators_upd keeps_edges_upd)
  show ?case using 2(2) 2(1)[OF b _ refl] b k
    by (auto simp: Let_def split: if_splits option.splits intro: domt.keeps_trans pdt.keeps_trans)
qed simp

lemma addSuccessor_edges:
  assumes run: "addSuccessorAsDominated n this p h = Inr h'" and e: "(p, this) \<in> back_edges h"
    and o: "along dominator_edges back_edges h"
  shows "(along dominator_edges back_edges h' \<and> back_edges h' = back_edges h) \<and> keeps_edges h h'"
proof (cases "Dominator (h ! p)")
  case None
  let ?h1 = "upd p (setDominator this) h"
  let ?h2 = "upd this (addImmediateDominator (startingAddress (h ! p)) p) ?h1"
  have "passUpDominanceInfo n this p ?h2 = Inr h'"
    using run None by (auto simp: addSuccessorAsDominated_def rbind_eq_Inr deref_def split: if_splits)
  note u = passUp_edges[OF this]
  have "keeps_dominators ?h1 h'"
    using conjunct1[OF u] by (rule domt.keeps_trans[rotated]) (simp add: keeps_dominators_upd)
  moreover have "keeps_edges h ?h1" "keeps_edges ?h1 ?h2" by (simp_all add: keeps_edges_upd)
  ultimately show ?thesis using domt.first_parent[OF o e] u pdt.keeps_trans by blast
next
  case (Some c)
  obtain a h1 del st lst k h3 where s: "getCommonDominator n this p h = Inr (a, h1)"
      "deleteUpDominanceInfo n c del st lst
        (upd this (\<lambda>b. b\<lparr>immediatelyDominated := map_erase (immediatelyDominated b) (startingAddress (h ! p))\<rparr>) h1) = Inr h3"
      "h' = upd a (addImmediateDominator k p) (upd p (setDominator a) h3)"
    using run Some by (auto simp: addSuccessorAsDominated_def rbind_eq_Inr deref_def Let_def split: if_splits)
  let ?h2 = "upd this (\<lambda>b. b\<lparr>immediatelyDominated := map_erase (immediatelyDominated b) (startingAddress (h ! p))\<rparr>) h1"
  note g = getCommonDominator_edges[OF s(1)]
  have h2: "keeps_dominators h1 ?h2" "keeps_edges h1 ?h2" by (simp_all add: keeps_dominators_upd keeps_edges_upd)
  have k: "keeps_dominators h h3" "keeps_edges h h3"
    using g h2 deleteUp_edges[OF s(2)] domt.keeps_trans pdt.keeps_trans by blast+
  have k': "keeps_dominators (upd p (setDominator a) h3) h'" by (simp add: s(3) keeps_dominators_upd)
  have "keeps_edges h3 (upd p (setDominator a) h3)" by (simp add: keeps_edges_upd)
  moreover have "keeps_edges (upd p (setDominator a) h3) h'" by (simp add: s(3) keeps_edges_upd)
  ultimately have e': "keeps_edges h3 h'" by (rule pdt.keeps_trans)
  from domt.later_parent[OF o e conjunct1[OF g] k(1) k'] pdt.keeps_trans[OF k(2) e'] show ?thesis by blast
qed

lemma visit_successors_edges:
  "rfold (visit_successor n cur) ps (queue, h) = Inr (queue', h') \<Longrightarrow> \<forall>p \<in> set ps. (p, cur) \<in> back_edges h \<Longrightarrow>
   along dominator_edges back_edges h \<Longrightarrow>
   (along dominator_edges back_edges h' \<and> back_edges h' = back_edges h) \<and> keeps_edges h h'"
proof (induction ps arbitrary: queue h)
  case (Cons p ps)
  then obtain q1 h1 where "visit_successor n cur p (queue, h) = Inr (q1, h1)"
      and r: "rfold (visit_successor n cur) ps (q1, h1) = Inr (queue', h')"
    by (auto simp: rbind_eq_Inr)
  then have "addSuccessorAsDominated n cur p h = Inr h1" by (auto simp: visit_successor_def Let_def rbind_eq_Inr)
  from addSuccessor_edges[OF this] Cons.prems(2,3)
  have 1: "along dominator_edges back_edges h1" "back_edges h1 = back_edges h" "keeps_edges h h1" by auto
  with Cons.IH[OF r] Cons.prems(2) show ?case using pdt.keeps_trans by auto
qed simp

lemma buildDominanceTree_edges:
  "buildDominanceTree ptr n k cur queue h = Inr h' \<Longrightarrow> along dominator_edges back_edges h \<Longrightarrow>
   (along dominator_edges back_edges h' \<and> back_edges h' = back_edges h) \<and> keeps_edges h h'"
proof (induction k arbitrary: cur queue h)
  case (Suc k)
  then obtain b q1 h1 where b: "deref h cur = Inr b" "rfold (visit_successor n cur) (sort_key ptr (successors b)) (queue, h) = Inr (q1, h1)"
      and r: "(case q1 of [] \<Rightarrow> Inr h1 | nxt # rest \<Rightarrow> buildDominanceTree ptr n k nxt rest h1) = Inr h'"
    by (auto simp: rbind_eq_Inr)
  have "\<forall>p \<in> set (sort_key ptr (successors b)). (p, cur) \<in> back_edges h"
    using b(1) by (auto simp: back_edges_def deref_def split: if_splits)
  from visit_successors_edges[OF b(2) this Suc.prems(2)] show ?case
    using r Suc.IH pdt.keeps_trans by (cases q1) (simp, fastforce)
qed simp

text \<open>Every dominator has a path to its block, and the post-dominators are as before.\<close>

theorem buildDominanceTree_reaches:
  assumes "buildDominanceTree ptr n k cur queue h = Inr h'" "\<forall>b < length h. Dominator (h ! b) = None"
    and "Dominator (h' ! b) = Some q" "b < length h'"
  shows "(b, q) \<in> (back_edges h)\<^sup>+ \<and> post_dominator_edges h' = post_dominator_edges h"
proof -
  have "along dominator_edges back_edges h" using assms(2) by (auto simp: along_def dominator_edges_def)
  from buildDominanceTree_edges[OF assms(1) this] assms(3,4) show ?thesis
    by (auto simp: along_def dominator_edges_def keeps_def)
qed

end
