(* ===== verification/Bitset.thy ===== *)
theory Bitset
  imports Prelude
begin

text \<open>
  The bitsets of \<open>bitset.cpp\<close>: an array of 32-bit words and the number of bits. Every
  operation is translated with its assertion, its word loop and its array accesses; an
  access outside the array is \<open>Undefined\<close>. \<open>marks\<close> reads a bitset as a set of
  numbers and \<open>bitset_wf\<close> is the invariant under which the operations implement the
  finite set operations. The locale \<open>mark_sets\<close> is the interface the taint operations use.
\<close>

record bitset =
  bits :: "size_t list"
  nbits :: size_t

section \<open>The operations\<close>

definition BITSET_BITS :: size_t where
  "BITSET_BITS = 8 * 4"

definition BITSET_MASK :: "size_t \<Rightarrow> size_t" where
  "BITSET_MASK pos = push_bit (unat (pos mod BITSET_BITS)) 1"

definition BITSET_USED :: "size_t \<Rightarrow> size_t" where
  "BITSET_USED nb = (nb + (BITSET_BITS - 1)) div BITSET_BITS"

definition BITSET_WORD :: "bitset \<Rightarrow> size_t \<Rightarrow> size_t result" where
  "BITSET_WORD s pos =
     (let i = unat (pos div BITSET_BITS)
      in if i < length (bits s) then Inr (bits s ! i) else Inl Undefined)"

definition BITSET_WORD_set :: "bitset \<Rightarrow> size_t \<Rightarrow> size_t \<Rightarrow> bitset result" where
  "BITSET_WORD_set s pos w =
     (let i = unat (pos div BITSET_BITS)
      in if i < length (bits s) then Inr (s\<lparr>bits := (bits s)[i := w]\<rparr>) else Inl Undefined)"

definition bitset_init :: "size_t \<Rightarrow> bitset" where
  "bitset_init nb = \<lparr>bits = replicate (unat (BITSET_USED nb)) 0, nbits = nb\<rparr>"

text \<open>\<open>memcpy\<close> of \<open>n\<close> words from the start of one array to the start of another.\<close>

definition memcpy_words :: "size_t list \<Rightarrow> size_t list \<Rightarrow> nat \<Rightarrow> size_t list result" where
  "memcpy_words d s n =
     (if n \<le> length d \<and> n \<le> length s then Inr (take n s @ drop n d) else Inl Undefined)"

definition bitset_copy :: "bitset \<Rightarrow> bitset result" where
  "bitset_copy s =
     (let clone = bitset_init (nbits s)
      in rbind (memcpy_words (bits clone) (bits s) (unat (BITSET_USED (nbits s))))
           (\<lambda>w. Inr (clone\<lparr>bits := w\<rparr>)))"

definition bitset_reset :: "bitset \<Rightarrow> bitset result" where
  "bitset_reset s =
     (let n = unat (BITSET_USED (nbits s))
      in if n \<le> length (bits s)
         then Inr (s\<lparr>bits := replicate n 0 @ drop n (bits s)\<rparr>) else Inl Undefined)"

definition bitset_size :: "bitset \<Rightarrow> size_t" where
  "bitset_size s = nbits s"

definition bitset_clear_bit :: "bitset \<Rightarrow> size_t \<Rightarrow> bitset result" where
  "bitset_clear_bit s pos = cassert (pos < nbits s)
     (rbind (BITSET_WORD s pos)
       (\<lambda>w. BITSET_WORD_set s pos (w AND NOT (BITSET_MASK pos))))"

definition bitset_set_bit :: "bitset \<Rightarrow> size_t \<Rightarrow> bitset result" where
  "bitset_set_bit s pos = cassert (pos < nbits s)
     (rbind (BITSET_WORD s pos)
       (\<lambda>w. BITSET_WORD_set s pos (w OR BITSET_MASK pos)))"

definition bitset_set_bits :: "bitset \<Rightarrow> bitset \<Rightarrow> bitset result" where
  "bitset_set_bits dest src = cassert (nbits dest \<ge> nbits src)
     (rbind (memcpy_words (bits dest) (bits src) (unat (BITSET_USED (nbits src))))
       (\<lambda>w. Inr (dest\<lparr>bits := w\<rparr>)))"

definition bitset_test_bit :: "bitset \<Rightarrow> size_t \<Rightarrow> bool result" where
  "bitset_test_bit s pos = cassert (pos < nbits s)
     (rbind (BITSET_WORD s pos) (\<lambda>w. Inr ((w AND BITSET_MASK pos) \<noteq> 0)))"

definition bitset_toggle_bit :: "bitset \<Rightarrow> size_t \<Rightarrow> bitset result" where
  "bitset_toggle_bit s pos = cassert (pos < nbits s)
     (rbind (bitset_test_bit s pos)
       (\<lambda>b. if b then bitset_clear_bit s pos else bitset_set_bit s pos))"

text \<open>\<open>while(i--) dest->bits[i] = f(dest->bits[i], src->bits[i])\<close>, from the top index down.\<close>

fun word_loop :: "(size_t \<Rightarrow> size_t \<Rightarrow> size_t) \<Rightarrow> nat \<Rightarrow> size_t list \<Rightarrow> size_t list \<Rightarrow> size_t list result"
  where
  "word_loop f 0 d s = Inr d"
| "word_loop f (Suc i) d s =
     (if i < length d \<and> i < length s then word_loop f i (d[i := f (d ! i) (s ! i)]) s
      else Inl Undefined)"

definition bitset_combine :: "(size_t \<Rightarrow> size_t \<Rightarrow> size_t) \<Rightarrow> bitset \<Rightarrow> bitset \<Rightarrow> bitset result" where
  "bitset_combine f dest src = cassert (nbits dest = nbits src)
     (rbind (word_loop f (unat (BITSET_USED (nbits dest))) (bits dest) (bits src))
       (\<lambda>w. Inr (dest\<lparr>bits := w\<rparr>)))"

definition bitset_union :: "bitset \<Rightarrow> bitset \<Rightarrow> bitset result" where
  "bitset_union = bitset_combine (\<lambda>d s. d OR s)"

definition bitset_intersection :: "bitset \<Rightarrow> bitset \<Rightarrow> bitset result" where
  "bitset_intersection = bitset_combine (\<lambda>d s. d AND s)"

definition bitset_difference :: "bitset \<Rightarrow> bitset \<Rightarrow> bitset result" where
  "bitset_difference = bitset_combine (\<lambda>d s. d AND NOT s)"

definition bitset_xor :: "bitset \<Rightarrow> bitset \<Rightarrow> bitset result" where
  "bitset_xor = bitset_combine (\<lambda>d s. d XOR s)"

text \<open>The varargs up to the terminating \<open>NULL\<close>.\<close>

definition bitset_union_n :: "bitset \<Rightarrow> bitset list \<Rightarrow> bitset result" where
  "bitset_union_n dest srcs = rfold (\<lambda>src d. bitset_union d src) srcs dest"

text \<open>
  \<open>while(i-- && P(i)) ;  return i == -1;\<close> The loop stops at the first index, from the top
  down, at which \<open>P\<close> fails, and then \<open>i\<close> is that index; it ends with \<open>i = -1\<close> otherwise.
\<close>

fun scan_loop :: "(nat \<Rightarrow> bool result) \<Rightarrow> nat \<Rightarrow> int result" where
  "scan_loop P 0 = Inr (-1)"
| "scan_loop P (Suc i) = rbind (P i) (\<lambda>b. if b then scan_loop P i else Inr (int i))"

definition word_at :: "size_t list \<Rightarrow> nat \<Rightarrow> size_t result" where
  "word_at ws i = (if i < length ws then Inr (ws ! i) else Inl Undefined)"

definition bitset_equal :: "bitset \<Rightarrow> bitset \<Rightarrow> bool result" where
  "bitset_equal a b =
     (if nbits a \<noteq> nbits b then Inr False
      else rbind (scan_loop
             (\<lambda>i. rbind (word_at (bits a) i) (\<lambda>x. rbind (word_at (bits b) i) (\<lambda>y. Inr (x = y))))
             (unat (BITSET_USED (nbits a)))) (\<lambda>i. Inr (i = -1)))"

definition bitset_is_subset :: "bitset \<Rightarrow> bitset \<Rightarrow> bool result" where
  "bitset_is_subset a b = cassert (nbits a = nbits b)
     (rbind (scan_loop
             (\<lambda>i. rbind (word_at (bits a) i)
                (\<lambda>x. rbind (word_at (bits b) i) (\<lambda>y. Inr ((x OR y) = x))))
             (unat (BITSET_USED (nbits a)))) (\<lambda>i. Inr (i = -1)))"

definition bitset_is_empty :: "bitset \<Rightarrow> bool result" where
  "bitset_is_empty s =
     rbind (scan_loop (\<lambda>i. rbind (word_at (bits s) i) (\<lambda>x. Inr (x = 0)))
             (unat (BITSET_USED (nbits s)))) (\<lambda>i. Inr (i = -1))"

text \<open>The values of \<open>i\<close> in \<open>for(i = 0; i < set->nbits; i++)\<close> are \<open>addr_range 0 (nbits set)\<close>.\<close>

definition bitset_population :: "bitset \<Rightarrow> size_t result" where
  "bitset_population s =
     rfold (\<lambda>i total. rbind (bitset_test_bit s i) (\<lambda>b. Inr (if b then total + 1 else total)))
       (addr_range 0 (nbits s)) 0"

text \<open>The buffer has \<open>nbits + 1\<close> bytes; a wrapped size would leave no room for the first byte.\<close>

definition bitset_str :: "bitset \<Rightarrow> string result" where
  "bitset_str s =
     (if nbits s + 1 = 0 then Inl Undefined
      else rfold (\<lambda>i buf. rbind (bitset_test_bit s i)
                    (\<lambda>b. Inr (buf @ (if b then ''1'' else ''0''))))
             (addr_range 0 (nbits s)) '''')"

text \<open>What \<open>bitset_print\<close> writes to the standard output.\<close>

definition bitset_print :: "bitset \<Rightarrow> string result" where
  "bitset_print s =
     rbind (rfold (\<lambda>i out. rbind (bitset_test_bit s i)
                    (\<lambda>b. Inr (out @ (if b then ''1'' else ''0''))))
             (addr_range 0 (nbits s)) '''')
       (\<lambda>out. Inr (out @ [CHR 0x0A]))"

section \<open>Bitsets as sets of marks\<close>

definition nbits_ok :: "size_t \<Rightarrow> bool" where
  "nbits_ok nb \<longleftrightarrow> unat nb + 31 < 2 ^ 32"

definition marks :: "bitset \<Rightarrow> mark set" where
  "marks b = {i. i < unat (nbits b) \<and> bit (bits b ! (i div 32)) (i mod 32)}"

text \<open>
  The invariant of a bitset of \<open>nb\<close> bits: an array of the right length in which no bit
  at or beyond \<open>nb\<close> is set.
\<close>

definition bitset_wf :: "size_t \<Rightarrow> bitset \<Rightarrow> bool" where
  "bitset_wf nb b \<longleftrightarrow> nbits_ok nb \<and> nbits b = nb \<and> length (bits b) = unat (BITSET_USED nb) \<and>
     (\<forall>i < length (bits b). \<forall>j < 32. bit (bits b ! i) j \<longrightarrow> 32 * i + j < unat nb)"

lemma unat_BITSET_USED: "nbits_ok nb \<Longrightarrow> unat (BITSET_USED nb) = (unat nb + 31) div 32"
  by (simp add: BITSET_USED_def BITSET_BITS_def nbits_ok_def unat_div unat_word_ariths)

lemma unat_pos_div: "unat (pos div BITSET_BITS) = unat pos div 32"
  by (simp add: BITSET_BITS_def unat_div)

lemma unat_pos_mod: "unat (pos mod BITSET_BITS) = unat pos mod 32"
  by (simp add: BITSET_BITS_def unat_mod)

lemma bit_BITSET_MASK: "j < 32 \<Longrightarrow> bit (BITSET_MASK pos) j \<longleftrightarrow> j = unat pos mod 32"
  by (auto simp: BITSET_MASK_def unat_pos_mod bit_exp_iff)

lemma and_BITSET_MASK: "(w AND BITSET_MASK pos) \<noteq> 0 \<longleftrightarrow> bit w (unat pos mod 32)"
proof -
  have "bit (w AND BITSET_MASK pos) j \<longleftrightarrow> j = unat pos mod 32 \<and> bit w j" if "j < 32" for j
    using that by (auto simp: bit_and_iff bit_BITSET_MASK)
  then show ?thesis
    by (subst bit_eq_iff) auto
qed

lemma index_bound:
  assumes "i < unat nb" and "nbits_ok nb"
  shows "i div 32 < unat (BITSET_USED nb)"
  using assms by (simp add: unat_BITSET_USED)

lemma bitset_wfD:
  assumes "bitset_wf nb b"
  shows "nbits_ok nb" "nbits b = nb" "length (bits b) = unat (BITSET_USED nb)"
  using assms by (auto simp: bitset_wf_def)

lemma wf_bit_iff:
  assumes "bitset_wf nb b" and "i < length (bits b)" and "j < 32"
  shows "bit (bits b ! i) j \<longleftrightarrow> 32 * i + j \<in> marks b"
  using assms by (auto simp: bitset_wf_def marks_def)

lemma marks_bound: "bitset_wf nb b \<Longrightarrow> marks b \<subseteq> {..<unat nb}"
  by (auto simp: bitset_wf_def marks_def)

lemma finite_marks [simp]: "finite (marks b)"
  by (rule finite_subset[of _ "{..<unat (nbits b)}"]) (auto simp: marks_def)

text \<open>A well-formed bitset is determined by its marks.\<close>

lemma bitset_eq_iff:
  assumes a: "bitset_wf nb a" and b: "bitset_wf nb b"
  shows "a = b \<longleftrightarrow> marks a = marks b"
proof
  assume m: "marks a = marks b"
  have "bits a = bits b"
  proof (rule nth_equalityI)
    show len: "length (bits a) = length (bits b)"
      using a b by (simp add: bitset_wf_def)
    fix i
    assume i: "i < length (bits a)"
    show "bits a ! i = bits b ! i"
    proof (rule bit_eqI)
      fix j
      assume "possible_bit TYPE(32 word) j"
      then have "j < 32" by simp
      then show "bit (bits a ! i) j \<longleftrightarrow> bit (bits b ! i) j"
        using wf_bit_iff[OF a i] wf_bit_iff[OF b] i len m by auto
    qed
  qed
  then show "a = b" using a b by (simp add: bitset_wf_def bitset.equality)
qed simp

section \<open>Correctness of the operations\<close>

lemma bitset_init_wf: "nbits_ok nb \<Longrightarrow> bitset_wf nb (bitset_init nb)"
  by (simp add: bitset_wf_def bitset_init_def)

lemma marks_bitset_init: "nbits_ok nb \<Longrightarrow> marks (bitset_init nb) = {}"
  by (auto simp: marks_def bitset_init_def dest: index_bound)

lemma bitset_set_bits_ok:
  "bitset_wf nb d \<Longrightarrow> bitset_wf nb s \<Longrightarrow> bitset_set_bits d s = Inr s"
  by (simp add: bitset_set_bits_def memcpy_words_def bitset_wf_def bitset.equality)

lemma bitset_copy_ok: "bitset_wf nb s \<Longrightarrow> bitset_copy s = Inr s"
  by (simp add: bitset_copy_def memcpy_words_def bitset_init_def bitset_wf_def bitset.equality)

lemma bitset_reset_ok: "bitset_wf nb s \<Longrightarrow> bitset_reset s = Inr (bitset_init nb)"
  by (simp add: bitset_reset_def bitset_wf_def bitset_init_def bitset.equality)

lemma BITSET_WORD_ok:
  assumes "bitset_wf nb s" and "pos < nb"
  shows "BITSET_WORD s pos = Inr (bits s ! (unat pos div 32))"
    and "BITSET_WORD_set s pos w = Inr (s\<lparr>bits := (bits s)[unat pos div 32 := w]\<rparr>)"
  using assms index_bound[of "unat pos" nb]
  by (simp_all add: BITSET_WORD_def BITSET_WORD_set_def Let_def unat_pos_div bitset_wf_def
      word_less_nat_alt)

lemma bitset_test_bit_ok:
  assumes "bitset_wf nb s" and "pos < nb"
  shows "bitset_test_bit s pos = Inr (unat pos \<in> marks s)"
  using assms
  by (auto simp: bitset_test_bit_def BITSET_WORD_ok bitset_wfD and_BITSET_MASK marks_def
      word_less_nat_alt)

text \<open>Writing one word: the marks of the other words do not change.\<close>

lemma bitset_write_word:
  assumes s: "bitset_wf nb s" and i: "i < length (bits s)"
    and clean: "\<forall>j < 32. bit w j \<longrightarrow> 32 * i + j < unat nb"
  shows "bitset_wf nb (s\<lparr>bits := (bits s)[i := w]\<rparr>)"
    and "marks (s\<lparr>bits := (bits s)[i := w]\<rparr>) =
      {k \<in> marks s. k div 32 \<noteq> i} \<union> {k. k < unat nb \<and> k div 32 = i \<and> bit w (k mod 32)}"
  using assms index_bound[of _ nb]
  by (auto simp: bitset_wf_def marks_def nth_list_update)

lemma div_mod_32_eq: "(k::nat) div 32 = p div 32 \<Longrightarrow> k mod 32 = p mod 32 \<longleftrightarrow> k = p"
  by (metis div_mult_mod_eq)

lemma bitset_set_bit_ok:
  assumes s: "bitset_wf nb s" and p: "pos < nb"
  shows "\<exists>s'. bitset_set_bit s pos = Inr s' \<and> bitset_wf nb s' \<and> marks s' = insert (unat pos) (marks s)"
proof -
  let ?p = "unat pos" and ?i = "unat pos div 32"
  let ?w = "bits s ! ?i OR BITSET_MASK pos"
  from p have lt: "?p < unat nb" by (simp add: word_less_nat_alt)
  with s have i: "?i < length (bits s)"
    using index_bound bitset_wfD by metis
  have clean: "\<forall>j < 32. bit ?w j \<longrightarrow> 32 * ?i + j < unat nb"
    using s i lt by (auto simp: bit_or_iff bit_BITSET_MASK bitset_wf_def)
  have "marks (s\<lparr>bits := (bits s)[?i := ?w]\<rparr>) = insert ?p (marks s)"
    unfolding bitset_write_word(2)[OF s i clean]
    using lt s by (auto simp: marks_def bit_or_iff bit_BITSET_MASK bitset_wf_def div_mod_32_eq)
  with bitset_write_word(1)[OF s i clean] show ?thesis
    using s p by (simp add: bitset_set_bit_def BITSET_WORD_ok bitset_wfD)
qed

lemma bitset_clear_bit_ok:
  assumes s: "bitset_wf nb s" and p: "pos < nb"
  shows "\<exists>s'. bitset_clear_bit s pos = Inr s' \<and> bitset_wf nb s' \<and> marks s' = marks s - {unat pos}"
proof -
  let ?p = "unat pos" and ?i = "unat pos div 32"
  let ?w = "bits s ! ?i AND NOT (BITSET_MASK pos)"
  from p have lt: "?p < unat nb" by (simp add: word_less_nat_alt)
  with s have i: "?i < length (bits s)"
    using index_bound bitset_wfD by metis
  have clean: "\<forall>j < 32. bit ?w j \<longrightarrow> 32 * ?i + j < unat nb"
    using s i lt by (auto simp: bit_and_iff bitset_wf_def)
  have "marks (s\<lparr>bits := (bits s)[?i := ?w]\<rparr>) = marks s - {?p}"
    unfolding bitset_write_word(2)[OF s i clean]
    using lt s
    by (auto simp: marks_def bit_and_iff bit_not_iff bit_BITSET_MASK bitset_wf_def div_mod_32_eq)
  with bitset_write_word(1)[OF s i clean] show ?thesis
    using s p by (simp add: bitset_clear_bit_def BITSET_WORD_ok bitset_wfD)
qed

lemma bitset_toggle_bit_ok:
  assumes s: "bitset_wf nb s" and p: "pos < nb"
  shows "\<exists>s'. bitset_toggle_bit s pos = Inr s' \<and> bitset_wf nb s' \<and>
    marks s' = (if unat pos \<in> marks s then marks s - {unat pos} else insert (unat pos) (marks s))"
  using bitset_set_bit_ok[OF assms] bitset_clear_bit_ok[OF assms] bitset_test_bit_ok[OF assms] assms
  by (auto simp: bitset_toggle_bit_def bitset_wfD)

lemma word_loop_ok:
  "n \<le> length d \<Longrightarrow> n \<le> length s \<Longrightarrow>
     word_loop f n d s = Inr (map2 f (take n d) (take n s) @ drop n d)"
proof (induction n arbitrary: d)
  case 0
  then show ?case by simp
next
  case (Suc n)
  let ?d = "d[n := f (d ! n) (s ! n)]"
  from Suc have "word_loop f (Suc n) d s = Inr (map2 f (take n ?d) (take n s) @ drop n ?d)"
    by simp
  also have "take n ?d = take n d" by simp
  also have "drop n ?d = f (d ! n) (s ! n) # drop (Suc n) d"
    using Suc.prems by (simp add: Cons_nth_drop_Suc[symmetric] drop_update_swap)
  finally show ?case
    using Suc.prems by (simp add: take_Suc_conv_app_nth)
qed

text \<open>
  The four binary operations at once: \<open>f\<close> works bit by bit as \<open>g\<close> does, and two clear
  bits give a clear bit.
\<close>

lemma bitset_combine_ok:
  assumes d: "bitset_wf nb d" and s: "bitset_wf nb s"
    and f: "\<And>x y j. j < 32 \<Longrightarrow> bit (f x y) j \<longleftrightarrow> g (bit x j) (bit y j)"
    and g: "\<not> g False False"
  shows "\<exists>r. bitset_combine f d s = Inr r \<and> bitset_wf nb r \<and>
    marks r = {i. i < unat nb \<and> g (i \<in> marks d) (i \<in> marks s)}"
proof -
  let ?r = "d\<lparr>bits := map2 f (bits d) (bits s)\<rparr>"
  have len: "length (bits d) = length (bits s)" "unat (BITSET_USED nb) = length (bits d)"
    using d s by (auto simp: bitset_wf_def)
  have eq: "bitset_combine f d s = Inr ?r"
    using bitset_wfD(2)[OF d] bitset_wfD(2)[OF s] len
    by (simp add: bitset_combine_def word_loop_ok)
  have key: "bit (map2 f (bits d) (bits s) ! i) j \<longleftrightarrow> g (bit (bits d ! i) j) (bit (bits s ! i) j)"
    if "i < length (bits d)" "j < 32" for i j
    using that len f by simp
  have "32 * i + j < unat nb" if i: "i < length (bits d)" "j < 32"
    and b: "bit (map2 f (bits d) (bits s) ! i) j" for i j
  proof -
    have "bit (bits d ! i) j \<or> bit (bits s ! i) j"
      using b g key[OF i] by (cases "bit (bits d ! i) j"; cases "bit (bits s ! i) j") auto
    then show ?thesis using d s i len by (auto simp: bitset_wf_def)
  qed
  then have wf: "bitset_wf nb ?r"
    using d len by (auto simp: bitset_wf_def)
  have "i div 32 < length (bits d)" if "i < unat nb" for i
    using that index_bound bitset_wfD[OF d] by metis
  then have "marks ?r = {i. i < unat nb \<and> g (i \<in> marks d) (i \<in> marks s)}"
    using bitset_wfD(2)[OF d] bitset_wfD(2)[OF s] key by (simp add: marks_def cong: conj_cong)
  with eq wf show ?thesis by blast
qed

lemma bitset_union_ok:
  assumes "bitset_wf nb d" "bitset_wf nb s"
  shows "\<exists>r. bitset_union d s = Inr r \<and> bitset_wf nb r \<and> marks r = marks d \<union> marks s"
  using bitset_combine_ok[OF assms, of "\<lambda>x y. x OR y" "(\<or>)"] assms[THEN marks_bound]
  by (auto simp: bitset_union_def bit_or_iff)

lemma bitset_intersection_ok:
  assumes "bitset_wf nb d" "bitset_wf nb s"
  shows "\<exists>r. bitset_intersection d s = Inr r \<and> bitset_wf nb r \<and> marks r = marks d \<inter> marks s"
  using bitset_combine_ok[OF assms, of "\<lambda>x y. x AND y" "(\<and>)"] assms[THEN marks_bound]
  by (auto simp: bitset_intersection_def bit_and_iff)

lemma bitset_difference_ok:
  assumes "bitset_wf nb d" "bitset_wf nb s"
  shows "\<exists>r. bitset_difference d s = Inr r \<and> bitset_wf nb r \<and> marks r = marks d - marks s"
  using bitset_combine_ok[OF assms, of "\<lambda>x y. x AND NOT y" "\<lambda>a b. a \<and> \<not> b"] assms[THEN marks_bound]
  by (auto simp: bitset_difference_def bit_and_iff bit_not_iff)

lemma bitset_xor_ok:
  assumes "bitset_wf nb d" "bitset_wf nb s"
  shows "\<exists>r. bitset_xor d s = Inr r \<and> bitset_wf nb r \<and>
    marks r = (marks d - marks s) \<union> (marks s - marks d)"
  using bitset_combine_ok[OF assms, of "\<lambda>x y. x XOR y" "(\<noteq>)"] assms[THEN marks_bound]
  by (auto simp: bitset_xor_def bit_xor_iff)

text \<open>The scanning loops return whether the test holds at every index.\<close>

lemma scan_loop_ok:
  "(\<And>i. i < n \<Longrightarrow> P i = Inr (Q i)) \<Longrightarrow>
     rbind (scan_loop P n) (\<lambda>i. Inr (i = -1)) = Inr (\<forall>i < n. Q i)"
  by (induction n) (auto simp: less_Suc_eq)

lemma bitset_is_empty_ok:
  assumes "bitset_wf nb s"
  shows "bitset_is_empty s = Inr (marks s = {})"
proof -
  have "bitset_is_empty s = Inr (\<forall>i < length (bits s). bits s ! i = 0)"
    unfolding bitset_is_empty_def using bitset_wfD[OF assms]
    by (subst scan_loop_ok) (auto simp: word_at_def)
  also have "(\<forall>i < length (bits s). bits s ! i = 0) \<longleftrightarrow> bits s = bits (bitset_init nb)"
    using bitset_wfD[OF assms] by (auto simp: bitset_init_def list_eq_iff_nth_eq)
  also have "\<dots> \<longleftrightarrow> s = bitset_init nb"
    using bitset_wfD[OF assms] by (metis bitset.equality bitset.select_convs(2) bitset_init_def old.unit.exhaust)
  also have "\<dots> \<longleftrightarrow> marks s = {}"
    using assms bitset_wfD[OF assms]
    by (simp add: bitset_eq_iff[OF assms bitset_init_wf] marks_bitset_init)
  finally show ?thesis .
qed

lemma bitset_equal_ok:
  assumes "bitset_wf nb a" "bitset_wf nb b"
  shows "bitset_equal a b = Inr (marks a = marks b)"
proof -
  have "bitset_equal a b = Inr (\<forall>i < length (bits a). bits a ! i = bits b ! i)"
    unfolding bitset_equal_def using assms[THEN bitset_wfD(3)] assms[THEN bitset_wfD(2)]
    by (simp, subst scan_loop_ok) (auto simp: word_at_def)
  also have "(\<forall>i < length (bits a). bits a ! i = bits b ! i) \<longleftrightarrow> a = b"
    using assms[THEN bitset_wfD(3)] assms[THEN bitset_wfD(2)]
    by (auto simp: bitset.equality list_eq_iff_nth_eq intro!: bitset.equality)
  finally show ?thesis by (simp add: bitset_eq_iff[OF assms])
qed

text \<open>The name promises that \<open>a\<close> is a subset of \<open>b\<close>; the code decides the converse inclusion.\<close>

lemma bitset_is_subset_ok:
  assumes a: "bitset_wf nb a" and b: "bitset_wf nb b"
  shows "bitset_is_subset a b = Inr (marks b \<subseteq> marks a)"
proof -
  have len: "length (bits a) = unat (BITSET_USED nb)" "length (bits b) = unat (BITSET_USED nb)"
    using a b by (simp_all add: bitset_wfD)
  have "bitset_is_subset a b = Inr (\<forall>i < length (bits a). (bits a ! i OR bits b ! i) = bits a ! i)"
    unfolding bitset_is_subset_def using a b len
    by (simp add: bitset_wfD, subst scan_loop_ok) (auto simp: word_at_def)
  also have "(\<forall>i < length (bits a). (bits a ! i OR bits b ! i) = bits a ! i) \<longleftrightarrow>
      (\<forall>i < length (bits a). \<forall>j < 32. bit (bits b ! i) j \<longrightarrow> bit (bits a ! i) j)"
    by (auto simp: bit_eq_iff bit_or_iff)
  also have "\<dots> \<longleftrightarrow> (\<forall>i < length (bits a). \<forall>j < 32. 32 * i + j \<in> marks b \<longrightarrow> 32 * i + j \<in> marks a)"
    using wf_bit_iff[OF a] wf_bit_iff[OF b] len by auto
  also have "\<dots> \<longleftrightarrow> marks b \<subseteq> marks a"
  proof (safe)
    fix x
    assume H: "\<forall>i < length (bits a). \<forall>j < 32. 32 * i + j \<in> marks b \<longrightarrow> 32 * i + j \<in> marks a"
      and x: "x \<in> marks b"
    then have "x < unat nb" using marks_bound[OF b] by auto
    then have "x div 32 < length (bits a)" using len index_bound bitset_wfD(1)[OF a] by metis
    with H x show "x \<in> marks a"
      by (metis mod_less_divisor mult_div_mod_eq zero_less_numeral)
  qed auto
  finally show ?thesis .
qed

lemma fold_count: "fold (\<lambda>x n. if P x then n + 1 else n) xs (n::'a::semiring_1) =
    n + of_nat (length (filter P xs))"
  by (induction xs arbitrary: n) (auto simp: algebra_simps)

lemma bitset_population_ok:
  assumes s: "bitset_wf nb s"
  shows "bitset_population s = Inr (of_nat (card (marks s)))"
proof -
  let ?P = "\<lambda>i. unat i \<in> marks s"
  have "bitset_population s = Inr (fold (\<lambda>i n. if ?P i then n + 1 else n) (addr_range 0 nb) 0)"
    unfolding bitset_population_def bitset_wfD(2)[OF s]
    by (rule rfold_pure) (simp add: bitset_test_bit_ok[OF s])
  also have "\<dots> = Inr (of_nat (length (filter ?P (addr_range 0 nb))))"
    by (simp add: fold_count)
  also have "length (filter ?P (addr_range 0 nb)) = length (filter (\<lambda>i. i \<in> marks s) [0..<unat nb])"
    using map_unat_addr_range[of 0 nb]
    by (metis (no_types, lifting) comp_def filter_cong filter_map length_map unat_0)
  also have "\<dots> = card (marks s)"
    using marks_bound[OF s]
    by (subst distinct_card[symmetric]) (auto intro!: arg_cong[of _ _ card])
  finally show ?thesis .
qed

text \<open>The printed form: one character per bit, lowest bit first.\<close>

definition mark_string :: "nat \<Rightarrow> mark set \<Rightarrow> string" where
  "mark_string n m = map (\<lambda>i. if i \<in> m then CHR ''1'' else CHR ''0'') [0..<n]"

lemma fold_snoc: "fold (\<lambda>x ys. ys @ [f x]) xs ys = ys @ map f xs"
  by (induction xs arbitrary: ys) auto

lemma test_bit_fold_string:
  assumes s: "bitset_wf nb s"
  shows "rfold (\<lambda>i buf. rbind (bitset_test_bit s i) (\<lambda>b. Inr (buf @ (if b then ''1'' else ''0''))))
    (addr_range 0 (nbits s)) '''' = Inr (mark_string (unat nb) (marks s))"
proof -
  let ?c = "\<lambda>i. if i \<in> marks s then CHR ''1'' else CHR ''0''"
  have "rfold (\<lambda>i buf. rbind (bitset_test_bit s i) (\<lambda>b. Inr (buf @ (if b then ''1'' else ''0''))))
      (addr_range 0 nb) '''' = Inr (fold (\<lambda>i buf. buf @ [?c (unat i)]) (addr_range 0 nb) '''')"
    by (rule rfold_pure) (simp add: bitset_test_bit_ok[OF s])
  also have "fold (\<lambda>i buf. buf @ [?c (unat i)]) (addr_range 0 nb) '''' = map ?c (map unat (addr_range 0 nb))"
    by (simp add: fold_snoc)
  finally show ?thesis
    by (simp add: bitset_wfD(2)[OF s] mark_string_def map_unat_addr_range)
qed

lemma bitset_str_ok:
  assumes s: "bitset_wf nb s"
  shows "bitset_str s = Inr (mark_string (unat nb) (marks s))"
proof -
  have "unat nb + 31 < 2 ^ 32" using bitset_wfD(1)[OF s] by (simp add: nbits_ok_def)
  then have "unat (nb + 1) = unat nb + 1"
    by (simp add: unat_word_ariths)
  then have "nbits s + 1 \<noteq> 0"
    unfolding bitset_wfD(2)[OF s] by (metis add_is_0 unat_0 zero_neq_one)
  then show ?thesis
    using test_bit_fold_string[OF s] by (simp add: bitset_str_def)
qed

lemma bitset_print_ok:
  "bitset_wf nb s \<Longrightarrow> bitset_print s = Inr (mark_string (unat nb) (marks s) @ [CHR 0x0A])"
  using test_bit_fold_string[of nb s] by (simp add: bitset_print_def)

lemma mark_string_inj:
  assumes "m \<subseteq> {..<n}" and "m' \<subseteq> {..<n}"
  shows "mark_string n m = mark_string n m' \<longleftrightarrow> m = m'"
proof
  assume eq: "mark_string n m = mark_string n m'"
  have "i \<in> m \<longleftrightarrow> i \<in> m'" if "i < n" for i
    using arg_cong[OF eq, of "\<lambda>s. s ! i"] that by (simp add: mark_string_def split: if_splits)
  with assms show "m = m'" by blast
qed simp

lemma length_mark_string [simp]: "length (mark_string n m) = n"
  by (simp add: mark_string_def)

section \<open>The interface of the taint operations\<close>

text \<open>
  What the taint operations rely on: sets of marks over a fixed number of marks, created
  empty, overwritten, united and printed. Every operation on well-formed sets succeeds and
  has the effect of the set operation.
\<close>

locale mark_sets =
  fixes ok :: "'n \<Rightarrow> bool"
    and init :: "'n \<Rightarrow> 'b"
    and assign :: "'b \<Rightarrow> 'b \<Rightarrow> 'b result"
    and union :: "'b \<Rightarrow> 'b \<Rightarrow> 'b result"
    and str :: "'b \<Rightarrow> string result"
    and wf :: "'n \<Rightarrow> 'b \<Rightarrow> bool"
    and abs :: "'b \<Rightarrow> mark set"
    and size :: "'n \<Rightarrow> nat"
  assumes init_wf: "ok n \<Longrightarrow> wf n (init n)"
    and init_abs: "ok n \<Longrightarrow> abs (init n) = {}"
    and assign_ok: "wf n d \<Longrightarrow> wf n s \<Longrightarrow> assign d s = Inr s"
    and union_ok: "wf n d \<Longrightarrow> wf n s \<Longrightarrow> \<exists>r. union d s = Inr r \<and> wf n r \<and> abs r = abs d \<union> abs s"
    and str_ok: "wf n s \<Longrightarrow> str s = Inr (mark_string (size n) (abs s))"
    and wf_ok: "wf n s \<Longrightarrow> ok n"
    and abs_inj: "wf n a \<Longrightarrow> wf n b \<Longrightarrow> abs a = abs b \<Longrightarrow> a = b"
    and abs_bound: "wf n a \<Longrightarrow> abs a \<subseteq> {..<size n}"
begin

lemma union_all_ok:
  "wf n d \<Longrightarrow> list_all (wf n) ss \<Longrightarrow>
     \<exists>r. rfold (\<lambda>s acc. union acc s) ss d = Inr r \<and> wf n r \<and> abs r = abs d \<union> \<Union> (abs ` set ss)"
proof (induction ss arbitrary: d)
  case Nil
  then show ?case by simp
next
  case (Cons s ss)
  then obtain d1 where "union d s = Inr d1" "wf n d1" "abs d1 = abs d \<union> abs s"
    using union_ok by fastforce
  with Cons show ?case by (fastforce simp: Un_assoc)
qed

lemma union_from_init:
  "ok n \<Longrightarrow> list_all (wf n) ss \<Longrightarrow>
     \<exists>r. rfold (\<lambda>s acc. union acc s) ss (init n) = Inr r \<and> wf n r \<and> abs r = \<Union> (abs ` set ss)"
  using union_all_ok[OF init_wf] init_abs by fastforce

end

interpretation bs: mark_sets nbits_ok bitset_init bitset_set_bits bitset_union bitset_str
  bitset_wf marks unat
  by unfold_locales
    (rule bitset_init_wf marks_bitset_init bitset_set_bits_ok bitset_union_ok bitset_str_ok
      bitset_wfD(1) bitset_eq_iff[THEN iffD2] marks_bound; assumption)+

lemma bitset_union_n_ok:
  assumes "bitset_wf nb d" and "list_all (bitset_wf nb) ss"
  shows "\<exists>r. bitset_union_n d ss = Inr r \<and> bitset_wf nb r \<and> marks r = marks d \<union> \<Union> (marks ` set ss)"
  unfolding bitset_union_n_def using bs.union_all_ok[OF assms] .

end
