(* ===== verification/Taint_Generator.thy ===== *)
theory Taint_Generator
  imports Prelude
begin

text \<open>
  The generators of taint marks of \<open>taint_generator.h\<close>. A generator object is the class it
  was created with and the private fields of the base class; the default constructor of the
  base class leaves its fields uninitialised, so the constructors of the derived classes take
  them as an argument. The fields are C \<open>int\<close>s; the increment of \<open>INT_MAX\<close> and the
  remainder by zero are \<open>Undefined\<close>. \<open>mark_source\<close> is the contract the taint sources
  rely on.
\<close>

record gen_fields =
  gen_start :: int
  gen_current :: int
  gen_max :: int

datatype taint_generator =
    TaintGenerator gen_fields
  | ConstantTaintGenerator gen_fields int

definition new_TaintGenerator :: "int \<Rightarrow> int \<Rightarrow> taint_generator" where
  "new_TaintGenerator start mx =
     TaintGenerator \<lparr>gen_start = start, gen_current = start, gen_max = mx\<rparr>"

definition new_ConstantTaintGenerator :: "gen_fields \<Rightarrow> int \<Rightarrow> taint_generator" where
  "new_ConstantTaintGenerator uninit seed = ConstantTaintGenerator uninit seed"

fun gen_fields_of :: "taint_generator \<Rightarrow> gen_fields" where
  "gen_fields_of (TaintGenerator f) = f"
| "gen_fields_of (ConstantTaintGenerator f seed) = f"

fun nextTaintMark :: "taint_generator \<Rightarrow> (int \<times> taint_generator) result" where
  "nextTaintMark (TaintGenerator f) =
     (if gen_current f = 2 ^ 31 - 1 \<or> gen_max f = 0 then Inl Undefined
      else Inr (gen_current f,
        TaintGenerator
          (if (gen_current f + 1) smod gen_max f = 0 then f\<lparr>gen_current := gen_start f\<rparr>
           else f\<lparr>gen_current := gen_current f + 1\<rparr>)))"
| "nextTaintMark (ConstantTaintGenerator f seed) = Inr (seed, ConstantTaintGenerator f seed)"

fun setStart :: "int \<Rightarrow> taint_generator \<Rightarrow> taint_generator" where
  "setStart new_start (TaintGenerator f) = TaintGenerator (f\<lparr>gen_start := new_start\<rparr>)"
| "setStart new_start (ConstantTaintGenerator f seed) =
     ConstantTaintGenerator (f\<lparr>gen_start := new_start\<rparr>) seed"

definition getCurrent :: "taint_generator \<Rightarrow> int" where
  "getCurrent g = gen_current (gen_fields_of g)"

definition getMax :: "taint_generator \<Rightarrow> int" where
  "getMax g = gen_max (gen_fields_of g)"

text \<open>\<open>RandomSetTaintGenerator::nextTaintMark\<close>, for the value that \<open>rand()\<close> returns.\<close>

record random_generator =
  rnd_start :: int
  rnd_num :: int

definition random_nextTaintMark :: "int \<Rightarrow> random_generator \<Rightarrow> int result" where
  "random_nextTaintMark r g =
     (if rnd_num g = 0 then Inl Undefined else Inr ((r smod rnd_num g) + rnd_start g))"

section \<open>The contract of a source of marks\<close>

fun draw_marks :: "nat \<Rightarrow> taint_generator \<Rightarrow> (int list \<times> taint_generator) result" where
  "draw_marks 0 g = Inr ([], g)"
| "draw_marks (Suc n) g =
     rbind (nextTaintMark g) (\<lambda>(m, g'). rbind (draw_marks n g') (\<lambda>(ms, g''). Inr (m # ms, g'')))"

locale mark_source =
  fixes inv :: "'g \<Rightarrow> bool"
    and range :: "int set"
    and nxt :: "'g \<Rightarrow> (int \<times> 'g) result"
    and draw :: "nat \<Rightarrow> 'g \<Rightarrow> (int list \<times> 'g) result"
  assumes nxt_ok: "inv g \<Longrightarrow> \<exists>m g'. nxt g = Inr (m, g') \<and> m \<in> range \<and> inv g'"
    and draw_0: "draw 0 g = Inr ([], g)"
    and draw_Suc: "draw (Suc n) g =
      rbind (nxt g) (\<lambda>(m, g'). rbind (draw n g') (\<lambda>(ms, g''). Inr (m # ms, g'')))"
begin

lemma draw_ok: "inv g \<Longrightarrow> \<exists>ms g'. draw n g = Inr (ms, g') \<and> length ms = n \<and> set ms \<subseteq> range \<and> inv g'"
proof (induction n arbitrary: g)
  case 0
  then show ?case by (simp add: draw_0)
next
  case (Suc n)
  from nxt_ok[OF Suc.prems] obtain m g1 where "nxt g = Inr (m, g1)" "m \<in> range" "inv g1" by blast
  with Suc.IH[of g1] show ?case by (auto simp: draw_Suc)
qed

end

text \<open>
  The invariant of a generator whose marks lie in \<open>[lo, n)\<close>: the current mark of a cycling
  generator lies between its start and its maximum.
\<close>

fun gen_inv :: "int \<Rightarrow> int \<Rightarrow> taint_generator \<Rightarrow> bool" where
  "gen_inv lo n (TaintGenerator f) \<longleftrightarrow>
     0 \<le> lo \<and> lo \<le> gen_start f \<and> gen_start f < gen_max f \<and> lo \<le> gen_current f \<and>
     gen_current f < gen_max f \<and> gen_max f \<le> n \<and> n < 2 ^ 31"
| "gen_inv lo n (ConstantTaintGenerator f seed) \<longleftrightarrow> 0 \<le> lo \<and> lo \<le> seed \<and> seed < n \<and> n < 2 ^ 31"

lemma smod_next:
  assumes "0 \<le> (c::int)" "c < m"
  shows "(c + 1) smod m = 0 \<longleftrightarrow> c + 1 = m"
proof (cases "c + 1 = m")
  case True
  then show ?thesis by (simp add: smod_int_alt_def)
next
  case False
  with assms have "(c + 1) smod m = c + 1"
    by (simp add: smod_int_alt_def)
  with assms False show ?thesis by simp
qed

lemma nextTaintMark_inv:
  "gen_inv lo n g \<Longrightarrow> \<exists>m g'. nextTaintMark g = Inr (m, g') \<and> m \<in> {lo..<n} \<and> gen_inv lo n g'"
  by (cases g) (auto simp: smod_next)

interpretation tg: mark_source "gen_inv lo n" "{lo..<n}" nextTaintMark draw_marks for lo n
  by unfold_locales (rule nextTaintMark_inv, simp_all)

lemma new_TaintGenerator_inv: "0 < n \<Longrightarrow> n < 2 ^ 31 \<Longrightarrow> gen_inv 0 n (new_TaintGenerator 0 n)"
  by (simp add: new_TaintGenerator_def)

text \<open>Reserving the marks below the current one (\<open>SetNewTaintStart\<close>).\<close>

lemma setStart_getCurrent_inv:
  assumes "gen_inv lo n (TaintGenerator f)"
  shows "gen_inv (gen_current f) n (setStart (getCurrent (TaintGenerator f)) (TaintGenerator f))"
  using assms by (simp add: getCurrent_def gen_fields_of.simps)

text \<open>The sequence of marks of a cycling generator, in closed form.\<close>

lemma draw_marks_cycle:
  assumes "0 \<le> gen_start f" "gen_start f \<le> gen_current f" "gen_current f < gen_max f" "gen_max f < 2 ^ 31"
  shows "\<exists>g. draw_marks k (TaintGenerator f) =
    Inr (map (\<lambda>i. gen_start f + (gen_current f - gen_start f + int i) mod (gen_max f - gen_start f)) [0..<k], g)"
  using assms
proof (induction k arbitrary: f)
  case 0
  then show ?case by simp
next
  case (Suc k)
  let ?s = "gen_start f" and ?c = "gen_current f" and ?m = "gen_max f"
  let ?f' = "if ?c + 1 = ?m then f\<lparr>gen_current := ?s\<rparr> else f\<lparr>gen_current := ?c + 1\<rparr>"
  have nx: "nextTaintMark (TaintGenerator f) = Inr (?c, TaintGenerator ?f')"
    using Suc.prems by (simp add: smod_next)
  have "gen_start ?f' = ?s" "gen_max ?f' = ?m" "?s \<le> gen_current ?f'" "gen_current ?f' < ?m"
    using Suc.prems by auto
  then obtain g where g: "draw_marks k (TaintGenerator ?f') =
      Inr (map (\<lambda>i. ?s + (gen_current ?f' - ?s + int i) mod (?m - ?s)) [0..<k], g)"
    using Suc.IH[of ?f'] Suc.prems by auto
  have shift: "(gen_current ?f' - ?s + int i) mod (?m - ?s) = (?c - ?s + int (Suc i)) mod (?m - ?s)" for i
  proof (cases "?c + 1 = ?m")
    case True
    then have eq: "?c - ?s + int (Suc i) = (?m - ?s) + int i" by simp
    have cur: "gen_current ?f' - ?s + int i = int i" using True by simp
    show ?thesis by (simp only: eq cur mod_add_self1)
  next
    case False
    then show ?thesis by (simp add: algebra_simps)
  qed
  have hd: "?s + (?c - ?s) mod (?m - ?s) = ?c" using Suc.prems by simp
  have "map (\<lambda>i. ?s + (?c - ?s + int i) mod (?m - ?s)) [0..<Suc k] =
      ?c # map (\<lambda>i. ?s + (gen_current ?f' - ?s + int i) mod (?m - ?s)) [0..<k]"
    unfolding shift by (simp add: upt_conv_Cons hd map_Suc_upt[symmetric] del: upt_Suc)
  with nx g show ?case by (simp del: nextTaintMark.simps)
qed


lemma draw_marks_current:
  assumes "0 \<le> gen_current f" "gen_current f + int k < gen_max f" "gen_max f < 2 ^ 31"
  shows "\<exists>ms. draw_marks k (TaintGenerator f) = Inr (ms, TaintGenerator (f\<lparr>gen_current := gen_current f + int k\<rparr>))"
  using assms
proof (induction k arbitrary: f)
  case (Suc k)
  let ?f = "f\<lparr>gen_current := gen_current f + 1\<rparr>"
  have n: "nextTaintMark (TaintGenerator f) = Inr (gen_current f, TaintGenerator ?f)"
    using Suc.prems smod_next[of "gen_current f" "gen_max f"] by simp
  have "\<exists>ms. draw_marks k (TaintGenerator ?f) = Inr (ms, TaintGenerator (?f\<lparr>gen_current := gen_current ?f + int k\<rparr>))"
    using Suc.prems by (intro Suc.IH) simp_all
  then obtain ms where "draw_marks k (TaintGenerator ?f) =
      Inr (ms, TaintGenerator (f\<lparr>gen_current := gen_current f + int (Suc k)\<rparr>))" by (auto simp: ac_simps)
  then show ?case unfolding draw_marks.simps(2) n rbind.simps by simp
qed simp

text \<open>Drawing up to the last mark brings the generator back to its start.\<close>

lemma draw_marks_full:
  assumes "0 \<le> gen_current f" "gen_current f + int k = gen_max f" "gen_max f < 2 ^ 31" "0 < k"
  shows "\<exists>ms. draw_marks k (TaintGenerator f) = Inr (ms, TaintGenerator (f\<lparr>gen_current := gen_start f\<rparr>))"
  using assms
proof (induction k arbitrary: f)
  case (Suc k)
  let ?f = "if k = 0 then f\<lparr>gen_current := gen_start f\<rparr> else f\<lparr>gen_current := gen_current f + 1\<rparr>"
  have n: "nextTaintMark (TaintGenerator f) = Inr (gen_current f, TaintGenerator ?f)"
    using Suc.prems smod_next[of "gen_current f" "gen_max f"] by auto
  have "\<exists>ms. draw_marks k (TaintGenerator ?f) = Inr (ms, TaintGenerator (f\<lparr>gen_current := gen_start f\<rparr>))"
  proof (cases "k = 0")
    case False
    with Suc.prems Suc.IH[of ?f] show ?thesis by simp
  qed simp
  then show ?case unfolding draw_marks.simps(2) n rbind.simps by auto
qed simp

end
