(* ===== verification/Taint_State.thy ===== *)
theory Taint_State
  imports Bitset Std_Map Taint_Generator "HOL-Library.List_Lexorder" "HOL-Library.Char_ord"
begin

text \<open>
  The run-time state of the tracker and the taint operations of \<open>dytan.cpp\<close>.

  The taint state is the record of the global variables of \<open>dytan.cpp\<close>. Every pointer to
  a bitset in a map or in one of the eight global slots is the only pointer to its bitset
  (the maps are filled with \<open>bitset_copy\<close> and \<open>bitset_init\<close> results), so the model
  stores the bitsets themselves. \<open>regTaintMap\<close> and \<open>memTaintMap\<close> are only searched by
  key and are partial functions; \<open>controlTaintMap\<close> and \<open>profilingMap\<close> are iterated in
  key order and are sorted association lists. The text of \<open>prof_log\<close> is kept, with the
  base that the sticky manipulators \<open>std::hex\<close> and \<open>std::dec\<close> left on the stream. The
  output on \<open>log\<close>, which \<open>main\<close> switches off, is in \<open>Trace_Log\<close>.

  What the code takes from Pin is the argument of type \<open>pin_regs\<close>.
\<close>

datatype REG =
    REG_INVALID
  | REG_EAX | REG_EBX | REG_ECX | REG_EDX
  | REG_AX | REG_BX | REG_CX | REG_DX
  | REG_AH | REG_BH | REG_CH | REG_DH
  | REG_AL | REG_BL | REG_CL | REG_DL
  | REG_ESP | REG_EBP | REG_ESI | REG_EDI
  | REG_EFLAGS
  | REG_other nat

record pin_regs =
  REG_valid :: "REG \<Rightarrow> bool"
  REG_StringShort :: "REG \<Rightarrow> string"

datatype slot = Dest | Src | Eax | Edx | Base | Idx | Eflags | Cnt

type_synonym opcode = "32 word"

record taint_state =
  regTaintMap :: "REG \<Rightarrow> bitset option"
  memTaintMap :: "ADDRINT \<Rightarrow> bitset option"
  controlTaintMap :: "(ADDRINT, bitset) stdmap"
  slots :: "slot \<Rightarrow> bitset"
  NUMBER_OF_TAINT_MARKS :: int
  taintGen :: "taint_generator option"
  profiling_marks :: bool
  profiling_markop :: bool
  word_mode :: bool
  word_size :: int
  profilingMap :: "(string, 32 word) stdmap"
  prof_log :: string
  prof_ok :: bool
  prof_base :: nat
  prof_stream :: string

definition num_marks :: "taint_state \<Rightarrow> size_t" where
  "num_marks s = word_of_int (NUMBER_OF_TAINT_MARKS s)"

definition set_slot :: "slot \<Rightarrow> bitset \<Rightarrow> taint_state \<Rightarrow> taint_state" where
  "set_slot x b s = s\<lparr>slots := (slots s)(x := b)\<rparr>"

section \<open>Output on the profiling streams\<close>

text \<open>\<open>prof_log << txt\<close>, \<open>prof_log << std::dec << n\<close>, \<open>prof_log << std::hex << a\<close>
  and \<open>prof_log << sep << bitset_str(b)\<close>, each under the condition that guards it. The stream
  writes nothing unless \<open>prof_ok\<close>: it was opened and no operation on it has failed.\<close>

definition plog :: "bool \<Rightarrow> string \<Rightarrow> taint_state \<Rightarrow> taint_state" where
  "plog on txt s = (if on \<and> prof_ok s then s\<lparr>prof_log := prof_log s @ txt\<rparr> else s)"

definition plog_dec :: "bool \<Rightarrow> 32 word \<Rightarrow> taint_state \<Rightarrow> taint_state" where
  "plog_dec on n s =
     (if on then (plog True (show_dec (unat n)) s)\<lparr>prof_base := 10\<rparr> else s)"

definition plog_hex :: "bool \<Rightarrow> 32 word \<Rightarrow> taint_state \<Rightarrow> taint_state" where
  "plog_hex on n s =
     (if on then (plog True (show_hex n) s)\<lparr>prof_base := 16\<rparr> else s)"

definition plog_bits :: "bool \<Rightarrow> string \<Rightarrow> bitset \<Rightarrow> taint_state \<Rightarrow> taint_state result" where
  "plog_bits on pre b s =
     (if on then rbind (bitset_str b) (\<lambda>x. Inr (plog True (pre @ x) s)) else Inr s)"

definition pstream_bits :: "bool \<Rightarrow> bitset \<Rightarrow> taint_state \<Rightarrow> taint_state result" where
  "pstream_bits on b s =
     (if on then rbind (bitset_str b) (\<lambda>x. Inr (s\<lparr>prof_stream := prof_stream s @ x\<rparr>)) else Inr s)"

text \<open>A separator: its first value until the first item is printed, then a star.\<close>

definition next_sep :: "bool \<Rightarrow> string \<Rightarrow> string" where
  "next_sep on sep = (if on then ''*'' else sep)"

definition log_opcode :: "bool \<Rightarrow> opcode \<Rightarrow> taint_state \<Rightarrow> taint_state" where
  "log_opcode on opcode s = plog on ''#'' (plog_dec on opcode (plog on ''opcode:'' s))"

text \<open>The counter of one taint mark operation: the marks and the opcode printed on
  \<open>prof_stream\<close> are the key, its \<open>int\<close> counter is incremented, and the stream is reset.\<close>

definition count_markop :: "bool \<Rightarrow> opcode \<Rightarrow> taint_state \<Rightarrow> taint_state" where
  "count_markop on opcode s =
     (if on then
        let key = prof_stream s @ show_dec (unat opcode) in
        s\<lparr>profilingMap := map_put (profilingMap s) key
             (case map_find (profilingMap s) key of Some n \<Rightarrow> n + 1 | None \<Rightarrow> 1),
          prof_stream := ''''\<rparr>
      else s)"

section \<open>Reading taint\<close>

definition ClearTaintSet :: "slot \<Rightarrow> opcode \<Rightarrow> taint_state \<Rightarrow> taint_state result" where
  "ClearTaintSet x opcode s = rbind (bitset_reset (slots s x)) (\<lambda>b. Inr (set_slot x b s))"

definition TaintForRegister :: "REG \<Rightarrow> slot \<Rightarrow> opcode \<Rightarrow> taint_state \<Rightarrow> taint_state result" where
  "TaintForRegister reg x opcode s =
     rbind (case regTaintMap s reg of
              Some b \<Rightarrow> bitset_set_bits (slots s x) b
            | None \<Rightarrow> bitset_reset (slots s x))
       (\<lambda>b. pstream_bits (profiling_markop s) b (set_slot x b s))"

text \<open>One byte of the loop over the addresses in \<open>TaintForMemory\<close>; the loop state is
  \<open>marks_sep\<close>, \<open>count\<close> (an \<open>int\<close>, at its width) and the globals.\<close>

definition markop_word :: "32 word \<Rightarrow> taint_state \<Rightarrow> bool result" where
  "markop_word count s =
     (if word_mode s then
        (if word_size s = 0 then Inl Undefined else Inr (sint count smod word_size s = 0))
      else Inr True)"

definition union_byte ::
  "bool \<Rightarrow> slot \<Rightarrow> ADDRINT \<Rightarrow> string \<times> 32 word \<times> taint_state \<Rightarrow> (string \<times> 32 word \<times> taint_state) result" where
  "union_byte to_profile x addr = (\<lambda>(sep, count, s).
     case memTaintMap s addr of
       None \<Rightarrow> Inr (sep, count + 1, s)
     | Some b \<Rightarrow>
         rbind (plog_bits (profiling_marks s \<and> to_profile) sep b s) (\<lambda>s1.
         rbind (bitset_union (slots s1 x) b) (\<lambda>r.
         let s2 = set_slot x r s1 in
         rbind (if profiling_markop s2 \<and> to_profile
                then rbind (markop_word count s2) (\<lambda>now. pstream_bits now b s2)
                else Inr s2) (\<lambda>s3.
         Inr (next_sep (profiling_marks s \<and> to_profile) sep, count + 1, s3)))))"

text \<open>The base or index register of the memory operand (\<open>IMPLICIT\<close> is defined).\<close>

definition union_address_reg ::
  "pin_regs \<Rightarrow> bool \<Rightarrow> slot \<Rightarrow> REG \<Rightarrow> string \<times> taint_state \<Rightarrow> (string \<times> taint_state) result" where
  "union_address_reg P to_profile x reg = (\<lambda>(sep, s).
     if REG_valid P reg then
       (case regTaintMap s reg of
          None \<Rightarrow> Inr (sep, s)
        | Some b \<Rightarrow>
            rbind (plog_bits (profiling_marks s \<and> to_profile) sep b s) (\<lambda>s1.
            rbind (bitset_union (slots s1 x) b) (\<lambda>r.
            let s2 = set_slot x r s1 in
            rbind (pstream_bits (profiling_markop s2 \<and> to_profile) b s2) (\<lambda>s3.
            Inr (next_sep (profiling_marks s \<and> to_profile) sep, s3)))))
     else Inr (sep, s))"

definition log_address :: "bool \<Rightarrow> ADDRINT \<Rightarrow> string \<times> taint_state \<Rightarrow> string \<times> taint_state" where
  "log_address on addr = (\<lambda>(sep, s). (next_sep on sep, plog_hex on addr (plog on sep s)))"

definition TaintForMemory ::
  "pin_regs \<Rightarrow> ADDRINT \<Rightarrow> ADDRINT \<Rightarrow> REG \<Rightarrow> REG \<Rightarrow> slot \<Rightarrow> opcode \<Rightarrow> bool \<Rightarrow> taint_state \<Rightarrow> taint_state result"
where
  "TaintForMemory P start sz baseReg indexReg x opcode to_profile s =
     (let on = profiling_marks s \<and> to_profile; s1 = log_opcode on opcode s in
      rbind (bitset_reset (slots s1 x)) (\<lambda>b.
      rbind (plog_bits on ''marks:'' b (set_slot x b s1)) (\<lambda>s2.
      rbind (rfold (union_byte to_profile x) (addr_range start (start + sz))
               (next_sep on ''marks:'', 0, s2)) (\<lambda>(sep, count, s3).
      rbind (union_address_reg P to_profile x baseReg (sep, s3)) (\<lambda>st.
      rbind (union_address_reg P to_profile x indexReg st) (\<lambda>(sep, s5).
      let s6 = plog on ''u#'' (plog on ''#'' s5);
          s7 = snd (fold (log_address on) (addr_range start (start + sz)) (''memory:'', s6))
      in Inr (plog on [CHR 0x0A] s7)))))))"

section \<open>Writing taint\<close>

text \<open>The loop over the varargs: reading an argument that was not passed is undefined.\<close>

fun union_args ::
  "bool \<Rightarrow> nat \<Rightarrow> slot list \<Rightarrow> string \<times> bitset \<times> taint_state \<Rightarrow> (string \<times> bitset \<times> taint_state) result" where
  "union_args on 0 args st = Inr st"
| "union_args on (Suc n) [] st = Inl Undefined"
| "union_args on (Suc n) (x # args) (sep, tmp, s) =
     rbind (plog_bits on sep (slots s x) s) (\<lambda>s1.
     rbind (bitset_union tmp (slots s1 x)) (\<lambda>tmp'.
     union_args on n args (next_sep on sep, tmp', s1)))"

text \<open>The loop over \<open>controlTaintMap\<close> that unites the taint of the open branches.\<close>

definition union_control ::
  "bool \<Rightarrow> ADDRINT \<times> bitset \<Rightarrow> string \<times> bitset \<times> taint_state \<Rightarrow> (string \<times> bitset \<times> taint_state) result"
where
  "union_control to_profile = (\<lambda>(addr, b) (sep, acc, s).
     rbind (plog_bits (profiling_marks s \<and> to_profile) (sep @ ''cf='') b s) (\<lambda>s1.
     rbind (pstream_bits (profiling_markop s1 \<and> to_profile) b s1) (\<lambda>s2.
     rbind (bitset_union acc b) (\<lambda>acc'.
     Inr (next_sep (profiling_marks s \<and> to_profile) sep, acc', s2)))))"

definition control_taint ::
  "bool \<Rightarrow> string \<Rightarrow> taint_state \<Rightarrow> (bitset \<times> taint_state) result" where
  "control_taint to_profile sep s =
     rbind (rfold (union_control to_profile) (controlTaintMap s) (sep, bitset_init (num_marks s), s))
       (\<lambda>(sep, acc, s'). Inr (acc, s'))"

text \<open>The registers that \<open>SetTaintForRegister\<close> and \<open>ClearTaintForRegister\<close> update before
  the register itself, in the order of the code.\<close>

fun subregisters :: "REG \<Rightarrow> REG list" where
  "subregisters REG_EAX = [REG_AX, REG_AH, REG_AL]"
| "subregisters REG_EBX = [REG_BX, REG_BH, REG_BL]"
| "subregisters REG_ECX = [REG_CX, REG_CH, REG_CL]"
| "subregisters REG_EDX = [REG_DX, REG_DH, REG_DL]"
| "subregisters REG_AX = [REG_AH, REG_AL]"
| "subregisters REG_BX = [REG_BH, REG_BL]"
| "subregisters REG_CX = [REG_CH, REG_CL]"
| "subregisters REG_DX = [REG_DH, REG_DL]"
| "subregisters _ = []"

definition set_or_copy :: "bitset option \<Rightarrow> bitset \<Rightarrow> bitset result" where
  "set_or_copy old tmp = (case old of Some b \<Rightarrow> bitset_set_bits b tmp | None \<Rightarrow> bitset_copy tmp)"

definition put_register :: "bitset \<Rightarrow> REG \<Rightarrow> taint_state \<Rightarrow> taint_state result" where
  "put_register tmp reg s =
     rbind (set_or_copy (regTaintMap s reg) tmp)
       (\<lambda>b. Inr (s\<lparr>regTaintMap := (regTaintMap s)(reg \<mapsto> b)\<rparr>))"

definition log_register :: "pin_regs \<Rightarrow> bool \<Rightarrow> REG \<Rightarrow> string \<times> taint_state \<Rightarrow> string \<times> taint_state" where
  "log_register P on reg =
     (\<lambda>(sep, s). (next_sep on sep, plog on (sep @ REG_StringShort P reg) s))"

definition SetTaintForRegister ::
  "pin_regs \<Rightarrow> REG \<Rightarrow> opcode \<Rightarrow> bool \<Rightarrow> nat \<Rightarrow> slot list \<Rightarrow> taint_state \<Rightarrow> taint_state result" where
  "SetTaintForRegister P dst opcode to_profile numOfArgs args s =
     (if dst = REG_ESP \<or> dst = REG_EBP then Inr s
      else
        let on = profiling_marks s \<and> to_profile; s1 = log_opcode on opcode s in
        rbind (union_args on numOfArgs args (''marks:'', bitset_init (num_marks s1), s1))
          (\<lambda>(sep, tmp, s2).
        rbind (control_taint to_profile sep s2) (\<lambda>(controlTaint, s3).
        rbind (bitset_union tmp controlTaint) (\<lambda>tmp'.
        let s4 = count_markop (profiling_markop s3 \<and> to_profile) opcode s3;
            s5 = plog on ''u#'' (plog on ''#'' s4);
            (sep, s6) = fold (log_register P on) (subregisters dst) (''registers:'', s5)
        in
        rbind (rfold (put_register tmp') (subregisters dst) s6) (\<lambda>s7.
        put_register tmp' dst
          (plog on [CHR 0x0A] (plog on (sep @ REG_StringShort P dst) s7)))))))"

definition clear_register ::
  "pin_regs \<Rightarrow> bool \<Rightarrow> bitset \<Rightarrow> REG \<Rightarrow> string \<times> taint_state \<Rightarrow> (string \<times> taint_state) result" where
  "clear_register P on controlTaint reg = (\<lambda>(sep, s).
     case regTaintMap s reg of
       None \<Rightarrow> Inr (sep, s)
     | Some b \<Rightarrow>
         let (sep', s1) = log_register P on reg (sep, s) in
         rbind (bitset_set_bits b controlTaint) (\<lambda>b'.
         Inr (sep', s1\<lparr>regTaintMap := (regTaintMap s1)(reg \<mapsto> b')\<rparr>)))"

definition ClearTaintForRegister ::
  "pin_regs \<Rightarrow> REG \<Rightarrow> opcode \<Rightarrow> bool \<Rightarrow> taint_state \<Rightarrow> taint_state result" where
  "ClearTaintForRegister P reg opcode to_profile s =
     (let on = profiling_marks s \<and> to_profile; s1 = log_opcode on opcode s in
      rbind (plog_bits on ''marks:'' (bitset_init (num_marks s1)) s1) (\<lambda>s2.
      rbind (control_taint to_profile (next_sep on ''marks:'') s2) (\<lambda>(controlTaint, s3).
      let s4 = count_markop (profiling_markop s3 \<and> to_profile) opcode s3;
          s5 = plog on ''u#'' (plog on ''#'' s4) in
      rbind (rfold (clear_register P on controlTaint) (subregisters reg) (''registers:'', s5)) (\<lambda>st.
      rbind (clear_register P on controlTaint reg st) (\<lambda>(sep, s6).
      Inr (plog on [CHR 0x0A] s6))))))"

text \<open>One byte of the loop of \<open>SetTaintForMemory\<close> and of \<open>ClearTaintForMemory\<close>.\<close>

definition put_byte ::
  "bool \<Rightarrow> bitset \<Rightarrow> ADDRINT \<Rightarrow> string \<times> taint_state \<Rightarrow> (string \<times> taint_state) result" where
  "put_byte on tmp addr st =
     (let (sep, s) = log_address on addr st in
      rbind (set_or_copy (memTaintMap s addr) tmp)
        (\<lambda>b. Inr (sep, s\<lparr>memTaintMap := (memTaintMap s)(addr \<mapsto> b)\<rparr>)))"

definition SetTaintForMemory ::
  "ADDRINT \<Rightarrow> ADDRINT \<Rightarrow> opcode \<Rightarrow> bool \<Rightarrow> nat \<Rightarrow> slot list \<Rightarrow> taint_state \<Rightarrow> taint_state result" where
  "SetTaintForMemory start sz opcode to_profile numOfArgs args s =
     (let on = profiling_marks s \<and> to_profile; s1 = log_opcode on opcode s in
      rbind (union_args on numOfArgs args (''marks:'', bitset_init (num_marks s), s1))
        (\<lambda>(sep, tmp, s2).
      rbind (control_taint to_profile sep s2) (\<lambda>(controlTaint, s3).
      rbind (bitset_union tmp controlTaint) (\<lambda>tmp'.
      let s4 = count_markop (profiling_markop s3 \<and> to_profile) opcode s3;
          s5 = plog on ''u#'' (plog on ''#'' s4);
          all = profiling_marks s5;
          s6 = plog_hex all start (plog all ''start:'' s5);
          s7 = plog_dec all sz (plog all ''sized:'' s6);
          s8 = plog_hex all sz (plog all ''sizeh:'' s7)
      in
      rbind (rfold (put_byte on tmp') (addr_range start (start + sz)) (''memory:'', s8)) (\<lambda>(sep, s9).
      Inr (plog on [CHR 0x0A] s9))))))"

definition clear_byte ::
  "bool \<Rightarrow> bitset \<Rightarrow> ADDRINT \<Rightarrow> string \<times> taint_state \<Rightarrow> (string \<times> taint_state) result" where
  "clear_byte on controlTaint addr = (\<lambda>(sep, s).
     case memTaintMap s addr of
       None \<Rightarrow> Inr (sep, s)
     | Some b \<Rightarrow>
         let (sep', s1) = log_address on addr (sep, s) in
         rbind (bitset_set_bits b controlTaint) (\<lambda>b'.
         Inr (sep', s1\<lparr>memTaintMap := (memTaintMap s1)(addr \<mapsto> b')\<rparr>)))"

definition ClearTaintForMemory ::
  "ADDRINT \<Rightarrow> ADDRINT \<Rightarrow> opcode \<Rightarrow> bool \<Rightarrow> taint_state \<Rightarrow> taint_state result" where
  "ClearTaintForMemory start sz opcode to_profile s =
     (let on = profiling_marks s \<and> to_profile; s1 = log_opcode on opcode s in
      rbind (plog_bits on ''marks:'' (bitset_init (num_marks s1)) s1) (\<lambda>s2.
      rbind (control_taint to_profile (next_sep on ''marks:'') s2) (\<lambda>(controlTaint, s3).
      let s4 = count_markop (profiling_markop s3 \<and> to_profile) opcode s3;
          s5 = plog on ''u#'' (plog on ''#'' s4) in
      rbind (rfold (clear_byte on controlTaint) (addr_range start (start + sz)) (''memory:'', s5))
        (\<lambda>(sep, s6). Inr (plog on [CHR 0x0A] s6)))))"

section \<open>Control flow taint and new taint\<close>

definition PushControl :: "ADDRINT \<Rightarrow> taint_state \<Rightarrow> taint_state result" where
  "PushControl addr s =
     (case regTaintMap s REG_EFLAGS of
        None \<Rightarrow> Inr s
      | Some fl \<Rightarrow>
          rbind (bitset_is_empty fl) (\<lambda>empty.
          if empty then Inr s
          else
            rbind (bitset_union
                     (case map_find (controlTaintMap s) addr of
                        None \<Rightarrow> bitset_init (num_marks s)
                      | Some b \<Rightarrow> b) fl)
              (\<lambda>b. Inr (s\<lparr>controlTaintMap := map_put (controlTaintMap s) addr b\<rparr>))))"

fun PopControl :: "nat \<Rightarrow> ADDRINT list \<Rightarrow> taint_state \<Rightarrow> taint_state result" where
  "PopControl 0 addrs s = Inr s"
| "PopControl (Suc n) [] s = Inl Undefined"
| "PopControl (Suc n) (addr # addrs) s =
     (case map_find (controlTaintMap s) addr of
        None \<Rightarrow> Inr s
      | Some b \<Rightarrow>
          PopControl n addrs (s\<lparr>controlTaintMap := map_erase (controlTaintMap s) addr\<rparr>))"

definition SetNewTaintForMemory ::
  "ADDRINT \<Rightarrow> ADDRINT \<Rightarrow> int \<Rightarrow> taint_state \<Rightarrow> taint_state result" where
  "SetNewTaintForMemory addr sz taint_mark s =
     rbind (if taint_mark = -1 then
              (case taintGen s of
                 None \<Rightarrow> Inl Assert_failed
               | Some g \<Rightarrow>
                   rbind (nextTaintMark g) (\<lambda>(m, g'). Inr (m, s\<lparr>taintGen := Some g'\<rparr>)))
            else if taint_mark \<ge> NUMBER_OF_TAINT_MARKS s then Inl (Abort ''Illegal taint mark'')
            else Inr (taint_mark, s)) (\<lambda>(m, s1).
     rbind (bitset_set_bit (bitset_init (num_marks s1)) (word_of_int m)) (\<lambda>tmp.
     rfold (\<lambda>address s. rbind (bitset_copy tmp)
              (\<lambda>b. Inr (s\<lparr>memTaintMap := (memTaintMap s)(address \<mapsto> b)\<rparr>)))
       (addr_range addr (addr + sz)) s1))"

definition SetNewTaintStart :: "taint_state \<Rightarrow> taint_state result" where
  "SetNewTaintStart s =
     (case taintGen s of
        None \<Rightarrow> Inl Undefined
      | Some g \<Rightarrow> Inr (s\<lparr>taintGen := Some (setStart (getCurrent g) g)\<rparr>))"

text \<open>The lines that the fini function prints: the counters, in the order of the keys.\<close>

definition show_int_base :: "nat \<Rightarrow> 32 word \<Rightarrow> string" where
  "show_int_base b n =
     (if b = 16 then show_hex n
      else if sint n < 0 then CHR ''-'' # show_dec (nat (- sint n)) else show_dec (nat (sint n)))"

definition PrintProfilingResult :: "taint_state \<Rightarrow> taint_state" where
  "PrintProfilingResult s =
     fold (\<lambda>(key, n) s. plog True (show_int_base (prof_base s) n @ [CHR 0x09] @ key @ [CHR 0x0A]) s)
       (profilingMap s) s"

end
