(* ===== verification/Function_Taint_Source.thy ===== *)
theory Function_Taint_Source
  imports Taint_State
begin

text \<open>
  The source of taint for the return values of functions (\<open>taint_source_func.cpp\<close>).

  The object holds the names of functions. When an image is loaded, a call of
  \<open>taint_return_val\<close> is inserted behind every routine of the image that has one of the names; the
  argument \<open>byname\<close> stands for \<open>RTN_FindByName\<close>, with \<open>None\<close> for a routine that is not valid.
  \<open>set_framework_options\<close> creates such objects but never gives them a name.
\<close>

record FunctionTaintSource =
  func_names :: "string list"

definition new_FunctionTaintSource :: FunctionTaintSource where
  "new_FunctionTaintSource = \<lparr>func_names = []\<rparr>"

text \<open>The generator that comes with the name is not used.\<close>

definition addFunctionSource :: "string \<Rightarrow> taint_generator \<Rightarrow> FunctionTaintSource \<Rightarrow> FunctionTaintSource" where
  "addFunctionSource funcName gen src = src\<lparr>func_names := func_names src @ [funcName]\<rparr>"

text \<open>The body of \<open>taint_return_val\<close> is empty.\<close>

definition taint_return_val :: "taint_state \<Rightarrow> taint_state" where
  "taint_return_val s = s"

text \<open>The routines behind which a call is inserted, in the order of insertion.\<close>

fun insert_return_calls :: "(string \<Rightarrow> 'rtn option) \<Rightarrow> string list \<Rightarrow> 'rtn list" where
  "insert_return_calls byname [] = []"
| "insert_return_calls byname (s # ss) =
     (case byname s of None \<Rightarrow> [] | Some rout \<Rightarrow> [rout]) @ insert_return_calls byname ss"

definition ImageLoad :: "(string \<Rightarrow> 'rtn option) \<Rightarrow> FunctionTaintSource \<Rightarrow> 'rtn list" where
  "ImageLoad byname src = insert_return_calls byname (func_names src)"

text \<open>The inserted calls that run when the routine returns.\<close>

definition routine_returns :: "'rtn \<Rightarrow> 'rtn list \<Rightarrow> taint_state \<Rightarrow> taint_state" where
  "routine_returns rout calls s = fold (\<lambda>r s. if r = rout then taint_return_val s else s) calls s"

lemma insert_return_calls_set: "set (insert_return_calls byname ss) = {rout. \<exists>s \<in> set ss. byname s = Some rout}"
  by (induction ss) (auto split: option.splits)

lemma ImageLoad_routines: "set (ImageLoad byname src) = {rout. \<exists>s \<in> set (func_names src). byname s = Some rout}"
  by (simp add: ImageLoad_def insert_return_calls_set)

lemma ImageLoad_new [simp]: "ImageLoad byname new_FunctionTaintSource = []"
  by (simp add: ImageLoad_def new_FunctionTaintSource_def)

lemma routine_returns_same: "routine_returns rout calls s = s"
  by (induction calls arbitrary: s) (auto simp: routine_returns_def taint_return_val_def)

end
