(* ===== verification/Taint_Refine.thy ===== *)
theory Taint_Refine
  imports Taint_State
begin

text \<open>
  The taint operations as operations on sets of marks. \<open>tview\<close> reads a taint state as
  maps from registers, addresses and open branches to sets of marks; \<open>state_inv\<close> is the
  invariant under which every bitset has the configured number of bits. Each operation is
  total under the invariant, keeps it and the configuration, and changes the view as the
  pure function named after it with the prefix \<open>v_\<close> does: the profiling output has no
  influence on it.
\<close>

section \<open>View and invariant\<close>

record taint_view =
  v_reg :: "REG \<Rightarrow> mark set option"
  v_mem :: "ADDRINT \<Rightarrow> mark set option"
  v_ctl :: "ADDRINT \<Rightarrow> mark set option"
  v_slot :: "slot \<Rightarrow> mark set"

definition tview :: "taint_state \<Rightarrow> taint_view" where
  "tview s = \<lparr>v_reg = (\<lambda>r. map_option marks (regTaintMap s r)),
              v_mem = (\<lambda>a. map_option marks (memTaintMap s a)),
              v_ctl = (\<lambda>a. map_option marks (map_find (controlTaintMap s) a)),
              v_slot = (\<lambda>x. marks (slots s x))\<rparr>"

lemma tview_sel [simp]:
  "v_reg (tview s) r = map_option marks (regTaintMap s r)"
  "v_mem (tview s) a = map_option marks (memTaintMap s a)"
  "v_ctl (tview s) a = map_option marks (map_find (controlTaintMap s) a)"
  "v_slot (tview s) x = marks (slots s x)"
  by (simp_all add: tview_def)

text \<open>The marks of a map entry, none when there is no entry.\<close>

definition marks_of :: "mark set option \<Rightarrow> mark set" where
  "marks_of m = (case m of Some x \<Rightarrow> x | None \<Rightarrow> {})"

lemma marks_of_simps [simp]: "marks_of None = {}" "marks_of (Some m) = m"
  by (simp_all add: marks_of_def)

definition reg_marks :: "taint_state \<Rightarrow> REG \<Rightarrow> mark set" where
  "reg_marks s r = marks_of (v_reg (tview s) r)"

definition mem_marks :: "taint_state \<Rightarrow> ADDRINT \<Rightarrow> mark set" where
  "mem_marks s a = marks_of (v_mem (tview s) a)"

definition slot_marks :: "taint_state \<Rightarrow> slot \<Rightarrow> mark set" where
  "slot_marks s x = v_slot (tview s) x"

definition ctl_marks :: "taint_view \<Rightarrow> mark set" where
  "ctl_marks v = \<Union> (ran (v_ctl v))"

text \<open>What is in \<open>prof.log\<close> when nothing more can be written to it.\<close>

definition dead_log :: "taint_state \<Rightarrow> string" where
  "dead_log s = (if prof_ok s then [] else prof_log s)"

lemma dead_log_upd [simp]:
  "dead_log (s\<lparr>regTaintMap := r\<rparr>) = dead_log s" "dead_log (s\<lparr>memTaintMap := m\<rparr>) = dead_log s"
  "dead_log (s\<lparr>controlTaintMap := c\<rparr>) = dead_log s" "dead_log (s\<lparr>slots := x\<rparr>) = dead_log s"
  "dead_log (s\<lparr>taintGen := g\<rparr>) = dead_log s"
  by (simp_all add: dead_log_def)

text \<open>The settings that no taint operation of an instrumented program changes.\<close>

type_synonym settings = "int \<times> taint_generator option \<times> bool \<times> bool \<times> bool \<times> int \<times> bool \<times> string"

definition cfg :: "taint_state \<Rightarrow> settings" where
  "cfg s = (NUMBER_OF_TAINT_MARKS s, taintGen s, profiling_marks s, profiling_markop s,
            word_mode s, word_size s, prof_ok s, dead_log s)"

definition wf_map :: "size_t \<Rightarrow> ('k \<Rightarrow> bitset option) \<Rightarrow> bool" where
  "wf_map nb m \<longleftrightarrow> (\<forall>k b. m k = Some b \<longrightarrow> bitset_wf nb b)"

definition state_inv :: "taint_state \<Rightarrow> bool" where
  "state_inv s \<longleftrightarrow>
     0 < NUMBER_OF_TAINT_MARKS s \<and> NUMBER_OF_TAINT_MARKS s < 2 ^ 31 \<and>
     wf_map (num_marks s) (regTaintMap s) \<and> wf_map (num_marks s) (memTaintMap s) \<and>
     wf_map (num_marks s) (map_find (controlTaintMap s)) \<and>
     (\<forall>x. bitset_wf (num_marks s) (slots s x)) \<and>
     stdmap_inv (controlTaintMap s) \<and> stdmap_inv (profilingMap s) \<and>
     (word_mode s \<longrightarrow> word_size s \<noteq> 0)"

lemma wf_mapD: "wf_map nb m \<Longrightarrow> m k = Some b \<Longrightarrow> bitset_wf nb b"
  by (simp add: wf_map_def)

lemma wf_map_upd [simp]: "wf_map nb m \<Longrightarrow> bitset_wf nb b \<Longrightarrow> wf_map nb (m(k \<mapsto> b))"
  by (simp add: wf_map_def)

lemma state_invD:
  assumes "state_inv s"
  shows "0 < NUMBER_OF_TAINT_MARKS s" "NUMBER_OF_TAINT_MARKS s < 2 ^ 31"
    "wf_map (num_marks s) (regTaintMap s)" "wf_map (num_marks s) (memTaintMap s)"
    "wf_map (num_marks s) (map_find (controlTaintMap s))" "bitset_wf (num_marks s) (slots s x)"
    "stdmap_inv (controlTaintMap s)" "stdmap_inv (profilingMap s)" "word_mode s \<Longrightarrow> word_size s \<noteq> 0"
  using assms by (auto simp: state_inv_def)

lemma unat_num_marks:
  "state_inv s \<Longrightarrow> unat (num_marks s) = nat (NUMBER_OF_TAINT_MARKS s)"
  using state_invD(1,2)[of s]
  by (simp add: num_marks_def unat_eq_nat_uint uint_word_of_int)

lemma nbits_ok_num_marks: "state_inv s \<Longrightarrow> nbits_ok (num_marks s)"
  using state_invD(1,2)[of s] unat_num_marks[of s] by (simp add: nbits_ok_def)

section \<open>Profiling steps\<close>

text \<open>A step that changes nothing but the profiling output.\<close>

definition core :: "taint_state \<Rightarrow> taint_state" where
  "core s = s\<lparr>prof_log := dead_log s, prof_base := 10, prof_stream := '''', profilingMap := []\<rparr>"

definition prof_step :: "taint_state \<Rightarrow> taint_state \<Rightarrow> bool" where
  "prof_step s s' \<longleftrightarrow>
     core s' = core s \<and> (stdmap_inv (profilingMap s) \<longrightarrow> stdmap_inv (profilingMap s'))"

lemma prof_step_refl [simp]: "prof_step s s"
  by (simp add: prof_step_def)

lemma prof_step_trans: "prof_step s s1 \<Longrightarrow> prof_step s1 s2 \<Longrightarrow> prof_step s s2"
  by (simp add: prof_step_def)

lemma prof_step_fields:
  assumes "prof_step s s'"
  shows "regTaintMap s' = regTaintMap s" "memTaintMap s' = memTaintMap s"
    "controlTaintMap s' = controlTaintMap s" "slots s' = slots s"
    "NUMBER_OF_TAINT_MARKS s' = NUMBER_OF_TAINT_MARKS s" "taintGen s' = taintGen s"
    "profiling_marks s' = profiling_marks s" "profiling_markop s' = profiling_markop s"
    "word_mode s' = word_mode s" "word_size s' = word_size s" "num_marks s' = num_marks s"
    "prof_ok s' = prof_ok s" "dead_log s' = dead_log s"
  using assms by (cases s; cases s'; simp add: prof_step_def core_def num_marks_def dead_log_def)+

lemma prof_step_inv: "prof_step s s' \<Longrightarrow> state_inv s \<Longrightarrow> state_inv s'"
  using prof_step_fields[of s s'] by (simp add: state_inv_def prof_step_def)

lemma prof_step_cfg: "prof_step s s' \<Longrightarrow> cfg s' = cfg s"
  using prof_step_fields[of s s'] by (simp add: cfg_def)

lemma prof_step_tview: "prof_step s s' \<Longrightarrow> tview s' = tview s"
  using prof_step_fields[of s s'] by (simp add: tview_def)

lemma plog_prof_step [simp]: "prof_step s (plog on txt s)"
  by (cases s) (simp add: prof_step_def core_def plog_def dead_log_def)

lemma plog_dec_prof_step [simp]: "prof_step s (plog_dec on n s)"
  by (cases s) (simp add: prof_step_def core_def plog_dec_def plog_def dead_log_def)

lemma plog_hex_prof_step [simp]: "prof_step s (plog_hex on n s)"
  by (cases s) (simp add: prof_step_def core_def plog_hex_def plog_def dead_log_def)

lemma count_markop_prof_step [simp]: "prof_step s (count_markop on opcode s)"
  by (cases s) (simp add: prof_step_def core_def count_markop_def Let_def stdmap_inv_put dead_log_def)

lemmas prof_steps =
  prof_step_trans[OF _ plog_prof_step] prof_step_trans[OF _ plog_dec_prof_step]
  prof_step_trans[OF _ plog_hex_prof_step] prof_step_trans[OF _ count_markop_prof_step]

lemma log_opcode_prof_step [simp]: "prof_step s (log_opcode on opcode s)"
  unfolding log_opcode_def by (intro prof_steps) simp

lemma plog_bits_ok: "bitset_wf nb b \<Longrightarrow> \<exists>s'. plog_bits on pre b s = Inr s' \<and> prof_step s s'"
  by (simp add: plog_bits_def bitset_str_ok)

lemma pstream_bits_ok: "bitset_wf nb b \<Longrightarrow> \<exists>s'. pstream_bits on b s = Inr s' \<and> prof_step s s'"
  by (cases s) (simp add: pstream_bits_def bitset_str_ok prof_step_def core_def dead_log_def)

lemma fold_log_address_prof_step:
  "\<exists>sep' s'. fold (log_address on) as (sep, s) = (sep', s') \<and> prof_step s s'"
proof (induction as arbitrary: sep s)
  case (Cons a as)
  have "prof_step s (plog_hex on a (plog on sep s))" by (intro prof_steps) simp
  with Cons[of "next_sep on sep" "plog_hex on a (plog on sep s)"] show ?case
    by (auto simp: log_address_def intro: prof_step_trans)
qed simp

lemma fold_log_register_prof_step:
  "\<exists>sep' s'. fold (log_register P on) rs (sep, s) = (sep', s') \<and> prof_step s s'"
proof (induction rs arbitrary: sep s)
  case (Cons r rs)
  from Cons[of "next_sep on sep" "plog on (sep @ REG_StringShort P r) s"] show ?case
    by (auto simp: log_register_def intro: prof_step_trans[OF plog_prof_step])
qed simp

section \<open>Reading taint\<close>

definition steps_to :: "taint_state \<Rightarrow> taint_state result \<Rightarrow> (taint_view \<Rightarrow> taint_view) \<Rightarrow> bool" where
  "steps_to s r f \<longleftrightarrow>
     (\<exists>s'. r = Inr s' \<and> state_inv s' \<and> cfg s' = cfg s \<and> tview s' = f (tview s))"

lemma steps_toE:
  assumes "steps_to s r f"
  obtains s' where "r = Inr s'" "state_inv s'" "cfg s' = cfg s" "tview s' = f (tview s)"
  using assms by (auto simp: steps_to_def)

lemma steps_to_id [simp]: "state_inv s \<Longrightarrow> steps_to s (Inr s) (\<lambda>v. v)"
  by (simp add: steps_to_def)

text \<open>A step that assigns a set of marks to a slot, up to profiling output.\<close>

definition slot_upd :: "slot \<Rightarrow> mark set \<Rightarrow> taint_state \<Rightarrow> taint_state \<Rightarrow> bool" where
  "slot_upd x m s s' \<longleftrightarrow>
     (\<exists>b. bitset_wf (num_marks s) b \<and> marks b = m \<and> prof_step (set_slot x b s) s')"

lemma num_marks_set_slot [simp]: "num_marks (set_slot x b s) = num_marks s"
  by (simp add: num_marks_def set_slot_def)

lemma slots_set_slot [simp]: "slots (set_slot x b s) = (slots s)(x := b)"
  by (simp add: set_slot_def)

lemma set_slot_inv: "state_inv s \<Longrightarrow> bitset_wf (num_marks s) b \<Longrightarrow> state_inv (set_slot x b s)"
  by (simp add: state_inv_def) (simp add: set_slot_def)

lemma slot_upd_fields:
  assumes "slot_upd x m s s'"
  shows "num_marks s' = num_marks s" "regTaintMap s' = regTaintMap s"
    "memTaintMap s' = memTaintMap s" "cfg s' = cfg s" "slot_marks s' x = m"
    "profiling_marks s' = profiling_marks s"
  using assms prof_step_fields[of "set_slot x _ s" s'] prof_step_cfg[of "set_slot x _ s" s']
  by (auto simp: slot_upd_def set_slot_def cfg_def num_marks_def slot_marks_def)

lemma slot_upd_inv: "slot_upd x m s s' \<Longrightarrow> state_inv s \<Longrightarrow> state_inv s'"
  by (auto simp: slot_upd_def intro: prof_step_inv set_slot_inv)

lemma tview_set_slot: "tview (set_slot x b s) = (tview s)\<lparr>v_slot := (v_slot (tview s))(x := marks b)\<rparr>"
  by (simp add: tview_def set_slot_def fun_eq_iff)

lemma slot_upd_tview:
  assumes "slot_upd x m s s'"
  shows "tview s' = (tview s)\<lparr>v_slot := (v_slot (tview s))(x := m)\<rparr>"
  using assms tview_set_slot by (auto simp: slot_upd_def dest!: prof_step_tview)

lemma slot_upd_steps_to:
  "state_inv s \<Longrightarrow> slot_upd x m s s' \<Longrightarrow>
     steps_to s (Inr s') (\<lambda>v. v\<lparr>v_slot := (v_slot v)(x := m)\<rparr>)"
  by (simp add: steps_to_def slot_upd_inv slot_upd_fields slot_upd_tview)

lemma slot_upd_trans: "slot_upd x m s s1 \<Longrightarrow> slot_upd x m' s1 s2 \<Longrightarrow> slot_upd x m' s s2"
proof -
  assume "slot_upd x m s s1" "slot_upd x m' s1 s2"
  then obtain b b' where b: "prof_step (set_slot x b s) s1"
      "bitset_wf (num_marks s1) b'" "marks b' = m'" "prof_step (set_slot x b' s1) s2"
    by (auto simp: slot_upd_def)
  then have "prof_step (set_slot x b' s) s2"
    by (cases s; cases s1) (auto simp: prof_step_def core_def set_slot_def dead_log_def split: if_splits)
  with b prof_step_fields(11)[OF b(1)] show ?thesis by (auto simp: slot_upd_def)
qed

lemma slot_upd_prof: "slot_upd x m s s1 \<Longrightarrow> prof_step s1 s2 \<Longrightarrow> slot_upd x m s s2"
  by (auto simp: slot_upd_def intro: prof_step_trans)

lemma prof_slot_upd: "prof_step s s1 \<Longrightarrow> slot_upd x m s1 s2 \<Longrightarrow> slot_upd x m s s2"
proof -
  assume p: "prof_step s s1" and "slot_upd x m s1 s2"
  then obtain b where b: "bitset_wf (num_marks s1) b" "marks b = m" "prof_step (set_slot x b s1) s2"
    by (auto simp: slot_upd_def)
  with p have "prof_step (set_slot x b s) s2"
    by (cases s; cases s1) (auto simp: prof_step_def core_def set_slot_def dead_log_def split: if_splits)
  with b prof_step_fields(11)[OF p] show ?thesis by (auto simp: slot_upd_def)
qed

lemma slot_upd_set: "bitset_wf (num_marks s) b \<Longrightarrow> slot_upd x (marks b) s (set_slot x b s)"
  by (auto simp: slot_upd_def)

lemma slot_upd_same: "state_inv s \<Longrightarrow> slot_upd x (slot_marks s x) s s"
proof -
  assume "state_inv s"
  moreover have "set_slot x (slots s x) s = s" by (simp add: set_slot_def)
  ultimately show ?thesis
    using state_invD(6)[of s x] by (auto simp: slot_upd_def slot_marks_def intro!: exI[of _ "slots s x"])
qed

definition v_clear_slot :: "slot \<Rightarrow> taint_view \<Rightarrow> taint_view" where
  "v_clear_slot x v = v\<lparr>v_slot := (v_slot v)(x := {})\<rparr>"

definition v_load_reg :: "REG \<Rightarrow> slot \<Rightarrow> taint_view \<Rightarrow> taint_view" where
  "v_load_reg reg x v = v\<lparr>v_slot := (v_slot v)(x := marks_of (v_reg v reg))\<rparr>"

lemma reset_slot_upd:
  assumes "state_inv s"
  shows "\<exists>b. bitset_reset (slots s x) = Inr b \<and> b = bitset_init (num_marks s) \<and>
    bitset_wf (num_marks s) b \<and> slot_upd x {} s (set_slot x b s)"
  using assms nbits_ok_num_marks[OF assms] slot_upd_set[of s "bitset_init (num_marks s)" x]
  by (simp add: bitset_reset_ok[OF state_invD(6)] bitset_init_wf marks_bitset_init)

lemma ClearTaintSet_refines:
  "state_inv s \<Longrightarrow> steps_to s (ClearTaintSet x opcode s) (v_clear_slot x)"
  using reset_slot_upd[of s x] slot_upd_steps_to[of s x "{}"]
  by (auto simp: ClearTaintSet_def v_clear_slot_def[abs_def])

lemma TaintForRegister_refines:
  assumes inv: "state_inv s"
  shows "steps_to s (TaintForRegister reg x opcode s) (v_load_reg reg x)"
proof -
  let ?r = "case regTaintMap s reg of Some b \<Rightarrow> bitset_set_bits (slots s x) b
    | None \<Rightarrow> bitset_reset (slots s x)"
  have "\<exists>b. ?r = Inr b \<and> bitset_wf (num_marks s) b \<and> marks b = reg_marks s reg"
  proof (cases "regTaintMap s reg")
    case None
    then show ?thesis
      using reset_slot_upd[OF inv, of x] nbits_ok_num_marks[OF inv]
      by (auto simp: reg_marks_def marks_bitset_init)
  next
    case (Some b)
    then show ?thesis
      using bitset_set_bits_ok[OF state_invD(6)[OF inv] wf_mapD[OF state_invD(3)[OF inv] Some]]
        wf_mapD[OF state_invD(3)[OF inv] Some] by (simp add: reg_marks_def)
  qed
  then obtain b where b: "?r = Inr b" "bitset_wf (num_marks s) b" "marks b = reg_marks s reg"
    by blast
  obtain s' where s': "pstream_bits (profiling_markop s) b (set_slot x b s) = Inr s'"
      "prof_step (set_slot x b s) s'"
    using pstream_bits_ok[OF b(2)] by blast
  have "slot_upd x (reg_marks s reg) s s'"
    using slot_upd_prof[OF slot_upd_set[OF b(2)] s'(2)] b(3) by simp
  from slot_upd_steps_to[OF inv this] show ?thesis
    using b(1) s'(1) by (simp add: TaintForRegister_def v_load_reg_def steps_to_def reg_marks_def)
qed

text \<open>Uniting one more entry with a slot, with its profiling output before and after.\<close>

lemma union_slot_upd:
  assumes inv: "state_inv s" and b: "bitset_wf (num_marks s) b" and p: "prof_step s s1"
  shows "\<exists>r. bitset_union (slots s1 x) b = Inr r \<and> slot_upd x (slot_marks s x \<union> marks b) s (set_slot x r s1)
    \<and> bitset_wf (num_marks s) r"
proof -
  obtain r where r: "bitset_union (slots s x) b = Inr r" "bitset_wf (num_marks s) r"
      "marks r = slot_marks s x \<union> marks b"
    using bitset_union_ok[OF state_invD(6)[OF inv] b] by (auto simp: slot_marks_def)
  have "slot_upd x (marks r) s1 (set_slot x r s1)"
    using r(2) prof_step_fields(11)[OF p] by (intro slot_upd_set) simp
  with r prof_slot_upd[OF p] prof_step_fields(4)[OF p] show ?thesis by auto
qed

lemma union_byte_ok:
  assumes inv: "state_inv s"
  shows "\<exists>sep' count' s'. union_byte to_profile x a (sep, count, s) = Inr (sep', count', s') \<and>
    slot_upd x (slot_marks s x \<union> mem_marks s a) s s'"
proof (cases "memTaintMap s a")
  case None
  then show ?thesis
    using slot_upd_same[OF inv] by (simp add: union_byte_def mem_marks_def)
next
  case (Some b)
  note b = wf_mapD[OF state_invD(4)[OF inv] Some]
  let ?on = "profiling_marks s \<and> to_profile"
  obtain s1 where s1: "plog_bits ?on sep b s = Inr s1" "prof_step s s1"
    using plog_bits_ok[OF b] by blast
  obtain r where r: "bitset_union (slots s1 x) b = Inr r"
      "slot_upd x (slot_marks s x \<union> marks b) s (set_slot x r s1)"
    using union_slot_upd[OF inv b s1(2)] by blast
  let ?s2 = "set_slot x r s1"
  have "word_mode ?s2 \<Longrightarrow> word_size ?s2 \<noteq> 0"
    using state_invD(9)[OF slot_upd_inv[OF r(2) inv]] .
  then obtain now where "markop_word count ?s2 = Inr now"
    by (cases "word_mode ?s2") (auto simp: markop_word_def)
  then obtain s3 where s3: "(if profiling_markop ?s2 \<and> to_profile
      then rbind (markop_word count ?s2) (\<lambda>now. pstream_bits now b ?s2) else Inr ?s2) = Inr s3"
      "prof_step ?s2 s3"
    using pstream_bits_ok[OF b, of now ?s2] by (cases "profiling_markop ?s2 \<and> to_profile") auto
  have "union_byte to_profile x a (sep, count, s) = Inr (next_sep ?on sep, count + 1, s3)"
    using s1(1) r(1) s3(1) Some by (simp add: union_byte_def Let_def)
  with slot_upd_prof[OF r(2) s3(2)] Some show ?thesis by (simp add: mem_marks_def)
qed

lemma mem_marks_slot_upd: "slot_upd x m s s' \<Longrightarrow> mem_marks s' = mem_marks s"
  by (rule ext) (simp add: mem_marks_def slot_upd_fields)

lemma reg_marks_slot_upd: "slot_upd x m s s' \<Longrightarrow> reg_marks s' = reg_marks s"
  by (rule ext) (simp add: reg_marks_def slot_upd_fields)

lemma union_bytes_ok:
  "state_inv s \<Longrightarrow> \<exists>sep' count' s'. rfold (union_byte to_profile x) as (sep, count, s) = Inr (sep', count', s') \<and>
    slot_upd x (slot_marks s x \<union> \<Union> (mem_marks s ` set as)) s s'"
proof (induction as arbitrary: sep count s)
  case Nil
  then show ?case by (simp add: slot_upd_same)
next
  case (Cons a as)
  from union_byte_ok[OF Cons.prems] obtain sep1 count1 s1
    where 1: "union_byte to_profile x a (sep, count, s) = Inr (sep1, count1, s1)"
      "slot_upd x (slot_marks s x \<union> mem_marks s a) s s1" by blast
  from Cons.IH[OF slot_upd_inv[OF 1(2) Cons.prems], of sep1 count1]
  obtain sep2 count2 s2
    where 2: "rfold (union_byte to_profile x) as (sep1, count1, s1) = Inr (sep2, count2, s2)"
      "slot_upd x (slot_marks s1 x \<union> \<Union> (mem_marks s1 ` set as)) s1 s2"
    by blast
  from 1(1) 2(1) have "rfold (union_byte to_profile x) (a # as) (sep, count, s) = Inr (sep2, count2, s2)"
    by simp
  moreover have "slot_upd x (slot_marks s x \<union> \<Union> (mem_marks s ` set (a # as))) s s2"
    using slot_upd_trans[OF 1(2) 2(2)] slot_upd_fields(5)[OF 1(2)] mem_marks_slot_upd[OF 1(2)]
    by (simp add: Un_assoc)
  ultimately show ?case by blast
qed

lemma union_address_reg_ok:
  assumes inv: "state_inv s"
  shows "\<exists>sep' s'. union_address_reg P to_profile x reg (sep, s) = Inr (sep', s') \<and>
    slot_upd x (slot_marks s x \<union> (if REG_valid P reg then reg_marks s reg else {})) s s'"
proof (cases "REG_valid P reg \<and> regTaintMap s reg \<noteq> None")
  case False
  then show ?thesis
    using slot_upd_same[OF inv] by (auto simp: union_address_reg_def reg_marks_def)
next
  case True
  then obtain b where Some: "regTaintMap s reg = Some b" by auto
  note b = wf_mapD[OF state_invD(3)[OF inv] Some]
  let ?on = "profiling_marks s \<and> to_profile"
  obtain s1 where s1: "plog_bits ?on sep b s = Inr s1" "prof_step s s1"
    using plog_bits_ok[OF b] by blast
  obtain r where r: "bitset_union (slots s1 x) b = Inr r"
      "slot_upd x (slot_marks s x \<union> marks b) s (set_slot x r s1)"
    using union_slot_upd[OF inv b s1(2)] by blast
  let ?s2 = "set_slot x r s1"
  obtain s3 where s3: "pstream_bits (profiling_markop ?s2 \<and> to_profile) b ?s2 = Inr s3" "prof_step ?s2 s3"
    using pstream_bits_ok[OF b] by blast
  have "union_address_reg P to_profile x reg (sep, s) = Inr (next_sep ?on sep, s3)"
    using s1(1) r(1) s3(1) Some True by (simp add: union_address_reg_def Let_def)
  with slot_upd_prof[OF r(2) s3(2)] Some True show ?thesis by (simp add: reg_marks_def)
qed

definition v_mem_marks :: "pin_regs \<Rightarrow> ADDRINT \<Rightarrow> ADDRINT \<Rightarrow> REG \<Rightarrow> REG \<Rightarrow> taint_view \<Rightarrow> mark set" where
  "v_mem_marks P start sz baseReg indexReg v =
     (\<Union>a \<in> {start..<start + sz}. marks_of (v_mem v a)) \<union>
     (if REG_valid P baseReg then marks_of (v_reg v baseReg) else {}) \<union>
     (if REG_valid P indexReg then marks_of (v_reg v indexReg) else {})"

definition v_load_mem ::
  "pin_regs \<Rightarrow> ADDRINT \<Rightarrow> ADDRINT \<Rightarrow> REG \<Rightarrow> REG \<Rightarrow> slot \<Rightarrow> taint_view \<Rightarrow> taint_view" where
  "v_load_mem P start sz baseReg indexReg x v =
     v\<lparr>v_slot := (v_slot v)(x := v_mem_marks P start sz baseReg indexReg v)\<rparr>"

lemma TaintForMemory_upd:
  assumes inv: "state_inv s"
  shows "\<exists>s'. TaintForMemory P start sz baseReg indexReg x opcode to_profile s = Inr s' \<and>
    slot_upd x (v_mem_marks P start sz baseReg indexReg (tview s)) s s'"
proof -
  let ?on = "profiling_marks s \<and> to_profile"
  let ?as = "addr_range start (start + sz)"
  define s1 where "s1 = log_opcode ?on opcode s"
  have p1: "prof_step s s1" by (simp add: s1_def)
  note inv1 = prof_step_inv[OF p1 inv]
  from reset_slot_upd[OF inv1] obtain b where b: "bitset_reset (slots s1 x) = Inr b"
      "bitset_wf (num_marks s1) b" "slot_upd x {} s1 (set_slot x b s1)" by blast
  obtain s2 where s2: "plog_bits ?on ''marks:'' b (set_slot x b s1) = Inr s2" "prof_step (set_slot x b s1) s2"
    using plog_bits_ok[OF b(2)] by blast
  have u2: "slot_upd x {} s s2" using prof_slot_upd[OF p1 slot_upd_prof[OF b(3) s2(2)]] .
  note inv2 = slot_upd_inv[OF u2 inv]
  obtain sep3 count s3 where s3: "rfold (union_byte to_profile x) ?as (next_sep ?on ''marks:'', 0, s2) = Inr (sep3, count, s3)"
      "slot_upd x (slot_marks s2 x \<union> \<Union> (mem_marks s2 ` set ?as)) s2 s3"
    using union_bytes_ok[OF inv2] by blast
  note inv3 = slot_upd_inv[OF s3(2) inv2]
  obtain sep4 s4 where s4: "union_address_reg P to_profile x baseReg (sep3, s3) = Inr (sep4, s4)"
      "slot_upd x (slot_marks s3 x \<union> (if REG_valid P baseReg then reg_marks s3 baseReg else {})) s3 s4"
    using union_address_reg_ok[OF inv3] by blast
  note inv4 = slot_upd_inv[OF s4(2) inv3]
  obtain sep5 s5 where s5: "union_address_reg P to_profile x indexReg (sep4, s4) = Inr (sep5, s5)"
      "slot_upd x (slot_marks s4 x \<union> (if REG_valid P indexReg then reg_marks s4 indexReg else {})) s4 s5"
    using union_address_reg_ok[OF inv4] by blast
  let ?s6 = "plog ?on ''u#'' (plog ?on ''#'' s5)"
  let ?s8 = "plog ?on [CHR 0x0A] (snd (fold (log_address ?on) ?as (''memory:'', ?s6)))"
  have "prof_step s5 ?s6" by (intro prof_steps) simp
  then have p8: "prof_step s5 ?s8"
    using fold_log_address_prof_step[of ?on ?as "''memory:''" ?s6]
    by (auto intro!: prof_steps intro: prof_step_trans)
  note upds = u2 s3(2) s4(2) s5(2)
  have "slot_upd x (v_mem_marks P start sz baseReg indexReg (tview s)) s ?s8"
    using slot_upd_prof[OF slot_upd_trans[OF slot_upd_trans[OF slot_upd_trans[OF u2 s3(2)] s4(2)] s5(2)] p8]
    by (simp add: v_mem_marks_def upds[THEN slot_upd_fields(5)] upds[THEN mem_marks_slot_upd]
        upds[THEN reg_marks_slot_upd] set_addr_range cong: if_cong split del: if_split)
      (simp add: mem_marks_def reg_marks_def cong: if_cong split del: if_split)
  moreover have "TaintForMemory P start sz baseReg indexReg x opcode to_profile s = Inr ?s8"
    using b(1) s2(1) s3(1) s4(1) s5(1) by (simp add: TaintForMemory_def Let_def s1_def[symmetric])
  ultimately show ?thesis by blast
qed

lemma TaintForMemory_refines:
  "state_inv s \<Longrightarrow> steps_to s (TaintForMemory P start sz baseReg indexReg x opcode to_profile s)
     (v_load_mem P start sz baseReg indexReg x)"
  using TaintForMemory_upd[of s] slot_upd_steps_to[of s x]
  by (fastforce simp: v_load_mem_def steps_to_def)

section \<open>Writing taint\<close>

lemma union_args_ok:
  "state_inv s \<Longrightarrow> n \<le> length args \<Longrightarrow> bitset_wf (num_marks s) tmp \<Longrightarrow>
   \<exists>sep' tmp' s'. union_args on n args (sep, tmp, s) = Inr (sep', tmp', s') \<and> prof_step s s' \<and>
     bitset_wf (num_marks s) tmp' \<and> marks tmp' = marks tmp \<union> \<Union> (slot_marks s ` set (take n args))"
proof (induction n arbitrary: args sep tmp s)
  case 0
  then show ?case by auto
next
  case (Suc n)
  from Suc.prems(2) obtain x xs where args: "args = x # xs" by (cases args) auto
  obtain s1 where s1: "plog_bits on sep (slots s x) s = Inr s1" "prof_step s s1"
    using plog_bits_ok[OF state_invD(6)[OF Suc.prems(1)]] by blast
  note f = prof_step_fields[OF s1(2)]
  obtain r where r: "bitset_union tmp (slots s x) = Inr r" "bitset_wf (num_marks s) r"
      "marks r = marks tmp \<union> slot_marks s x"
    using bitset_union_ok[OF Suc.prems(3) state_invD(6)[OF Suc.prems(1)]]
    by (auto simp: slot_marks_def)
  have sm: "slot_marks s1 = slot_marks s" by (simp add: fun_eq_iff slot_marks_def f)
  have "n \<le> length xs" "bitset_wf (num_marks s1) r" using Suc.prems(2) args r(2) f by auto
  from Suc.IH[OF prof_step_inv[OF s1(2) Suc.prems(1)] this, of "next_sep on sep"]
  obtain sep' tmp' s' where "union_args on n xs (next_sep on sep, r, s1) = Inr (sep', tmp', s')"
      "prof_step s1 s'" "bitset_wf (num_marks s1) tmp'"
      "marks tmp' = marks r \<union> \<Union> (slot_marks s1 ` set (take n xs))"
    by blast
  then show ?case
    using s1 r f sm args by (auto simp: Un_assoc intro: prof_step_trans)
qed

lemma union_control_list_ok:
  "list_all (\<lambda>(a, b). bitset_wf nb b) es \<Longrightarrow> bitset_wf nb acc \<Longrightarrow>
   \<exists>sep' acc' s'. rfold (union_control to_profile) es (sep, acc, s) = Inr (sep', acc', s') \<and>
     prof_step s s' \<and> bitset_wf nb acc' \<and> marks acc' = marks acc \<union> \<Union> (marks ` snd ` set es)"
proof (induction es arbitrary: sep acc s)
  case (Cons e es)
  obtain a b where e: "e = (a, b)" and b: "bitset_wf nb b" using Cons.prems by (cases e) auto
  let ?on = "profiling_marks s \<and> to_profile"
  obtain s1 where s1: "plog_bits ?on (sep @ ''cf='') b s = Inr s1" "prof_step s s1"
    using plog_bits_ok[OF b] by blast
  obtain s2 where s2: "pstream_bits (profiling_markop s1 \<and> to_profile) b s1 = Inr s2" "prof_step s1 s2"
    using pstream_bits_ok[OF b] by blast
  obtain r where r: "bitset_union acc b = Inr r" "bitset_wf nb r" "marks r = marks acc \<union> marks b"
    using bitset_union_ok[OF Cons.prems(2) b] by blast
  from Cons.IH[OF _ r(2), of "next_sep ?on sep" s2] Cons.prems(1) obtain sep' acc' s'
    where "rfold (union_control to_profile) es (next_sep ?on sep, r, s2) = Inr (sep', acc', s')"
      "prof_step s2 s'" "bitset_wf nb acc'" "marks acc' = marks r \<union> \<Union> (marks ` snd ` set es)"
    by auto
  with s1 s2 r e show ?case
    by (auto simp: union_control_def Un_assoc intro: prof_step_trans)
qed simp

lemma ctl_marks_entries:
  assumes "stdmap_inv (controlTaintMap s)"
  shows "ctl_marks (tview s) = \<Union> (marks ` snd ` set (controlTaintMap s))"
proof -
  have "ran (v_ctl (tview s)) = marks ` ran (map_find (controlTaintMap s))"
    by (auto simp: ran_def)
  then show ?thesis by (simp add: ctl_marks_def sm.values_ran[OF assms])
qed

lemma control_entries_wf:
  assumes "state_inv s"
  shows "list_all (\<lambda>(a, b). bitset_wf (num_marks s) b) (controlTaintMap s)"
  using sm.set_entries[OF state_invD(7)[OF assms]] wf_mapD[OF state_invD(5)[OF assms]]
  by (auto simp: list_all_iff)

lemma control_taint_ok:
  assumes inv: "state_inv s"
  shows "\<exists>c s'. control_taint to_profile sep s = Inr (c, s') \<and> prof_step s s' \<and>
    bitset_wf (num_marks s) c \<and> marks c = ctl_marks (tview s)"
  using union_control_list_ok[OF control_entries_wf[OF inv] bitset_init_wf[OF nbits_ok_num_marks[OF inv]],
      of to_profile sep s]
  by (auto simp: control_taint_def ctl_marks_entries[OF state_invD(7)[OF inv]]
      marks_bitset_init[OF nbits_ok_num_marks[OF inv]])

text \<open>The common first part of both \<open>SetTaint\<close> operations and of both \<open>ClearTaint\<close> operations.\<close>

lemma set_prefix_ok:
  assumes inv: "state_inv s" and n: "n \<le> length args" and p: "prof_step s s1"
  shows "\<exists>sep tmp s2 c s3 r. union_args on n args (''marks:'', bitset_init (num_marks s), s1) = Inr (sep, tmp, s2) \<and>
    control_taint to_profile sep s2 = Inr (c, s3) \<and> bitset_union tmp c = Inr r \<and> prof_step s s3 \<and>
    bitset_wf (num_marks s) r \<and> marks r = \<Union> (slot_marks s ` set (take n args)) \<union> ctl_marks (tview s)"
proof -
  note inv1 = prof_step_inv[OF p inv] and f = prof_step_fields[OF p]
  have sm: "slot_marks s1 = slot_marks s" by (simp add: fun_eq_iff slot_marks_def f)
  obtain sep tmp s2 where 2: "union_args on n args (''marks:'', bitset_init (num_marks s), s1) = Inr (sep, tmp, s2)"
      "prof_step s1 s2" "bitset_wf (num_marks s) tmp" "marks tmp = \<Union> (slot_marks s ` set (take n args))"
    using union_args_ok[OF inv1 n, of "bitset_init (num_marks s)" on "''marks:''"]
      nbits_ok_num_marks[OF inv] f sm by (auto simp: bitset_init_wf marks_bitset_init)
  note p2 = prof_step_trans[OF p 2(2)]
  obtain c s3 where 3: "control_taint to_profile sep s2 = Inr (c, s3)" "prof_step s2 s3"
      "bitset_wf (num_marks s) c" "marks c = ctl_marks (tview s)"
    using control_taint_ok[OF prof_step_inv[OF p2 inv], of to_profile sep] prof_step_fields(11)[OF p2] prof_step_tview[OF p2]
    by auto
  from bitset_union_ok[OF 2(3) 3(3)] 2 3 prof_step_trans[OF p2 3(2)] show ?thesis by auto
qed

lemma clear_prefix_ok:
  assumes inv: "state_inv s" and p: "prof_step s s1"
  shows "\<exists>s2 c s3. plog_bits on ''marks:'' (bitset_init (num_marks s)) s1 = Inr s2 \<and>
    control_taint to_profile sep s2 = Inr (c, s3) \<and> prof_step s s3 \<and>
    bitset_wf (num_marks s) c \<and> marks c = ctl_marks (tview s)"
proof -
  obtain s2 where 2: "plog_bits on ''marks:'' (bitset_init (num_marks s)) s1 = Inr s2" "prof_step s1 s2"
    using plog_bits_ok[OF bitset_init_wf[OF nbits_ok_num_marks[OF inv]]] by blast
  note p2 = prof_step_trans[OF p 2(2)]
  from control_taint_ok[OF prof_step_inv[OF p2 inv], of to_profile sep] 2 prof_step_fields(11)[OF p2]
    prof_step_tview[OF p2] show ?thesis by (auto intro: prof_step_trans[OF p2])
qed

subsection \<open>Registers\<close>

definition v_put_regs :: "REG list \<Rightarrow> mark set \<Rightarrow> taint_view \<Rightarrow> taint_view" where
  "v_put_regs rs m v = v\<lparr>v_reg := \<lambda>r. if r \<in> set rs then Some m else v_reg v r\<rparr>"

text \<open>Only registers that have an entry are overwritten.\<close>

definition v_clear_regs :: "REG list \<Rightarrow> mark set \<Rightarrow> taint_view \<Rightarrow> taint_view" where
  "v_clear_regs rs m v =
     v\<lparr>v_reg := \<lambda>r. if r \<in> set rs \<and> v_reg v r \<noteq> None then Some m else v_reg v r\<rparr>"

definition v_SetTaintForRegister :: "REG \<Rightarrow> slot list \<Rightarrow> taint_view \<Rightarrow> taint_view" where
  "v_SetTaintForRegister dst args v =
     (if dst = REG_ESP \<or> dst = REG_EBP then v
      else v_put_regs (dst # subregisters dst) (\<Union> (v_slot v ` set args) \<union> ctl_marks v) v)"

definition v_ClearTaintForRegister :: "REG \<Rightarrow> taint_view \<Rightarrow> taint_view" where
  "v_ClearTaintForRegister reg v = v_clear_regs (reg # subregisters reg) (ctl_marks v) v"

text \<open>A step that assigns marks to the registers of a list, up to profiling output.\<close>

definition regs_upd :: "(REG \<Rightarrow> bool) \<Rightarrow> bitset \<Rightarrow> taint_state \<Rightarrow> taint_state \<Rightarrow> bool" where
  "regs_upd R b s s' \<longleftrightarrow>
     prof_step (s\<lparr>regTaintMap := \<lambda>r. if R r then Some b else regTaintMap s r\<rparr>) s'"

lemma regs_upd_none: "prof_step s s' \<Longrightarrow> regs_upd (\<lambda>r. False) b s s'"
  by (simp add: regs_upd_def)

lemma regs_upd_trans:
  "regs_upd R b s s1 \<Longrightarrow> regs_upd R' b s1 s2 \<Longrightarrow> regs_upd (\<lambda>r. R r \<or> R' r) b s s2"
  unfolding regs_upd_def prof_step_def core_def dead_log_def
  by (cases s; cases s1) (auto simp: fun_eq_iff split: if_splits intro!: ext)

lemma regs_upd_fields:
  assumes "regs_upd R b s s'"
  shows "regTaintMap s' = (\<lambda>r. if R r then Some b else regTaintMap s r)" "num_marks s' = num_marks s"
  using prof_step_fields(1,11)[OF assms[unfolded regs_upd_def]] by (simp_all add: num_marks_def)

lemma regs_upd_steps_to:
  assumes inv: "state_inv s" and b: "bitset_wf (num_marks s) b" and u: "regs_upd R b s s'"
  shows "steps_to s (Inr s') (\<lambda>v. v\<lparr>v_reg := \<lambda>r. if R r then Some (marks b) else v_reg v r\<rparr>)"
proof -
  let ?s = "s\<lparr>regTaintMap := \<lambda>r. if R r then Some b else regTaintMap s r\<rparr>"
  have p: "prof_step ?s s'" using u by (simp add: regs_upd_def)
  have "state_inv ?s" using inv b by (auto simp: state_inv_def wf_map_def num_marks_def)
  moreover have "cfg ?s = cfg s" by (simp add: cfg_def)
  moreover have "tview ?s = (tview s)\<lparr>v_reg := \<lambda>r. if R r then Some (marks b) else v_reg (tview s) r\<rparr>"
    by (auto simp: tview_def fun_eq_iff)
  ultimately show ?thesis
    using prof_step_inv[OF p] prof_step_cfg[OF p] prof_step_tview[OF p] by (simp add: steps_to_def)
qed

lemma put_register_upd:
  assumes inv: "state_inv s" and b: "bitset_wf (num_marks s) b"
  shows "\<exists>s'. put_register b r s = Inr s' \<and> regs_upd (\<lambda>r'. r' = r) b s s' \<and> state_inv s' \<and>
    num_marks s' = num_marks s"
proof -
  have "set_or_copy (regTaintMap s r) b = Inr b"
    using b bitset_set_bits_ok[OF wf_mapD[OF state_invD(3)[OF inv]] b]
    by (auto simp: set_or_copy_def bitset_copy_ok split: option.splits)
  then have eq: "put_register b r s = Inr (s\<lparr>regTaintMap := (regTaintMap s)(r \<mapsto> b)\<rparr>)" (is "_ = Inr ?s'")
    by (simp add: put_register_def)
  have u: "regs_upd (\<lambda>r'. r' = r) b s ?s'" by (simp add: regs_upd_def fun_upd_def)
  with eq regs_upd_steps_to[OF inv b u] show ?thesis by (auto simp: steps_to_def num_marks_def)
qed

lemma put_registers_upd:
  "state_inv s \<Longrightarrow> bitset_wf (num_marks s) b \<Longrightarrow>
   \<exists>s'. rfold (put_register b) rs s = Inr s' \<and> regs_upd (\<lambda>r. r \<in> set rs) b s s' \<and> state_inv s' \<and>
     num_marks s' = num_marks s"
proof (induction rs arbitrary: s)
  case Nil
  then show ?case by (simp add: regs_upd_none)
next
  case (Cons r rs)
  obtain s1 where 1: "put_register b r s = Inr s1" "regs_upd (\<lambda>r'. r' = r) b s s1" "state_inv s1"
      "num_marks s1 = num_marks s"
    using put_register_upd[OF Cons.prems] by blast
  with Cons.IH[OF 1(3)] Cons.prems(2) regs_upd_trans[OF 1(2)] show ?case by fastforce
qed

lemma regs_upd_prof: "regs_upd R b s s1 \<Longrightarrow> prof_step s1 s2 \<Longrightarrow> regs_upd R b s s2"
  by (auto simp: regs_upd_def intro: prof_step_trans)

lemma prof_regs_upd: "prof_step s s1 \<Longrightarrow> regs_upd R b s1 s2 \<Longrightarrow> regs_upd R b s s2"
  using regs_upd_trans[OF regs_upd_none] by simp

lemma SetTaintForRegister_refines:
  assumes inv: "state_inv s" and n: "n \<le> length args"
  shows "steps_to s (SetTaintForRegister P dst opcode to_profile n args s)
    (v_SetTaintForRegister dst (take n args))"
proof (cases "dst = REG_ESP \<or> dst = REG_EBP")
  case True
  then show ?thesis using inv by (auto simp: SetTaintForRegister_def v_SetTaintForRegister_def[abs_def])
next
  case False
  let ?on = "profiling_marks s \<and> to_profile"
  define s1 where "s1 = log_opcode ?on opcode s"
  have p1: "prof_step s s1" by (simp add: s1_def)
  have nm1: "num_marks s1 = num_marks s" using prof_step_fields(11)[OF p1] .
  obtain sep tmp s2 c s3 r where pre: "union_args ?on n args (''marks:'', bitset_init (num_marks s), s1) = Inr (sep, tmp, s2)"
      "control_taint to_profile sep s2 = Inr (c, s3)" "bitset_union tmp c = Inr r" "prof_step s s3"
      "bitset_wf (num_marks s) r" "marks r = \<Union> (slot_marks s ` set (take n args)) \<union> ctl_marks (tview s)"
    using set_prefix_ok[OF inv n p1, of ?on to_profile] by (elim exE conjE) (rule that)
  define s5 where "s5 = plog ?on ''u#'' (plog ?on ''#'' (count_markop (profiling_markop s3 \<and> to_profile) opcode s3))"
  have "prof_step s s5" unfolding s5_def by (intro prof_steps pre(4))
  moreover obtain sep6 s6 where s6: "fold (log_register P ?on) (subregisters dst) (''registers:'', s5) = (sep6, s6)"
      "prof_step s5 s6" using fold_log_register_prof_step by blast
  ultimately have p6: "prof_step s s6" by (blast intro: prof_step_trans)
  note inv6 = prof_step_inv[OF p6 inv] and nm6 = prof_step_fields(11)[OF p6]
  obtain s7 where s7: "rfold (put_register r) (subregisters dst) s6 = Inr s7"
      "regs_upd (\<lambda>x. x \<in> set (subregisters dst)) r s6 s7" "state_inv s7" "num_marks s7 = num_marks s6"
    using put_registers_upd[OF inv6] pre(5) unfolding nm6 by blast
  define s8 where "s8 = plog ?on [CHR 0x0A] (plog ?on (sep6 @ REG_StringShort P dst) s7)"
  have p8: "prof_step s7 s8" unfolding s8_def by (intro prof_steps) simp
  have inv8: "state_inv s8" "bitset_wf (num_marks s8) r"
    using prof_step_inv[OF p8 s7(3)] prof_step_fields(11)[OF p8] s7(4) nm6 pre(5) by simp_all
  obtain s9 where s9: "put_register r dst s8 = Inr s9" "regs_upd (\<lambda>x. x = dst) r s8 s9"
    using put_register_upd[OF inv8] by blast
  have eq: "SetTaintForRegister P dst opcode to_profile n args s = Inr s9"
    using False pre(1-3) s6(1) s7(1) s9(1)
    by (simp add: SetTaintForRegister_def Let_def s1_def[symmetric] s5_def[symmetric] s8_def[symmetric] nm1)
  have u: "regs_upd (\<lambda>x. x \<in> set (subregisters dst) \<or> x = dst) r s s9"
    using regs_upd_trans[OF regs_upd_prof[OF prof_regs_upd[OF p6 s7(2)] p8] s9(2)] .
  have "(\<lambda>v. v\<lparr>v_reg := \<lambda>x. if x \<in> set (subregisters dst) \<or> x = dst then Some (marks r) else v_reg v x\<rparr>) (tview s) =
      v_SetTaintForRegister dst (take n args) (tview s)"
    using False pre(6)
    by (auto simp: v_SetTaintForRegister_def v_put_regs_def slot_marks_def fun_eq_iff
        intro!: arg_cong[of _ _ "\<lambda>m. (tview s)\<lparr>v_reg := m\<rparr>"])
  with regs_upd_steps_to[OF inv pre(5) u] eq show ?thesis by (simp add: steps_to_def)
qed

lemma clear_register_upd:
  assumes inv: "state_inv s" and b: "bitset_wf (num_marks s) b"
  shows "\<exists>sep' s'. clear_register P on b r (sep, s) = Inr (sep', s') \<and>
    regs_upd (\<lambda>r'. r' = r \<and> regTaintMap s r \<noteq> None) b s s' \<and> state_inv s' \<and> num_marks s' = num_marks s"
proof (cases "regTaintMap s r")
  case None
  then show ?thesis using inv by (simp add: clear_register_def regs_upd_none)
next
  case (Some old)
  have set: "bitset_set_bits old b = Inr b"
    using bitset_set_bits_ok[OF wf_mapD[OF state_invD(3)[OF inv] Some] b] .
  let ?s1 = "plog on (sep @ REG_StringShort P r) s"
  let ?s' = "?s1\<lparr>regTaintMap := (regTaintMap ?s1)(r \<mapsto> b)\<rparr>"
  have eq: "clear_register P on b r (sep, s) = Inr (next_sep on sep, ?s')"
    using Some set by (simp add: clear_register_def log_register_def)
  have "regs_upd (\<lambda>r'. r' = r) b ?s1 ?s'" by (simp add: regs_upd_def fun_upd_def)
  then have u: "regs_upd (\<lambda>r'. r' = r) b s ?s'" by (rule prof_regs_upd[OF plog_prof_step])
  with eq Some regs_upd_steps_to[OF inv b u] regs_upd_fields(2)[OF u] show ?thesis
    by (auto simp: steps_to_def)
qed

lemma clear_registers_upd:
  "state_inv s \<Longrightarrow> bitset_wf (num_marks s) b \<Longrightarrow>
   \<exists>sep' s'. rfold (clear_register P on b) rs (sep, s) = Inr (sep', s') \<and>
     regs_upd (\<lambda>r. r \<in> set rs \<and> regTaintMap s r \<noteq> None) b s s' \<and> state_inv s' \<and>
     num_marks s' = num_marks s"
proof (induction rs arbitrary: s sep)
  case Nil
  then show ?case by (simp add: regs_upd_none)
next
  case (Cons r rs)
  obtain sep1 s1 where 1: "clear_register P on b r (sep, s) = Inr (sep1, s1)"
      "regs_upd (\<lambda>r'. r' = r \<and> regTaintMap s r \<noteq> None) b s s1" "state_inv s1"
      "num_marks s1 = num_marks s"
    using clear_register_upd[OF Cons.prems] by blast
  obtain sep2 s2 where 2: "rfold (clear_register P on b) rs (sep1, s1) = Inr (sep2, s2)"
      "regs_upd (\<lambda>r. r \<in> set rs \<and> regTaintMap s1 r \<noteq> None) b s1 s2" "state_inv s2" "num_marks s2 = num_marks s1"
    using Cons.IH[OF 1(3)] 1(4) Cons.prems(2) by metis
  have dom: "(regTaintMap s1 r' \<noteq> None) = (regTaintMap s r' \<noteq> None)" for r'
    using regs_upd_fields(1)[OF 1(2)] by auto
  have "(\<lambda>r'. (r' = r \<and> regTaintMap s r \<noteq> None) \<or> (r' \<in> set rs \<and> regTaintMap s1 r' \<noteq> None)) =
      (\<lambda>r'. r' \<in> set (r # rs) \<and> regTaintMap s r' \<noteq> None)"
    unfolding dom by auto
  then have "regs_upd (\<lambda>r'. r' \<in> set (r # rs) \<and> regTaintMap s r' \<noteq> None) b s s2"
    using regs_upd_trans[OF 1(2) 2(2)] by simp
  with 1 2 show ?case by auto
qed

lemma ClearTaintForRegister_refines:
  assumes inv: "state_inv s"
  shows "steps_to s (ClearTaintForRegister P reg opcode to_profile s) (v_ClearTaintForRegister reg)"
proof -
  let ?on = "profiling_marks s \<and> to_profile"
  define s1 where "s1 = log_opcode ?on opcode s"
  have p1: "prof_step s s1" by (simp add: s1_def)
  have nm1: "num_marks s1 = num_marks s" using prof_step_fields(11)[OF p1] .
  obtain s2 c s3 where pre: "plog_bits ?on ''marks:'' (bitset_init (num_marks s1)) s1 = Inr s2"
      "control_taint to_profile (next_sep ?on ''marks:'') s2 = Inr (c, s3)" "prof_step s s3"
      "bitset_wf (num_marks s) c" "marks c = ctl_marks (tview s)"
    using clear_prefix_ok[OF inv p1, of ?on to_profile] unfolding nm1 by blast
  define s5 where "s5 = plog ?on ''u#'' (plog ?on ''#'' (count_markop (profiling_markop s3 \<and> to_profile) opcode s3))"
  have p5: "prof_step s s5" unfolding s5_def by (intro prof_steps pre(3))
  note inv5 = prof_step_inv[OF p5 inv] and nm5 = prof_step_fields(11)[OF p5]
  obtain sep6 s6 where 6: "rfold (clear_register P ?on c) (subregisters reg @ [reg]) (''registers:'', s5) = Inr (sep6, s6)"
      "regs_upd (\<lambda>r. r \<in> set (subregisters reg @ [reg]) \<and> regTaintMap s5 r \<noteq> None) c s5 s6"
    using clear_registers_upd[OF inv5] pre(4) unfolding nm5 by blast
  from 6(1) obtain st where st: "rfold (clear_register P ?on c) (subregisters reg) (''registers:'', s5) = Inr st"
      "clear_register P ?on c reg st = Inr (sep6, s6)"
    by (auto simp: rfold_append rbind_eq_Inr)
  have eq: "ClearTaintForRegister P reg opcode to_profile s = Inr (plog ?on [CHR 0x0A] s6)"
    using pre(1,2) st by (simp add: ClearTaintForRegister_def Let_def s1_def[symmetric] s5_def[symmetric])
  have u: "regs_upd (\<lambda>r. r \<in> set (subregisters reg @ [reg]) \<and> regTaintMap s r \<noteq> None) c s (plog ?on [CHR 0x0A] s6)"
    using regs_upd_prof[OF prof_regs_upd[OF p5 6(2)] plog_prof_step] prof_step_fields(1)[OF p5] by simp
  show ?thesis
    using regs_upd_steps_to[OF inv pre(4) u] pre(5) eq
    by (auto simp: steps_to_def v_ClearTaintForRegister_def v_clear_regs_def fun_eq_iff
        intro!: arg_cong[of _ _ "\<lambda>m. (tview s)\<lparr>v_reg := m\<rparr>"])
qed

subsection \<open>Memory\<close>

definition v_put_mem :: "ADDRINT set \<Rightarrow> mark set \<Rightarrow> taint_view \<Rightarrow> taint_view" where
  "v_put_mem A m v = v\<lparr>v_mem := \<lambda>a. if a \<in> A then Some m else v_mem v a\<rparr>"

definition v_clear_mem :: "ADDRINT set \<Rightarrow> mark set \<Rightarrow> taint_view \<Rightarrow> taint_view" where
  "v_clear_mem A m v = v\<lparr>v_mem := \<lambda>a. if a \<in> A \<and> v_mem v a \<noteq> None then Some m else v_mem v a\<rparr>"

definition v_SetTaintForMemory :: "ADDRINT \<Rightarrow> ADDRINT \<Rightarrow> slot list \<Rightarrow> taint_view \<Rightarrow> taint_view" where
  "v_SetTaintForMemory start sz args v =
     v_put_mem {start..<start + sz} (\<Union> (v_slot v ` set args) \<union> ctl_marks v) v"

definition v_ClearTaintForMemory :: "ADDRINT \<Rightarrow> ADDRINT \<Rightarrow> taint_view \<Rightarrow> taint_view" where
  "v_ClearTaintForMemory start sz v = v_clear_mem {start..<start + sz} (ctl_marks v) v"

definition mem_upd :: "(ADDRINT \<Rightarrow> bool) \<Rightarrow> bitset \<Rightarrow> taint_state \<Rightarrow> taint_state \<Rightarrow> bool" where
  "mem_upd A b s s' \<longleftrightarrow>
     prof_step (s\<lparr>memTaintMap := \<lambda>a. if A a then Some b else memTaintMap s a\<rparr>) s'"

lemma mem_upd_none: "prof_step s s' \<Longrightarrow> mem_upd (\<lambda>a. False) b s s'"
  by (simp add: mem_upd_def)

lemma mem_upd_trans:
  "mem_upd A b s s1 \<Longrightarrow> mem_upd A' b s1 s2 \<Longrightarrow> mem_upd (\<lambda>a. A a \<or> A' a) b s s2"
  unfolding mem_upd_def prof_step_def core_def dead_log_def
  by (cases s; cases s1) (auto simp: fun_eq_iff split: if_splits intro!: ext)

lemma mem_upd_fields:
  assumes "mem_upd A b s s'"
  shows "memTaintMap s' = (\<lambda>a. if A a then Some b else memTaintMap s a)" "num_marks s' = num_marks s"
  using prof_step_fields(2,11)[OF assms[unfolded mem_upd_def]] by (simp_all add: num_marks_def)

lemma mem_upd_prof: "mem_upd A b s s1 \<Longrightarrow> prof_step s1 s2 \<Longrightarrow> mem_upd A b s s2"
  by (auto simp: mem_upd_def intro: prof_step_trans)

lemma prof_mem_upd: "prof_step s s1 \<Longrightarrow> mem_upd A b s1 s2 \<Longrightarrow> mem_upd A b s s2"
  using mem_upd_trans[OF mem_upd_none] by simp

lemma mem_upd_steps_to:
  assumes inv: "state_inv s" and b: "bitset_wf (num_marks s) b" and u: "mem_upd A b s s'"
  shows "steps_to s (Inr s') (\<lambda>v. v\<lparr>v_mem := \<lambda>a. if A a then Some (marks b) else v_mem v a\<rparr>)"
proof -
  let ?s = "s\<lparr>memTaintMap := \<lambda>a. if A a then Some b else memTaintMap s a\<rparr>"
  have p: "prof_step ?s s'" using u by (simp add: mem_upd_def)
  have "state_inv ?s" using inv b by (auto simp: state_inv_def wf_map_def num_marks_def)
  moreover have "cfg ?s = cfg s" by (simp add: cfg_def)
  moreover have "tview ?s = (tview s)\<lparr>v_mem := \<lambda>a. if A a then Some (marks b) else v_mem (tview s) a\<rparr>"
    by (auto simp: tview_def fun_eq_iff)
  ultimately show ?thesis
    using prof_step_inv[OF p] prof_step_cfg[OF p] prof_step_tview[OF p] by (simp add: steps_to_def)
qed

lemma log_address_step:
  "\<exists>s'. log_address on a (sep, s) = (next_sep on sep, s') \<and> prof_step s s'"
  using fold_log_address_prof_step[of on "[a]" sep s] by (auto simp: log_address_def)

lemma put_byte_upd:
  assumes inv: "state_inv s" and b: "bitset_wf (num_marks s) b"
  shows "\<exists>sep' s'. put_byte on b a (sep, s) = Inr (sep', s') \<and> mem_upd (\<lambda>x. x = a) b s s' \<and>
    state_inv s' \<and> num_marks s' = num_marks s"
proof -
  obtain s1 where s1: "log_address on a (sep, s) = (next_sep on sep, s1)" "prof_step s s1"
    using log_address_step by blast
  have "set_or_copy (memTaintMap s1 a) b = Inr b"
    using b bitset_set_bits_ok[OF wf_mapD[OF state_invD(4)[OF inv]] b] prof_step_fields(2)[OF s1(2)]
    by (auto simp: set_or_copy_def bitset_copy_ok split: option.splits)
  then have eq: "put_byte on b a (sep, s) =
      Inr (next_sep on sep, s1\<lparr>memTaintMap := (memTaintMap s1)(a \<mapsto> b)\<rparr>)" (is "_ = Inr (_, ?s')")
    using s1(1) by (simp add: put_byte_def)
  have "mem_upd (\<lambda>x. x = a) b s1 ?s'" by (simp add: mem_upd_def fun_upd_def)
  then have u: "mem_upd (\<lambda>x. x = a) b s ?s'" by (rule prof_mem_upd[OF s1(2)])
  with eq mem_upd_steps_to[OF inv b u] mem_upd_fields(2)[OF u] show ?thesis
    by (auto simp: steps_to_def)
qed

lemma put_bytes_upd:
  "state_inv s \<Longrightarrow> bitset_wf (num_marks s) b \<Longrightarrow>
   \<exists>sep' s'. rfold (put_byte on b) as (sep, s) = Inr (sep', s') \<and> mem_upd (\<lambda>a. a \<in> set as) b s s'"
proof (induction as arbitrary: s sep)
  case Nil
  then show ?case by (simp add: mem_upd_none)
next
  case (Cons a as)
  obtain sep1 s1 where 1: "put_byte on b a (sep, s) = Inr (sep1, s1)" "mem_upd (\<lambda>x. x = a) b s s1"
      "state_inv s1" "num_marks s1 = num_marks s"
    using put_byte_upd[OF Cons.prems] by blast
  obtain sep2 s2 where 2: "rfold (put_byte on b) as (sep1, s1) = Inr (sep2, s2)"
      "mem_upd (\<lambda>a. a \<in> set as) b s1 s2"
    using Cons.IH[OF 1(3)] 1(4) Cons.prems(2) by metis
  from mem_upd_trans[OF 1(2) 2(2)] 1(1) 2(1) show ?case by simp
qed

lemma clear_byte_upd:
  assumes inv: "state_inv s" and b: "bitset_wf (num_marks s) b"
  shows "\<exists>sep' s'. clear_byte on b a (sep, s) = Inr (sep', s') \<and>
    mem_upd (\<lambda>x. x = a \<and> memTaintMap s a \<noteq> None) b s s' \<and> state_inv s' \<and> num_marks s' = num_marks s"
proof (cases "memTaintMap s a")
  case None
  then show ?thesis using inv by (simp add: clear_byte_def mem_upd_none)
next
  case (Some old)
  have set: "bitset_set_bits old b = Inr b"
    using bitset_set_bits_ok[OF wf_mapD[OF state_invD(4)[OF inv] Some] b] .
  obtain s1 where s1: "log_address on a (sep, s) = (next_sep on sep, s1)" "prof_step s s1"
    using log_address_step by blast
  let ?s' = "s1\<lparr>memTaintMap := (memTaintMap s1)(a \<mapsto> b)\<rparr>"
  have eq: "clear_byte on b a (sep, s) = Inr (next_sep on sep, ?s')"
    using Some set s1(1) by (simp add: clear_byte_def)
  have "mem_upd (\<lambda>x. x = a) b s1 ?s'" by (simp add: mem_upd_def fun_upd_def)
  then have u: "mem_upd (\<lambda>x. x = a) b s ?s'" by (rule prof_mem_upd[OF s1(2)])
  with eq Some mem_upd_steps_to[OF inv b u] mem_upd_fields(2)[OF u] show ?thesis
    by (auto simp: steps_to_def)
qed

lemma clear_bytes_upd:
  "state_inv s \<Longrightarrow> bitset_wf (num_marks s) b \<Longrightarrow>
   \<exists>sep' s'. rfold (clear_byte on b) as (sep, s) = Inr (sep', s') \<and>
     mem_upd (\<lambda>a. a \<in> set as \<and> memTaintMap s a \<noteq> None) b s s'"
proof (induction as arbitrary: s sep)
  case Nil
  then show ?case by (simp add: mem_upd_none)
next
  case (Cons a as)
  obtain sep1 s1 where 1: "clear_byte on b a (sep, s) = Inr (sep1, s1)"
      "mem_upd (\<lambda>x. x = a \<and> memTaintMap s a \<noteq> None) b s s1" "state_inv s1" "num_marks s1 = num_marks s"
    using clear_byte_upd[OF Cons.prems] by blast
  obtain sep2 s2 where 2: "rfold (clear_byte on b) as (sep1, s1) = Inr (sep2, s2)"
      "mem_upd (\<lambda>a. a \<in> set as \<and> memTaintMap s1 a \<noteq> None) b s1 s2"
    using Cons.IH[OF 1(3)] 1(4) Cons.prems(2) by metis
  have dom: "(memTaintMap s1 x \<noteq> None) = (memTaintMap s x \<noteq> None)" for x
    using mem_upd_fields(1)[OF 1(2)] by auto
  have "(\<lambda>x. (x = a \<and> memTaintMap s a \<noteq> None) \<or> (x \<in> set as \<and> memTaintMap s1 x \<noteq> None)) =
      (\<lambda>x. x \<in> set (a # as) \<and> memTaintMap s x \<noteq> None)"
    unfolding dom by auto
  then have "mem_upd (\<lambda>x. x \<in> set (a # as) \<and> memTaintMap s x \<noteq> None) b s s2"
    using mem_upd_trans[OF 1(2) 2(2)] by simp
  with 1 2 show ?case by auto
qed

lemma SetTaintForMemory_refines:
  assumes inv: "state_inv s" and n: "n \<le> length args"
  shows "steps_to s (SetTaintForMemory start sz opcode to_profile n args s)
    (v_SetTaintForMemory start sz (take n args))"
proof -
  let ?on = "profiling_marks s \<and> to_profile"
  let ?as = "addr_range start (start + sz)"
  define s1 where "s1 = log_opcode ?on opcode s"
  have p1: "prof_step s s1" by (simp add: s1_def)
  obtain sep tmp s2 c s3 r where pre: "union_args ?on n args (''marks:'', bitset_init (num_marks s), s1) = Inr (sep, tmp, s2)"
      "control_taint to_profile sep s2 = Inr (c, s3)" "bitset_union tmp c = Inr r" "prof_step s s3"
      "bitset_wf (num_marks s) r" "marks r = \<Union> (slot_marks s ` set (take n args)) \<union> ctl_marks (tview s)"
    using set_prefix_ok[OF inv n p1, of ?on to_profile] by (elim exE conjE) (rule that)
  define s5 where "s5 = plog ?on ''u#'' (plog ?on ''#'' (count_markop (profiling_markop s3 \<and> to_profile) opcode s3))"
  let ?all = "profiling_marks s5"
  define s6 where "s6 = plog_hex ?all start (plog ?all ''start:'' s5)"
  define s7 where "s7 = plog_dec ?all sz (plog ?all ''sized:'' s6)"
  define s8 where "s8 = plog_hex ?all sz (plog ?all ''sizeh:'' s7)"
  have p8: "prof_step s s8" unfolding s8_def s7_def s6_def s5_def by (intro prof_steps pre(4))
  have r8: "bitset_wf (num_marks s8) r" using pre(5) prof_step_fields(11)[OF p8] by simp
  obtain sep9 s9 where s9: "rfold (put_byte ?on r) ?as (''memory:'', s8) = Inr (sep9, s9)"
      "mem_upd (\<lambda>a. a \<in> set ?as) r s8 s9"
    using put_bytes_upd[OF prof_step_inv[OF p8 inv] r8] by blast
  have eq: "SetTaintForMemory start sz opcode to_profile n args s = Inr (plog ?on [CHR 0x0A] s9)"
    using pre(1-3) s9(1)
    by (simp add: SetTaintForMemory_def Let_def s1_def[symmetric] s5_def[symmetric] s6_def[symmetric]
        s7_def[symmetric] s8_def[symmetric])
  have "mem_upd (\<lambda>a. a \<in> set ?as) r s (plog ?on [CHR 0x0A] s9)"
    using mem_upd_prof[OF prof_mem_upd[OF p8 s9(2)] plog_prof_step] .
  from mem_upd_steps_to[OF inv pre(5) this] eq pre(6) show ?thesis
    by (simp add: steps_to_def v_SetTaintForMemory_def v_put_mem_def slot_marks_def set_addr_range cong: if_cong)
qed

lemma ClearTaintForMemory_refines:
  assumes inv: "state_inv s"
  shows "steps_to s (ClearTaintForMemory start sz opcode to_profile s) (v_ClearTaintForMemory start sz)"
proof -
  let ?on = "profiling_marks s \<and> to_profile"
  let ?as = "addr_range start (start + sz)"
  define s1 where "s1 = log_opcode ?on opcode s"
  have p1: "prof_step s s1" by (simp add: s1_def)
  have nm1: "num_marks s1 = num_marks s" using prof_step_fields(11)[OF p1] .
  obtain s2 c s3 where pre: "plog_bits ?on ''marks:'' (bitset_init (num_marks s)) s1 = Inr s2"
      "control_taint to_profile (next_sep ?on ''marks:'') s2 = Inr (c, s3)" "prof_step s s3"
      "bitset_wf (num_marks s) c" "marks c = ctl_marks (tview s)"
    using clear_prefix_ok[OF inv p1, of ?on to_profile "next_sep ?on ''marks:''"]
    by (elim exE conjE) (rule that)
  define s5 where "s5 = plog ?on ''u#'' (plog ?on ''#'' (count_markop (profiling_markop s3 \<and> to_profile) opcode s3))"
  have p5: "prof_step s s5" unfolding s5_def by (intro prof_steps pre(3))
  have c5: "bitset_wf (num_marks s5) c" using pre(4) prof_step_fields(11)[OF p5] by simp
  obtain sep6 s6 where s6: "rfold (clear_byte ?on c) ?as (''memory:'', s5) = Inr (sep6, s6)"
      "mem_upd (\<lambda>a. a \<in> set ?as \<and> memTaintMap s5 a \<noteq> None) c s5 s6"
    using clear_bytes_upd[OF prof_step_inv[OF p5 inv] c5] by blast
  have eq: "ClearTaintForMemory start sz opcode to_profile s = Inr (plog ?on [CHR 0x0A] s6)"
    using pre(1,2) s6(1) by (simp add: ClearTaintForMemory_def Let_def s1_def[symmetric] s5_def[symmetric] nm1)
  have "mem_upd (\<lambda>a. a \<in> set ?as \<and> memTaintMap s a \<noteq> None) c s (plog ?on [CHR 0x0A] s6)"
    using mem_upd_prof[OF prof_mem_upd[OF p5 s6(2)] plog_prof_step] prof_step_fields(2)[OF p5] by simp
  from mem_upd_steps_to[OF inv pre(4) this] eq pre(5) show ?thesis
    by (simp add: steps_to_def v_ClearTaintForMemory_def v_clear_mem_def set_addr_range cong: if_cong)
qed

section \<open>Control flow taint\<close>

definition v_PushControl :: "ADDRINT \<Rightarrow> taint_view \<Rightarrow> taint_view" where
  "v_PushControl addr v =
     (let m = marks_of (v_reg v REG_EFLAGS) in
      if m = {} then v
      else v\<lparr>v_ctl := (v_ctl v)(addr \<mapsto> marks_of (v_ctl v addr) \<union> m)\<rparr>)"

lemma ran_upd_union:
  "\<Union> (ran (f(a \<mapsto> (case f a of Some m \<Rightarrow> m | None \<Rightarrow> {}) \<union> n))) = \<Union> (ran f) \<union> n"
proof -
  let ?g = "f(a := None)"
  have r: "ran (f(a \<mapsto> x)) = insert x (ran ?g)" for x
    using ran_map_upd[of ?g a x] by simp
  show ?thesis
  proof (cases "f a")
    case None
    then show ?thesis by (auto simp: ran_map_upd)
  next
    case (Some m)
    then have "ran f = insert m (ran ?g)" using r[of m] by (simp add: fun_upd_idem)
    then show ?thesis using Some r[of "m \<union> n"] by auto
  qed
qed

fun v_PopControl :: "ADDRINT list \<Rightarrow> taint_view \<Rightarrow> taint_view" where
  "v_PopControl [] v = v"
| "v_PopControl (a # as) v =
     (if v_ctl v a = None then v else v_PopControl as (v\<lparr>v_ctl := (v_ctl v)(a := None)\<rparr>))"

lemma control_put_steps_to:
  assumes inv: "state_inv s" and b: "bitset_wf (num_marks s) b"
  shows "steps_to s (Inr (s\<lparr>controlTaintMap := map_put (controlTaintMap s) addr b\<rparr>))
    (\<lambda>v. v\<lparr>v_ctl := (v_ctl v)(addr \<mapsto> marks b)\<rparr>)"
proof -
  note ci = state_invD(7)[OF inv]
  let ?s = "s\<lparr>controlTaintMap := map_put (controlTaintMap s) addr b\<rparr>"
  have "num_marks ?s = num_marks s" by (simp add: num_marks_def)
  then have "state_inv ?s"
    using inv b wf_map_upd[OF state_invD(5)[OF inv] b, of addr]
    by (simp add: state_inv_def map_find_put[OF ci] stdmap_inv_put)
  then show ?thesis
    by (simp add: steps_to_def cfg_def tview_def map_find_put[OF ci] fun_eq_iff)
qed

lemma control_erase_steps_to:
  assumes inv: "state_inv s"
  shows "steps_to s (Inr (s\<lparr>controlTaintMap := map_erase (controlTaintMap s) addr\<rparr>))
    (\<lambda>v. v\<lparr>v_ctl := (v_ctl v)(addr := None)\<rparr>)"
proof -
  note ci = state_invD(7)[OF inv]
  let ?s = "s\<lparr>controlTaintMap := map_erase (controlTaintMap s) addr\<rparr>"
  have "num_marks ?s = num_marks s" by (simp add: num_marks_def)
  then have "state_inv ?s"
    using inv by (auto simp: state_inv_def map_find_erase[OF ci] stdmap_inv_erase wf_map_def)
  then show ?thesis
    by (simp add: steps_to_def cfg_def tview_def map_find_erase[OF ci] fun_eq_iff)
qed

lemma PushControl_refines:
  assumes inv: "state_inv s"
  shows "steps_to s (PushControl addr s) (v_PushControl addr)"
proof (cases "regTaintMap s REG_EFLAGS")
  case None
  then show ?thesis using inv by (simp add: PushControl_def steps_to_def v_PushControl_def)
next
  case (Some fl)
  note fl = wf_mapD[OF state_invD(3)[OF inv] Some]
  let ?old = "case map_find (controlTaintMap s) addr of None \<Rightarrow> bitset_init (num_marks s) | Some b \<Rightarrow> b"
  have old: "bitset_wf (num_marks s) ?old" "marks ?old = marks_of (v_ctl (tview s) addr)"
    using nbits_ok_num_marks[OF inv] wf_mapD[OF state_invD(5)[OF inv]]
    by (auto simp: bitset_init_wf marks_bitset_init split: option.split)
  obtain b where b: "bitset_union ?old fl = Inr b" "bitset_wf (num_marks s) b" "marks b = marks ?old \<union> marks fl"
    using bitset_union_ok[OF old(1) fl] by blast
  from control_put_steps_to[OF inv b(2), of addr] b old(2) Some inv show ?thesis
    by (auto simp: PushControl_def bitset_is_empty_ok[OF fl] steps_to_def v_PushControl_def Let_def)
qed

lemma PopControl_refines:
  "state_inv s \<Longrightarrow> n \<le> length addrs \<Longrightarrow>
     steps_to s (PopControl n addrs s) (v_PopControl (take n addrs))"
proof (induction n addrs s rule: PopControl.induct)
  case (3 n addr addrs s)
  show ?case
  proof (cases "map_find (controlTaintMap s) addr")
    case None
    then show ?thesis using "3.prems"(1) by (simp add: steps_to_def)
  next
    case (Some b)
    from control_erase_steps_to[OF "3.prems"(1), of addr]
    have "state_inv (s\<lparr>controlTaintMap := map_erase (controlTaintMap s) addr\<rparr>)"
      by (simp add: steps_to_def)
    with "3.IH"[OF Some] "3.prems"(2) control_erase_steps_to[OF "3.prems"(1), of addr] Some
    show ?thesis by (auto simp: steps_to_def)
  qed
qed (simp_all add: steps_to_def)

section \<open>New taint\<close>

lemma new_taint_loop:
  "bitset_wf nb tmp \<Longrightarrow>
   rfold (\<lambda>a s. rbind (bitset_copy tmp) (\<lambda>b. Inr (s\<lparr>memTaintMap := (memTaintMap s)(a \<mapsto> b)\<rparr>))) as s =
     Inr (s\<lparr>memTaintMap := \<lambda>a. if a \<in> set as then Some tmp else memTaintMap s a\<rparr>)"
proof (induction as arbitrary: s)
  case (Cons a as)
  have "(\<lambda>x. if x \<in> set as then Some tmp else ((memTaintMap s)(a \<mapsto> tmp)) x) =
      (\<lambda>x. if x \<in> set (a # as) then Some tmp else memTaintMap s x)" by auto
  with Cons show ?case by (simp add: bitset_copy_ok del: fun_upd_apply cong: if_cong)
qed simp

text \<open>The taint state of a run of the tracker: the generator draws marks below the limit.\<close>

definition gen_ok :: "taint_state \<Rightarrow> bool" where
  "gen_ok s \<longleftrightarrow> (case taintGen s of None \<Rightarrow> False | Some g \<Rightarrow> gen_inv 0 (NUMBER_OF_TAINT_MARKS s) g)"

lemma fresh_bitset:
  assumes inv: "state_inv s" and m: "0 \<le> m" "m < NUMBER_OF_TAINT_MARKS s"
  shows "\<exists>b. bitset_set_bit (bitset_init (num_marks s)) (word_of_int m) = Inr b \<and>
    bitset_wf (num_marks s) b \<and> marks b = {nat m}"
proof -
  have u: "unat (word_of_int m :: size_t) = nat m"
    using m state_invD(2)[OF inv] by (simp add: unat_eq_nat_uint uint_word_of_int)
  then have "(word_of_int m :: size_t) < num_marks s"
    using m unat_num_marks[OF inv] by (simp add: word_less_nat_alt)
  from bitset_set_bit_ok[OF bitset_init_wf[OF nbits_ok_num_marks[OF inv]] this] u
  show ?thesis by (simp add: marks_bitset_init[OF nbits_ok_num_marks[OF inv]])
qed

lemma SetNewTaintForMemory_mark:
  assumes inv: "state_inv s" and m: "0 \<le> m" "m < NUMBER_OF_TAINT_MARKS s"
  shows "steps_to s (SetNewTaintForMemory addr sz m s) (v_put_mem {addr..<addr + sz} {nat m})"
proof -
  obtain b where b: "bitset_set_bit (bitset_init (num_marks s)) (word_of_int m) = Inr b"
      "bitset_wf (num_marks s) b" "marks b = {nat m}"
    using fresh_bitset[OF inv m] by blast
  let ?s' = "s\<lparr>memTaintMap := \<lambda>a. if a \<in> set (addr_range addr (addr + sz)) then Some b else memTaintMap s a\<rparr>"
  have "SetNewTaintForMemory addr sz m s = Inr ?s'"
    using b m by (simp add: SetNewTaintForMemory_def new_taint_loop[OF b(2)])
  moreover have "mem_upd (\<lambda>a. a \<in> set (addr_range addr (addr + sz))) b s ?s'"
    by (simp add: mem_upd_def)
  from mem_upd_steps_to[OF inv b(2) this] have "steps_to s (Inr ?s') (v_put_mem {addr..<addr + sz} {nat m})"
    by (simp add: steps_to_def v_put_mem_def b(3) cong: if_cong)
  ultimately show ?thesis by simp
qed

lemma SetNewTaintForMemory_illegal:
  "NUMBER_OF_TAINT_MARKS s \<le> m \<Longrightarrow> m \<noteq> -1 \<Longrightarrow>
     SetNewTaintForMemory addr sz m s = Inl (Abort ''Illegal taint mark'')"
  by (simp add: SetNewTaintForMemory_def)

lemma SetNewTaintForMemory_fresh:
  assumes inv: "state_inv s" and g: "taintGen s = Some g" and nx: "nextTaintMark g = Inr (m, g')"
    and m: "0 \<le> m" "m < NUMBER_OF_TAINT_MARKS s"
  shows "SetNewTaintForMemory addr sz (-1) s = SetNewTaintForMemory addr sz m (s\<lparr>taintGen := Some g'\<rparr>)"
  using assms by (simp add: SetNewTaintForMemory_def)

lemma taintGen_upd_inv: "state_inv s \<Longrightarrow> state_inv (s\<lparr>taintGen := g\<rparr>)"
  by (simp add: state_inv_def num_marks_def)

lemma tview_taintGen [simp]: "tview (s\<lparr>taintGen := g\<rparr>) = tview s"
  by (simp add: tview_def)

lemma SetNewTaintForMemory_draw:
  assumes inv: "state_inv s" and g: "gen_ok s"
  shows "\<exists>m s'. SetNewTaintForMemory addr sz (-1) s = Inr s' \<and> state_inv s' \<and> gen_ok s' \<and>
    m < nat (NUMBER_OF_TAINT_MARKS s) \<and> NUMBER_OF_TAINT_MARKS s' = NUMBER_OF_TAINT_MARKS s \<and>
    tview s' = v_put_mem {addr..<addr + sz} {m} (tview s)"
proof -
  from g obtain gen where gen: "taintGen s = Some gen" "gen_inv 0 (NUMBER_OF_TAINT_MARKS s) gen"
    by (auto simp: gen_ok_def split: option.splits)
  from nextTaintMark_inv[OF gen(2)] obtain m g' where nx: "nextTaintMark gen = Inr (m, g')"
      "0 \<le> m" "m < NUMBER_OF_TAINT_MARKS s" "gen_inv 0 (NUMBER_OF_TAINT_MARKS s) g'" by auto
  let ?s1 = "s\<lparr>taintGen := Some g'\<rparr>"
  have m1: "m < NUMBER_OF_TAINT_MARKS ?s1" using nx(3) by simp
  from SetNewTaintForMemory_mark[OF taintGen_upd_inv[OF inv] nx(2) m1, of addr sz]
  obtain s' where "SetNewTaintForMemory addr sz m ?s1 = Inr s'" "state_inv s'" "cfg s' = cfg ?s1"
      "tview s' = v_put_mem {addr..<addr + sz} {nat m} (tview s)"
    by (auto simp: steps_to_def)
  moreover from this(3) nx(4) have "gen_ok s'" "NUMBER_OF_TAINT_MARKS s' = NUMBER_OF_TAINT_MARKS s"
    by (simp_all add: cfg_def gen_ok_def)
  moreover have "nat m < nat (NUMBER_OF_TAINT_MARKS s)" using nx(2,3) by simp
  ultimately show ?thesis
    using SetNewTaintForMemory_fresh[OF inv gen(1) nx(1,2,3)] by metis
qed

lemma SetNewTaintStart_ok:
  assumes inv: "state_inv s" and g: "gen_ok s"
  shows "\<exists>s'. SetNewTaintStart s = Inr s' \<and> state_inv s' \<and> tview s' = tview s \<and> gen_ok s'"
proof -
  from g obtain gen where gen: "taintGen s = Some gen" "gen_inv 0 (NUMBER_OF_TAINT_MARKS s) gen"
    by (auto simp: gen_ok_def split: option.splits)
  then have "gen_inv 0 (NUMBER_OF_TAINT_MARKS s) (setStart (getCurrent gen) gen)"
    by (cases gen) (auto simp: getCurrent_def)
  then show ?thesis
    using gen(1) taintGen_upd_inv[OF inv] by (simp add: SetNewTaintStart_def gen_ok_def)
qed


lemma v_PopControl_prefix:
  "distinct as \<Longrightarrow> v_PopControl as v =
     v\<lparr>v_ctl := \<lambda>b. if b \<in> set (takeWhile (\<lambda>a. v_ctl v a \<noteq> None) as) then None else v_ctl v b\<rparr>"
proof (induction as arbitrary: v)
  case (Cons a as)
  show ?case
  proof (cases "v_ctl v a")
    case (Some m)
    have "takeWhile (\<lambda>b. ((v_ctl v)(a := None)) b \<noteq> None) as = takeWhile (\<lambda>b. v_ctl v b \<noteq> None) as"
      using Cons.prems by (intro takeWhile_cong) auto
    with Some Cons.IH[of "v\<lparr>v_ctl := (v_ctl v)(a := None)\<rparr>"] Cons.prems show ?thesis
      by (simp add: fun_eq_iff cong: if_cong)
  qed simp
qed simp

lemma negative_mark_refused:
  assumes inv: "state_inv s" and m: "- (2 ^ 31) \<le> m" "m < -1"
  shows "SetNewTaintForMemory addr sz m s = Inl Assert_failed"
proof -
  have "uint (word_of_int m :: size_t) = m + 2 ^ 32"
  proof -
    have "m mod 2 ^ 32 = (m + 2 ^ 32) mod 2 ^ 32" by simp
    also have "\<dots> = m + 2 ^ 32" using m by (intro mod_pos_pos_trivial) simp_all
    finally show ?thesis by (simp add: uint_word_of_int)
  qed
  moreover have "uint (num_marks s) = NUMBER_OF_TAINT_MARKS s"
    using unat_num_marks[OF inv] state_invD(1)[OF inv] by (simp add: uint_nat)
  ultimately have "\<not> (word_of_int m :: size_t) < num_marks s"
    using m state_invD(2)[OF inv] by (simp add: word_less_def)
  then show ?thesis
    using m state_invD(1)[OF inv] by (simp add: SetNewTaintForMemory_def bitset_set_bit_def bitset_init_def)
qed

end
