(* ===== verification/Syscall_Monitor.thy ===== *)
theory Syscall_Monitor
  imports Taint_Refine
begin

text \<open>
  The dispatcher of system calls (\<open>syscall_monitor.H\<close>) and the handlers of
  \<open>syscall_functions.cpp\<close>.

  The state that system call callbacks change, besides the taint state, is the record
  \<open>world\<close>; it grows with the objects of the other components through the extension slot
  of the record. A callback and its \<open>void *\<close> argument are one function. The values that
  come from system headers (system call numbers, sizes of structures, the fields of the
  \<open>sockaddr_in\<close> at an address), \<open>inet_addr\<close> and the memory of the traced program are the
  record \<open>sys_env\<close>. \<open>can_read\<close> tells whether the string or structure at an address can be
  read: a call of the program may pass a null or wild pointer, which the tool then follows, and
  following it is undefined. Every operation of the monitor takes the
  monitor's lock, so an interleaving of threads is a sequence of \<open>beginSyscall\<close> and
  \<open>endSyscall\<close> steps.
\<close>

record sys_env =
  SYS :: "string \<Rightarrow> 32 word"
  sizeof_stat64 :: "32 word"
  sizeof_timeval :: "32 word"
  sizeof_timezone :: "32 word"
  sizeof_sigaction :: "32 word"
  sizeof_sigset_t :: "32 word"
  sizeof_time_t :: "32 word"
  sizeof_utsname :: "32 word"
  can_read :: "ADDRINT \<Rightarrow> bool"
  cstring :: "ADDRINT \<Rightarrow> string"
  load32 :: "ADDRINT \<Rightarrow> 32 word"
  sin_port :: "ADDRINT \<Rightarrow> 16 word"
  s_addr :: "ADDRINT \<Rightarrow> 32 word"
  inet_addr :: "string \<Rightarrow> 32 word"

record syscall_arguments =
  num :: ADDRINT
  arg0 :: ADDRINT
  arg1 :: ADDRINT
  arg2 :: ADDRINT
  arg3 :: ADDRINT
  arg4 :: ADDRINT
  arg5 :: ADDRINT
  ret :: ADDRINT
  err :: ADDRINT

record world =
  taint :: taint_state
  openFiles :: "int \<Rightarrow> string option"

type_synonym 'w callback = "sys_env \<Rightarrow> 32 word \<Rightarrow> syscall_arguments \<Rightarrow> 'w \<Rightarrow> 'w result"

section \<open>The monitor\<close>

record 'w syscall_monitor =
  pendingSyscalls :: "32 word \<Rightarrow> syscall_arguments option"
  observers :: "32 word \<Rightarrow> 'w callback list option"
  defaultObserver :: "'w callback option"

text \<open>The constructor initialises the lock only; \<open>defaultObserver\<close> keeps what the memory held.\<close>

definition new_SyscallMonitor :: "'w callback option \<Rightarrow> 'w syscall_monitor" where
  "new_SyscallMonitor uninit =
     \<lparr>pendingSyscalls = (\<lambda>tid. None), observers = (\<lambda>n. None), defaultObserver = uninit\<rparr>"

definition addObserver :: "32 word \<Rightarrow> 'w callback \<Rightarrow> 'w syscall_monitor \<Rightarrow> 'w syscall_monitor" where
  "addObserver n cb m =
     m\<lparr>observers := (observers m)
        (n \<mapsto> (case observers m n of None \<Rightarrow> [] | Some cbs \<Rightarrow> cbs) @ [cb])\<rparr>"

definition setDefaultObserver :: "'w callback \<Rightarrow> 'w syscall_monitor \<Rightarrow> 'w syscall_monitor" where
  "setDefaultObserver cb m = m\<lparr>defaultObserver := Some cb\<rparr>"

definition zero_args :: syscall_arguments where
  "zero_args = \<lparr>num = 0, arg0 = 0, arg1 = 0, arg2 = 0, arg3 = 0, arg4 = 0, arg5 = 0, ret = 0, err = 0\<rparr>"

text \<open>The aggregate initialiser sets the missing members \<open>ret\<close> and \<open>err\<close> to zero.\<close>

definition beginSyscall ::
  "32 word \<Rightarrow> 32 word \<Rightarrow> ADDRINT \<Rightarrow> ADDRINT \<Rightarrow> ADDRINT \<Rightarrow> ADDRINT \<Rightarrow> ADDRINT \<Rightarrow> ADDRINT \<Rightarrow>
   'w syscall_monitor \<Rightarrow> 'w syscall_monitor" where
  "beginSyscall tid n a0 a1 a2 a3 a4 a5 m =
     m\<lparr>pendingSyscalls := (pendingSyscalls m)
        (tid \<mapsto> \<lparr>num = n, arg0 = a0, arg1 = a1, arg2 = a2, arg3 = a3, arg4 = a4, arg5 = a5, ret = 0, err = 0\<rparr>)\<rparr>"

definition endSyscall ::
  "sys_env \<Rightarrow> 32 word \<Rightarrow> ADDRINT \<Rightarrow> ADDRINT \<Rightarrow> 'w syscall_monitor \<times> 'w \<Rightarrow> ('w syscall_monitor \<times> 'w) result" where
  "endSyscall E tid r e = (\<lambda>(m, w).
     let pend = (case pendingSyscalls m tid of Some a \<Rightarrow> a | None \<Rightarrow> zero_args);
         m1 = m\<lparr>pendingSyscalls := (pendingSyscalls m)(tid \<mapsto> pend)\<rparr>;
         args = pend\<lparr>ret := r, err := e\<rparr>
     in rbind (case observers m1 (num args) of
                 Some cbs \<Rightarrow> rfold (\<lambda>cb. cb E (num args) args) cbs w
               | None \<Rightarrow> (case defaultObserver m1 of
                            Some cb \<Rightarrow> cb E (num args) args w
                          | None \<Rightarrow> Inr w))
          (\<lambda>w'. Inr (m1, w')))"

text \<open>\<open>SysBefore\<close> and \<open>SysAfter\<close>: what Pin calls around a system call of a thread.\<close>

datatype sys_event =
    SysBefore "32 word" "32 word" ADDRINT ADDRINT ADDRINT ADDRINT ADDRINT ADDRINT
  | SysAfter "32 word" ADDRINT ADDRINT

fun event_thread :: "sys_event \<Rightarrow> 32 word" where
  "event_thread (SysBefore tid n a0 a1 a2 a3 a4 a5) = tid"
| "event_thread (SysAfter tid r e) = tid"

fun sys_step ::
  "sys_env \<Rightarrow> sys_event \<Rightarrow> 'w syscall_monitor \<times> 'w \<Rightarrow> ('w syscall_monitor \<times> 'w) result" where
  "sys_step E (SysBefore tid n a0 a1 a2 a3 a4 a5) (m, w) =
     Inr (beginSyscall tid n a0 a1 a2 a3 a4 a5 m, w)"
| "sys_step E (SysAfter tid r e) st = endSyscall E tid r e st"

section \<open>Handlers that clear taint\<close>

text \<open>The loop that frees and erases the entries of an address range.\<close>

definition erase_range :: "ADDRINT \<Rightarrow> ADDRINT \<Rightarrow> taint_state \<Rightarrow> taint_state" where
  "erase_range start finish s =
     fold (\<lambda>addr s. case memTaintMap s addr of
                      None \<Rightarrow> s
                    | Some b \<Rightarrow> s\<lparr>memTaintMap := (memTaintMap s)(addr := None)\<rparr>)
       (addr_range start finish) s"

definition erase_mem :: "ADDRINT \<Rightarrow> ADDRINT \<Rightarrow> 'a world_scheme \<Rightarrow> 'a world_scheme result" where
  "erase_mem start sz w = Inr (w\<lparr>taint := erase_range start (start + sz) (taint w)\<rparr>)"

definition UnimplementedSystemCall :: "'a world_scheme callback" where
  "UnimplementedSystemCall E n args w = Inr w"

definition Handle_DUP :: "'a world_scheme callback" where
  "Handle_DUP E n args w =
     (let fd1 = sint (arg0 args); fd2 = sint (ret args);
          name = (case openFiles w fd1 of Some f \<Rightarrow> f | None \<Rightarrow> '''')
      in Inr (w\<lparr>openFiles := (openFiles w)(fd1 \<mapsto> name, fd2 \<mapsto> name)\<rparr>))"

definition Handle_FSTAT64 :: "'a world_scheme callback" where
  "Handle_FSTAT64 E n args w = erase_mem (arg1 args) (sizeof_stat64 E) w"

definition Handle_GETDENTS64 :: "'a world_scheme callback" where
  "Handle_GETDENTS64 E n args w = erase_mem (arg1 args) (arg2 args) w"

definition Handle_GETTIMEOFDAY :: "'a world_scheme callback" where
  "Handle_GETTIMEOFDAY E n args w =
     rbind (erase_mem (arg0 args) (sizeof_timeval E) w) (erase_mem (arg1 args) (sizeof_timezone E))"

definition Handle_LSTAT64 :: "'a world_scheme callback" where
  "Handle_LSTAT64 E n args w = erase_mem (arg1 args) (sizeof_stat64 E) w"

definition Handle_MMAP :: "'a world_scheme callback" where
  "Handle_MMAP E n args w = erase_mem (ret args) (arg1 args) w"

definition Handle_MMAP2 :: "'a world_scheme callback" where
  "Handle_MMAP2 E n args w = erase_mem (ret args) (arg1 args) w"

definition Handle_OPEN :: "'a world_scheme callback" where
  "Handle_OPEN E n args w =
     (if can_read E (arg0 args)
      then Inr (w\<lparr>openFiles := (openFiles w)(sint (ret args) \<mapsto> cstring E (arg0 args))\<rparr>)
      else Inl Undefined)"

definition Handle_READLINK :: "'a world_scheme callback" where
  "Handle_READLINK E n args w = erase_mem (arg1 args) (ret args) w"

definition Handle_RT_SIGACTION :: "'a world_scheme callback" where
  "Handle_RT_SIGACTION E n args w =
     (if arg2 args \<noteq> 0 then erase_mem (arg2 args) (sizeof_sigaction E) w else Inr w)"

definition Handle_RT_SIGPROCMASK :: "'a world_scheme callback" where
  "Handle_RT_SIGPROCMASK E n args w =
     (if arg2 args \<noteq> 0 then erase_mem (arg2 args) (sizeof_sigset_t E) w else Inr w)"

definition socketcalls :: "string list" where
  "socketcalls = [''SOCKET'', ''CONNECT'', ''BIND'', ''LISTEN'', ''ACCEPT'', ''GETSOCKNAME'',
     ''GETPEERNAME'', ''SEND'', ''RECV'', ''SENDTO'', ''RECVFROM'', ''SHUTDOWN'', ''SETSOCKOPT'',
     ''GETSOCKOPT'', ''SENDMSG'', ''RECVMSG'']"

definition Handle_SOCKETCALL :: "'a world_scheme callback" where
  "Handle_SOCKETCALL E n args w =
     (if arg0 args \<in> SYS E ` set socketcalls then Inr w else Inl (Abort ''Unhandled socketcall''))"

definition Handle_STAT64 :: "'a world_scheme callback" where
  "Handle_STAT64 E n args w = erase_mem (arg1 args) (sizeof_stat64 E) w"

definition Handle_TIME :: "'a world_scheme callback" where
  "Handle_TIME E n args w =
     (if arg0 args \<noteq> 0 then erase_mem (arg0 args) (sizeof_time_t E) w else Inr w)"

definition Handle_UNAME :: "'a world_scheme callback" where
  "Handle_UNAME E n args w = erase_mem (arg0 args) (sizeof_utsname E) w"

section \<open>Handlers that do nothing\<close>

definition Handle_ACCESS :: "'a world_scheme callback" where
  "Handle_ACCESS E n args w = Inr w"

definition Handle_ALARM :: "'a world_scheme callback" where
  "Handle_ALARM E n args w = Inr w"

definition Handle_BRK :: "'a world_scheme callback" where
  "Handle_BRK E n args w = Inr w"

definition Handle_CHMOD :: "'a world_scheme callback" where
  "Handle_CHMOD E n args w = Inr w"

definition Handle_CLOSE :: "'a world_scheme callback" where
  "Handle_CLOSE E n args w = Inr w"

definition Handle_TGKILL :: "'a world_scheme callback" where
  "Handle_TGKILL E n args w = Inr w"

definition Handle_FCNTL64 :: "'a world_scheme callback" where
  "Handle_FCNTL64 E n args w = Inr w"

definition Handle_FLOCK :: "'a world_scheme callback" where
  "Handle_FLOCK E n args w = Inr w"

definition Handle_FSYNC :: "'a world_scheme callback" where
  "Handle_FSYNC E n args w = Inr w"

definition Handle_FTRUNCATE :: "'a world_scheme callback" where
  "Handle_FTRUNCATE E n args w = Inr w"

definition Handle_GETPID :: "'a world_scheme callback" where
  "Handle_GETPID E n args w = Inr w"

definition Handle_GETTID :: "'a world_scheme callback" where
  "Handle_GETTID E n args w = Inr w"

definition Handle_GETUID32 :: "'a world_scheme callback" where
  "Handle_GETUID32 E n args w = Inr w"

definition Handle_IOCTL :: "'a world_scheme callback" where
  "Handle_IOCTL E n args w = Inr w"

definition Handle_LINK :: "'a world_scheme callback" where
  "Handle_LINK E n args w = Inr w"

definition Handle_LLSEEK :: "'a world_scheme callback" where
  "Handle_LLSEEK E n args w = Inr w"

definition Handle_LSEEK :: "'a world_scheme callback" where
  "Handle_LSEEK E n args w = Inr w"

definition Handle_MUNMAP :: "'a world_scheme callback" where
  "Handle_MUNMAP E n args w = Inr w"

definition Handle_MPROTECT :: "'a world_scheme callback" where
  "Handle_MPROTECT E n args w = Inr w"

definition Handle_READ :: "'a world_scheme callback" where
  "Handle_READ E n args w = Inr w"

definition Handle_RENAME :: "'a world_scheme callback" where
  "Handle_RENAME E n args w = Inr w"

definition Handle_SET_THREAD_AREA :: "'a world_scheme callback" where
  "Handle_SET_THREAD_AREA E n args w = Inr w"

definition Handle_UNLINK :: "'a world_scheme callback" where
  "Handle_UNLINK E n args w = Inr w"

definition Handle_UTIME :: "'a world_scheme callback" where
  "Handle_UTIME E n args w = Inr w"

definition Handle_WRITE :: "'a world_scheme callback" where
  "Handle_WRITE E n args w = Inr w"

definition Handle_WRITEV :: "'a world_scheme callback" where
  "Handle_WRITEV E n args w = Inr w"

definition Handle_POLL :: "'a world_scheme callback" where
  "Handle_POLL E n args w = Inr w"

definition Handle_GETGID32 :: "'a world_scheme callback" where
  "Handle_GETGID32 E n args w = Inr w"

definition Handle_GETEUID32 :: "'a world_scheme callback" where
  "Handle_GETEUID32 E n args w = Inr w"

definition Handle_GETEGID32 :: "'a world_scheme callback" where
  "Handle_GETEGID32 E n args w = Inr w"

definition Handle_GETDENTS :: "'a world_scheme callback" where
  "Handle_GETDENTS E n args w = Inr w"

definition Handle_CLONE :: "'a world_scheme callback" where
  "Handle_CLONE E n args w = Inr w"

definition Handle_DUP2 :: "'a world_scheme callback" where
  "Handle_DUP2 E n args w = Inr w"

definition Handle_WAITPID :: "'a world_scheme callback" where
  "Handle_WAITPID E n args w = Inr w"

definition Handle_SET_TID_ADDRESS :: "'a world_scheme callback" where
  "Handle_SET_TID_ADDRESS E n args w = Inr w"

definition Handle_CHOWN32 :: "'a world_scheme callback" where
  "Handle_CHOWN32 E n args w = Inr w"

lemmas pass_defs =
  Handle_ACCESS_def Handle_ALARM_def Handle_BRK_def Handle_CHMOD_def
  Handle_CLOSE_def Handle_TGKILL_def Handle_FCNTL64_def Handle_FLOCK_def
  Handle_FSYNC_def Handle_FTRUNCATE_def Handle_GETPID_def Handle_GETTID_def
  Handle_GETUID32_def Handle_IOCTL_def Handle_LINK_def Handle_LLSEEK_def
  Handle_LSEEK_def Handle_MUNMAP_def Handle_MPROTECT_def Handle_READ_def
  Handle_RENAME_def Handle_SET_THREAD_AREA_def Handle_UNLINK_def Handle_UTIME_def
  Handle_WRITE_def Handle_WRITEV_def Handle_POLL_def Handle_GETGID32_def
  Handle_GETEUID32_def Handle_GETEGID32_def Handle_GETDENTS_def Handle_CLONE_def
  Handle_DUP2_def Handle_WAITPID_def Handle_SET_TID_ADDRESS_def Handle_CHOWN32_def

section \<open>Properties of the handlers\<close>

definition v_erase_mem :: "ADDRINT \<Rightarrow> ADDRINT \<Rightarrow> taint_view \<Rightarrow> taint_view" where
  "v_erase_mem start finish v = v\<lparr>v_mem := \<lambda>a. if a \<in> {start..<finish} then None else v_mem v a\<rparr>"

lemma erase_range_eq:
  "erase_range start finish s =
     s\<lparr>memTaintMap := \<lambda>a. if a \<in> {start..<finish} then None else memTaintMap s a\<rparr>"
proof -
  have "fold (\<lambda>addr s. case memTaintMap s addr of None \<Rightarrow> s
        | Some b \<Rightarrow> s\<lparr>memTaintMap := (memTaintMap s)(addr := None)\<rparr>) as s =
      s\<lparr>memTaintMap := \<lambda>a. if a \<in> set as then None else memTaintMap s a\<rparr>" for as
  proof (induction as arbitrary: s)
    case (Cons a as)
    let ?s1 = "case memTaintMap s a of None \<Rightarrow> s | Some b \<Rightarrow> s\<lparr>memTaintMap := (memTaintMap s)(a := None)\<rparr>"
    have "?s1 = s\<lparr>memTaintMap := (memTaintMap s)(a := None)\<rparr>"
      by (cases s) (auto split: option.splits)
    moreover have "(\<lambda>x. if x \<in> set as then None else ((memTaintMap s)(a := None)) x) =
        (\<lambda>x. if x \<in> set (a # as) then None else memTaintMap s x)" by auto
    ultimately show ?case using Cons[of ?s1] by (simp del: fun_upd_apply cong: if_cong)
  qed simp
  then show ?thesis by (simp add: erase_range_def set_addr_range cong: if_cong)
qed

lemma erase_range_refines:
  "state_inv s \<Longrightarrow> steps_to s (Inr (erase_range start finish s)) (v_erase_mem start finish)"
  by (auto simp: erase_range_eq steps_to_def state_inv_def wf_map_def num_marks_def cfg_def tview_def
      v_erase_mem_def fun_eq_iff)

text \<open>The effect of clearing several ranges.\<close>

lemma erase_ranges_marks:
  "state_inv (taint w) \<Longrightarrow>
   \<exists>w'. rfold (\<lambda>(start, len). erase_mem start len) ranges w = Inr w' \<and> state_inv (taint w') \<and>
     mem_marks (taint w') = (\<lambda>a. if \<exists>(start, len) \<in> set ranges. start \<le> a \<and> a < start + len then {} else mem_marks (taint w) a) \<and>
     reg_marks (taint w') = reg_marks (taint w) \<and> v_ctl (tview (taint w')) = v_ctl (tview (taint w)) \<and> openFiles w' = openFiles w"
proof (induction ranges arbitrary: w)
  case (Cons r ranges)
  obtain start len where r: "r = (start, len)" by (cases r)
  let ?s = "erase_range start (start + len) (taint w)"
  have s: "state_inv ?s" "tview ?s = v_erase_mem start (start + len) (tview (taint w))"
    using erase_range_refines[OF Cons.prems, of start "start + len"] by (auto elim!: steps_toE)
  have m: "mem_marks ?s = (\<lambda>a. if start \<le> a \<and> a < start + len then {} else mem_marks (taint w) a)"
      "reg_marks ?s = reg_marks (taint w)" "v_ctl (tview ?s) = v_ctl (tview (taint w))"
    unfolding mem_marks_def[abs_def] reg_marks_def[abs_def] s(2) v_erase_mem_def by (simp_all add: fun_eq_iff)
  have "erase_mem start len w = Inr (w\<lparr>taint := ?s\<rparr>)" by (simp add: erase_mem_def)
  with Cons.IH[of "w\<lparr>taint := ?s\<rparr>"] s(1) m show ?case
    unfolding r by (auto simp: fun_eq_iff simp del: tview_sel)
qed simp

text \<open>The part of the monitor's state that belongs to one thread.\<close>

lemma sys_step_other_thread:
  assumes "sys_step E ev (m, w) = Inr (m', w')" "event_thread ev \<noteq> tid"
  shows "pendingSyscalls m' tid = pendingSyscalls m tid"
  using assms
  by (cases ev) (auto simp: beginSyscall_def endSyscall_def Let_def rbind_eq_Inr)

lemma sys_step_observers:
  assumes "sys_step E ev (m, w) = Inr (m', w')"
  shows "observers m' = observers m" "defaultObserver m' = defaultObserver m"
  using assms by (cases ev; auto simp: beginSyscall_def endSyscall_def Let_def rbind_eq_Inr)+

lemma other_threads_pending:
  "rfold (sys_step E) evs (m, w) = Inr (m', w') \<Longrightarrow> list_all (\<lambda>ev. event_thread ev \<noteq> tid) evs \<Longrightarrow>
     pendingSyscalls m' tid = pendingSyscalls m tid \<and> observers m' = observers m \<and>
     defaultObserver m' = defaultObserver m"
proof (induction evs arbitrary: m w)
  case (Cons ev evs)
  from Cons.prems(1) obtain m1 w1 where 1: "sys_step E ev (m, w) = Inr (m1, w1)"
      "rfold (sys_step E) evs (m1, w1) = Inr (m', w')" by (auto simp: rbind_eq_Inr)
  with Cons sys_step_other_thread[OF 1(1), of tid] sys_step_observers[OF 1(1)] show ?case by auto
qed simp


section \<open>Observers that keep an invariant\<close>

definition monitor_ok ::
  "(syscall_arguments \<Rightarrow> bool) \<Rightarrow> (32 word \<Rightarrow> 'w callback \<Rightarrow> bool) \<Rightarrow> 'w syscall_monitor \<Rightarrow> bool" where
  "monitor_ok aok cbok m \<longleftrightarrow>
     (\<forall>n cbs. observers m n = Some cbs \<longrightarrow> list_all (cbok n) cbs) \<and>
     (\<forall>n cb. defaultObserver m = Some cb \<longrightarrow> cbok n cb) \<and>
     (\<forall>tid args. pendingSyscalls m tid = Some args \<longrightarrow> aok args)"

fun event_args_ok :: "(syscall_arguments \<Rightarrow> bool) \<Rightarrow> sys_event \<Rightarrow> bool" where
  "event_args_ok aok (SysBefore tid n a0 a1 a2 a3 a4 a5) \<longleftrightarrow>
     aok \<lparr>num = n, arg0 = a0, arg1 = a1, arg2 = a2, arg3 = a3, arg4 = a4, arg5 = a5, ret = 0, err = 0\<rparr>"
| "event_args_ok aok (SysAfter tid r e) \<longleftrightarrow> True"

text \<open>The contract between the monitor and its observers: on acceptable arguments, an acceptable
  observer succeeds and keeps the invariant of the world.\<close>

locale monitored =
  fixes E :: sys_env
    and good :: "'w \<Rightarrow> bool"
    and aok :: "syscall_arguments \<Rightarrow> bool"
    and cbok :: "32 word \<Rightarrow> 'w callback \<Rightarrow> bool"
  assumes aok_ret: "aok a \<Longrightarrow> aok (a\<lparr>ret := r, err := e\<rparr>)"
    and cb_ok: "cbok (num args) cb \<Longrightarrow> aok args \<Longrightarrow> good w \<Longrightarrow> \<exists>w'. cb E (num args) args w = Inr w' \<and> good w'"
begin

lemma run_observers:
  "list_all (cbok (num args)) cbs \<Longrightarrow> aok args \<Longrightarrow> good w \<Longrightarrow>
     \<exists>w'. rfold (\<lambda>cb. cb E (num args) args) cbs w = Inr w' \<and> good w'"
proof (induction cbs arbitrary: w)
  case (Cons cb cbs)
  obtain w1 where "cb E (num args) args w = Inr w1" "good w1"
    using cb_ok[of args cb w] Cons.prems by auto
  with Cons show ?case by auto
qed simp

lemma step_ok:
  assumes z: "aok zero_args" and w: "good w" and m: "monitor_ok aok cbok m" and ev: "event_args_ok aok ev"
  shows "\<exists>m' w'. sys_step E ev (m, w) = Inr (m', w') \<and> good w' \<and> monitor_ok aok cbok m'"
proof (cases ev)
  case (SysBefore tid n a0 a1 a2 a3 a4 a5)
  then show ?thesis using w m ev by (auto simp: monitor_ok_def beginSyscall_def)
next
  case (SysAfter tid r e)
  let ?pend = "case pendingSyscalls m tid of Some a \<Rightarrow> a | None \<Rightarrow> zero_args"
  let ?args = "?pend\<lparr>ret := r, err := e\<rparr>"
  let ?m1 = "m\<lparr>pendingSyscalls := (pendingSyscalls m)(tid \<mapsto> ?pend)\<rparr>"
  have pend: "aok ?pend" using m z by (auto simp: monitor_ok_def split: option.splits)
  then have args: "aok ?args" by (rule aok_ret)
  let ?run = "case observers m (num ?args) of Some cbs \<Rightarrow> rfold (\<lambda>cb. cb E (num ?args) ?args) cbs w
    | None \<Rightarrow> (case defaultObserver m of Some cb \<Rightarrow> cb E (num ?args) ?args w | None \<Rightarrow> Inr w)"
  have "\<exists>w'. ?run = Inr w' \<and> good w'"
  proof (cases "observers m (num ?args)")
    case (Some cbs)
    with m have "list_all (cbok (num ?args)) cbs" by (simp add: monitor_ok_def)
    from run_observers[OF this args w] Some show ?thesis by simp
  next
    case None
    with m w cb_ok[OF _ args w] show ?thesis by (auto simp: monitor_ok_def split: option.split)
  qed
  then obtain w' where w': "?run = Inr w'" "good w'" by blast
  have "sys_step E ev (m, w) = Inr (?m1, w')"
    using w'(1) SysAfter by (simp add: endSyscall_def Let_def cong: option.case_cong)
  moreover have "monitor_ok aok cbok ?m1" using m pend by (simp add: monitor_ok_def)
  ultimately show ?thesis using w' by simp
qed

end

end
