(* ===== verification/Taint_Source_Path.thy ===== *)
theory Taint_Source_Path
  imports Syscall_Monitor
begin

text \<open>
  Files as taint sources: the path monitor (\<open>monitor_path.cpp\<close>), which follows the file
  descriptors of observed paths, and the path taint source (\<open>taint_source_path.cpp\<close>), whose
  callbacks taint the buffer of a read. A \<open>PathMonitor *\<close> is an index into the list of the
  path monitors that were created.
\<close>

section \<open>Tainting a buffer\<close>

datatype taint_range_t = PerByte | PerRead

definition next_tag :: "taint_state \<Rightarrow> (int \<times> taint_state) result" where
  "next_tag s = (case taintGen s of
     None \<Rightarrow> Inl Undefined
   | Some g \<Rightarrow> rbind (nextTaintMark g) (\<lambda>(m, g'). Inr (m, s\<lparr>taintGen := Some g'\<rparr>)))"

definition put_copy :: "bitset \<Rightarrow> ADDRINT \<Rightarrow> taint_state \<Rightarrow> taint_state result" where
  "put_copy b addr s = rbind (bitset_copy b)
     (\<lambda>c. Inr (s\<lparr>memTaintMap := (memTaintMap s)(addr \<mapsto> c)\<rparr>))"

text \<open>One byte with a mark of its own; the scratch bitset is empty before and after.\<close>

definition taint_byte :: "ADDRINT \<Rightarrow> bitset \<times> taint_state \<Rightarrow> (bitset \<times> taint_state) result" where
  "taint_byte addr = (\<lambda>(b, s).
     rbind (next_tag s) (\<lambda>(tag, s1).
     rbind (bitset_set_bit b (word_of_int tag)) (\<lambda>b1.
     rbind (put_copy b1 addr s1) (\<lambda>s2.
     rbind (bitset_reset b1) (\<lambda>b2. Inr (b2, s2))))))"

type_synonym path_callback = "string \<Rightarrow> syscall_arguments \<Rightarrow> taint_state \<Rightarrow> taint_state result"

definition pathSourceReadCallbackPerByte :: path_callback where
  "pathSourceReadCallbackPerByte pathname args s =
     (let start = arg1 args; finish = start + ret args in
      if sint (ret args) \<le> 0 then Inr s
      else cassert (taintGen s \<noteq> None)
        (rbind (rfold taint_byte (addr_range start finish) (bitset_init (num_marks s), s))
          (\<lambda>(b, s'). Inr s')))"

definition pathSourceReadCallbackPerRead :: path_callback where
  "pathSourceReadCallbackPerRead pathname args s =
     (let start = arg1 args; finish = start + ret args in
      if sint (ret args) \<le> 0 then Inr s
      else cassert (taintGen s \<noteq> None)
        (rbind (next_tag s) (\<lambda>(tag, s1).
         rbind (bitset_set_bit (bitset_init (num_marks s)) (word_of_int tag)) (\<lambda>b.
         rfold (put_copy b) (addr_range start finish) s1))))"

definition pathSourceReadDefault :: path_callback where
  "pathSourceReadDefault pathname args s = Inr s"

section \<open>The path monitor\<close>

record path_monitor =
  observeEverything :: bool
  pathDefaultObserver :: "path_callback option"
  allObserver :: "path_callback option"
  pathObservers :: "string \<Rightarrow> path_callback list option"
  activeFileDescriptors :: "int \<Rightarrow> string option"

record path_world = world +
  pathMonitors :: "path_monitor list"

definition new_PathMonitor :: "bool \<Rightarrow> path_monitor" where
  "new_PathMonitor observeAll =
     \<lparr>observeEverything = observeAll, pathDefaultObserver = None, allObserver = None,
      pathObservers = (\<lambda>p. None), activeFileDescriptors = (\<lambda>fd. None)\<rparr>"

definition observePath :: "string \<Rightarrow> path_callback \<Rightarrow> path_monitor \<Rightarrow> path_monitor" where
  "observePath pathname cb pm =
     pm\<lparr>pathObservers := (pathObservers pm)
         (pathname \<mapsto> (case pathObservers pm pathname of None \<Rightarrow> [] | Some cbs \<Rightarrow> cbs) @ [cb])\<rparr>"

definition registerCallbackForAll :: "path_callback \<Rightarrow> path_monitor \<Rightarrow> path_monitor" where
  "registerCallbackForAll cb pm = pm\<lparr>allObserver := Some cb\<rparr>"

definition registerDefault :: "path_callback \<Rightarrow> path_monitor \<Rightarrow> path_monitor" where
  "registerDefault cb pm = pm\<lparr>pathDefaultObserver := Some cb\<rparr>"

definition addActiveFileDescriptor :: "int \<Rightarrow> string \<Rightarrow> path_monitor \<Rightarrow> path_monitor" where
  "addActiveFileDescriptor fd pathname pm =
     pm\<lparr>activeFileDescriptors := (activeFileDescriptors pm)(fd \<mapsto> pathname)\<rparr>"

definition removeActiveFileDescriptor :: "int \<Rightarrow> path_monitor \<Rightarrow> path_monitor" where
  "removeActiveFileDescriptor fd pm =
     pm\<lparr>activeFileDescriptors := (activeFileDescriptors pm)(fd := None)\<rparr>"

definition notifyForRead :: "path_monitor \<Rightarrow> syscall_arguments \<Rightarrow> taint_state \<Rightarrow> taint_state result" where
  "notifyForRead pm args s =
     (case activeFileDescriptors pm (sint (arg0 args)) of
        None \<Rightarrow> Inr s
      | Some pathname \<Rightarrow>
          (case pathObservers pm pathname of
             None \<Rightarrow>
               if observeEverything pm then
                 (case allObserver pm of Some cb \<Rightarrow> cb pathname args s | None \<Rightarrow> Inr s)
               else
                 (case pathDefaultObserver pm of Some cb \<Rightarrow> cb pathname args s | None \<Rightarrow> Inr s)
           | Some cbs \<Rightarrow> rfold (\<lambda>cb. cb pathname args) cbs s))"

text \<open>The callbacks that the path monitor with index \<open>i\<close> registers.\<close>

definition upd_path_monitor ::
  "nat \<Rightarrow> (path_monitor \<Rightarrow> path_monitor) \<Rightarrow> 'a path_world_scheme \<Rightarrow> 'a path_world_scheme result" where
  "upd_path_monitor i f w =
     (if i < length (pathMonitors w)
      then Inr (w\<lparr>pathMonitors := (pathMonitors w)[i := f (pathMonitors w ! i)]\<rparr>)
      else Inl Undefined)"

definition openCallback :: "nat \<Rightarrow> 'a path_world_scheme callback" where
  "openCallback i E n args w =
     (if sint (ret args) = -1 then Inr w
      else if can_read E (arg0 args)
      then upd_path_monitor i (addActiveFileDescriptor (sint (ret args)) (cstring E (arg0 args))) w
      else Inl Undefined)"

definition closeCallback :: "nat \<Rightarrow> 'a path_world_scheme callback" where
  "closeCallback i E n args w =
     (if sint (ret args) = -1 then Inr w
      else upd_path_monitor i (removeActiveFileDescriptor (sint (arg0 args))) w)"

definition readCallback :: "nat \<Rightarrow> 'a path_world_scheme callback" where
  "readCallback i E n args w =
     (if sint (ret args) = -1 then Inr w
      else if i < length (pathMonitors w) then
        rbind (notifyForRead (pathMonitors w ! i) args (taint w)) (\<lambda>s. Inr (w\<lparr>taint := s\<rparr>))
      else Inl Undefined)"

definition path_activate ::
  "sys_env \<Rightarrow> nat \<Rightarrow> 'a path_world_scheme syscall_monitor \<Rightarrow> 'a path_world_scheme syscall_monitor" where
  "path_activate E i m =
     addObserver (SYS E ''read'') (readCallback i)
       (addObserver (SYS E ''close'') (closeCallback i)
         (addObserver (SYS E ''open'') (openCallback i) m))"

section \<open>The path taint source\<close>

definition new_PathTaintSource ::
  "sys_env \<Rightarrow> bool \<Rightarrow> 'a path_world_scheme syscall_monitor \<times> 'a path_world_scheme \<Rightarrow>
   nat \<times> 'a path_world_scheme syscall_monitor \<times> 'a path_world_scheme" where
  "new_PathTaintSource E observeAll = (\<lambda>(m, w).
     let i = length (pathMonitors w);
         pm = registerDefault pathSourceReadDefault (new_PathMonitor observeAll)
     in (i, path_activate E i m, w\<lparr>pathMonitors := pathMonitors w @ [pm]\<rparr>))"

fun path_read_callback :: "taint_range_t \<Rightarrow> path_callback" where
  "path_read_callback PerByte = pathSourceReadCallbackPerByte"
| "path_read_callback PerRead = pathSourceReadCallbackPerRead"

definition path_addObserverForAll ::
  "nat \<Rightarrow> taint_range_t \<Rightarrow> 'a path_world_scheme \<Rightarrow> 'a path_world_scheme result" where
  "path_addObserverForAll i ty w = upd_path_monitor i (registerCallbackForAll (path_read_callback ty)) w"

definition addPathSource ::
  "nat \<Rightarrow> string \<Rightarrow> taint_range_t \<Rightarrow> 'a path_world_scheme \<Rightarrow> 'a path_world_scheme result" where
  "addPathSource i pathname ty w = upd_path_monitor i (observePath pathname (path_read_callback ty)) w"

section \<open>Properties of the callbacks\<close>

lemma put_copy_loop:
  "bitset_wf nb b \<Longrightarrow> rfold (put_copy b) as s =
     Inr (s\<lparr>memTaintMap := \<lambda>a. if a \<in> set as then Some b else memTaintMap s a\<rparr>)"
  using new_taint_loop[of nb b as s] unfolding put_copy_def[abs_def] .

text \<open>Drawing the next mark of a usable generator.\<close>

lemma next_tag_ok:
  assumes inv: "state_inv s" and g: "gen_ok s"
  shows "\<exists>tag g'. next_tag s = Inr (tag, s\<lparr>taintGen := Some g'\<rparr>) \<and> 0 \<le> tag \<and> tag < NUMBER_OF_TAINT_MARKS s \<and>
    nextTaintMark (the (taintGen s)) = Inr (tag, g') \<and> gen_ok (s\<lparr>taintGen := Some g'\<rparr>)"
proof -
  from g obtain gen where gen: "taintGen s = Some gen" "gen_inv 0 (NUMBER_OF_TAINT_MARKS s) gen"
    by (auto simp: gen_ok_def split: option.splits)
  from nextTaintMark_inv[OF gen(2)] gen(1) show ?thesis
    by (auto simp: next_tag_def gen_ok_def)
qed

text \<open>What tainting memory keeps besides the invariant: the number of marks and the flags.\<close>

type_synonym src_settings = "int \<times> bool \<times> bool \<times> bool \<times> int \<times> bool \<times> string"

definition src_cfg :: "taint_state \<Rightarrow> src_settings" where
  "src_cfg s = (NUMBER_OF_TAINT_MARKS s, profiling_marks s, profiling_markop s, word_mode s, word_size s,
     prof_ok s, dead_log s)"

lemma src_cfg_upd [simp]:
  "src_cfg (s\<lparr>taintGen := g\<rparr>) = src_cfg s" "src_cfg (s\<lparr>memTaintMap := mm\<rparr>) = src_cfg s"
  by (simp_all add: src_cfg_def)

lemma gen_ok_mem [simp]: "gen_ok (s\<lparr>memTaintMap := mm\<rparr>) \<longleftrightarrow> gen_ok s"
  by (simp add: gen_ok_def cong: option.case_cong)

lemma gen_ok_Some: "gen_ok s \<Longrightarrow> taintGen s \<noteq> None"
  by (auto simp: gen_ok_def split: option.splits)

text \<open>One mark for the whole range.\<close>

lemma taint_per_read_ok:
  assumes inv: "state_inv s" and g: "gen_ok s"
  shows "\<exists>m s'. rbind (next_tag s) (\<lambda>(tag, s1).
         rbind (bitset_set_bit (bitset_init (num_marks s)) (word_of_int tag)) (\<lambda>b.
         rfold (put_copy b) (addr_range start finish) s1)) = Inr s' \<and>
    state_inv s' \<and> gen_ok s' \<and> src_cfg s' = src_cfg s \<and> m < nat (NUMBER_OF_TAINT_MARKS s) \<and>
    tview s' = v_put_mem {start..<finish} {m} (tview s)"
proof -
  obtain tag g' where t: "next_tag s = Inr (tag, s\<lparr>taintGen := Some g'\<rparr>)" "0 \<le> tag"
      "tag < NUMBER_OF_TAINT_MARKS s" "gen_ok (s\<lparr>taintGen := Some g'\<rparr>)"
    using next_tag_ok[OF assms] by blast
  obtain b where b: "bitset_set_bit (bitset_init (num_marks s)) (word_of_int tag) = Inr b"
      "bitset_wf (num_marks s) b" "marks b = {nat tag}"
    using fresh_bitset[OF inv t(2,3)] by blast
  let ?s1 = "s\<lparr>taintGen := Some g'\<rparr>"
  let ?s' = "?s1\<lparr>memTaintMap := \<lambda>a. if a \<in> set (addr_range start finish) then Some b else memTaintMap ?s1 a\<rparr>"
  have b1: "bitset_wf (num_marks ?s1) b" using b(2) by (simp add: num_marks_def)
  have "mem_upd (\<lambda>a. a \<in> set (addr_range start finish)) b ?s1 ?s'" by (simp add: mem_upd_def)
  from mem_upd_steps_to[OF taintGen_upd_inv[OF inv] b1 this]
  have "state_inv ?s'" "tview ?s' = v_put_mem {start..<finish} {nat tag} (tview s)"
    by (simp_all add: steps_to_def v_put_mem_def b(3) cong: if_cong)
  moreover have "nat tag < nat (NUMBER_OF_TAINT_MARKS s)" using t(2,3) by simp
  moreover have "rfold (put_copy b) (addr_range start finish) ?s1 = Inr ?s'" by (rule put_copy_loop[OF b(2)])
  ultimately show ?thesis
    using t(1,4) b(1) by (intro exI[of _ "nat tag"] exI[of _ ?s']) simp
qed

text \<open>A fresh mark for every byte: the marks are those the generator hands out, in order.\<close>

definition v_put_bytes :: "ADDRINT list \<Rightarrow> int list \<Rightarrow> taint_view \<Rightarrow> taint_view" where
  "v_put_bytes as ms v = fold (\<lambda>(a, m). v_put_mem {a} {nat m}) (zip as ms) v"

lemma taint_byte_ok:
  assumes inv: "state_inv s" and g: "gen_ok s"
  shows "\<exists>tag g' s'. taint_byte a (bitset_init (num_marks s), s) = Inr (bitset_init (num_marks s), s') \<and>
    nextTaintMark (the (taintGen s)) = Inr (tag, g') \<and> taintGen s' = Some g' \<and> state_inv s' \<and> gen_ok s' \<and>
    src_cfg s' = src_cfg s \<and> tview s' = v_put_mem {a} {nat tag} (tview s)"
proof -
  obtain tag g' where t: "next_tag s = Inr (tag, s\<lparr>taintGen := Some g'\<rparr>)" "0 \<le> tag"
      "tag < NUMBER_OF_TAINT_MARKS s" "nextTaintMark (the (taintGen s)) = Inr (tag, g')"
      "gen_ok (s\<lparr>taintGen := Some g'\<rparr>)"
    using next_tag_ok[OF assms] by blast
  obtain b where b: "bitset_set_bit (bitset_init (num_marks s)) (word_of_int tag) = Inr b"
      "bitset_wf (num_marks s) b" "marks b = {nat tag}"
    using fresh_bitset[OF inv t(2,3)] by blast
  let ?s1 = "s\<lparr>taintGen := Some g'\<rparr>"
  let ?s' = "?s1\<lparr>memTaintMap := (memTaintMap ?s1)(a \<mapsto> b)\<rparr>"
  have b1: "bitset_wf (num_marks ?s1) b" using b(2) by (simp add: num_marks_def)
  have "mem_upd (\<lambda>x. x = a) b ?s1 ?s'" by (simp add: mem_upd_def fun_upd_def cong: if_cong)
  from mem_upd_steps_to[OF taintGen_upd_inv[OF inv] b1 this]
  have "state_inv ?s'" "tview ?s' = v_put_mem {a} {nat tag} (tview s)"
    by (simp_all add: steps_to_def v_put_mem_def b(3) cong: if_cong)
  moreover have "taint_byte a (bitset_init (num_marks s), s) = Inr (bitset_init (num_marks s), ?s')"
    using t(1) b(1) by (simp add: taint_byte_def put_copy_def bitset_copy_ok[OF b(2)] bitset_reset_ok[OF b(2)])
  ultimately show ?thesis using t(4,5) by (intro exI[of _ tag] exI[of _ g'] exI[of _ ?s']) simp
qed

lemma taint_bytes_ok:
  "state_inv s \<Longrightarrow> gen_ok s \<Longrightarrow>
   \<exists>ms g' s'. rfold taint_byte as (bitset_init (num_marks s), s) = Inr (bitset_init (num_marks s), s') \<and>
     draw_marks (length as) (the (taintGen s)) = Inr (ms, g') \<and> taintGen s' = Some g' \<and> state_inv s' \<and>
     gen_ok s' \<and> src_cfg s' = src_cfg s \<and> tview s' = v_put_bytes as ms (tview s)"
proof (induction as arbitrary: s)
  case Nil
  then show ?case by (auto simp: v_put_bytes_def gen_ok_def split: option.splits)
next
  case (Cons a as)
  obtain tag g1 s1 where 1: "taint_byte a (bitset_init (num_marks s), s) = Inr (bitset_init (num_marks s), s1)"
      "nextTaintMark (the (taintGen s)) = Inr (tag, g1)" "taintGen s1 = Some g1" "state_inv s1" "gen_ok s1"
      "src_cfg s1 = src_cfg s" "tview s1 = v_put_mem {a} {nat tag} (tview s)"
    using taint_byte_ok[OF Cons.prems] by blast
  have nm: "num_marks s1 = num_marks s" using 1(6) by (simp add: src_cfg_def num_marks_def)
  from Cons.IH[OF 1(4,5)] obtain ms g2 s2 where 2:
      "rfold taint_byte as (bitset_init (num_marks s), s1) = Inr (bitset_init (num_marks s), s2)"
      "draw_marks (length as) g1 = Inr (ms, g2)" "taintGen s2 = Some g2" "state_inv s2" "gen_ok s2"
      "src_cfg s2 = src_cfg s1" "tview s2 = v_put_bytes as ms (tview s1)"
    unfolding nm 1(3) by auto
  from 1 2 show ?case
    by (intro exI[of _ "tag # ms"] exI[of _ g2] exI[of _ s2]) (simp add: v_put_bytes_def)
qed

lemma v_put_bytes_nth:
  "distinct as \<Longrightarrow> length ms = length as \<Longrightarrow> i < length as \<Longrightarrow>
     v_mem (v_put_bytes as ms v) (as ! i) = Some {nat (ms ! i)}"
proof (induction as arbitrary: ms v i)
  case (Cons a as)
  then obtain m ms' where ms: "ms = m # ms'" by (cases ms) auto
  have other: "b \<notin> set bs \<Longrightarrow> v_mem (v_put_bytes bs ns u) b = v_mem u b" for b bs ns u
    by (induction bs arbitrary: ns u) (auto simp: v_put_bytes_def v_put_mem_def zip_Cons1 split: list.splits)
  from Cons ms other[of a as ms'] show ?case
    by (cases i) (auto simp: v_put_bytes_def v_put_mem_def)
qed simp

lemma v_put_bytes_other: "a \<notin> set as \<Longrightarrow> v_mem (v_put_bytes as ms v) a = v_mem v a"
  by (induction as arbitrary: ms v) (auto simp: v_put_bytes_def v_put_mem_def zip_Cons1 split: list.splits)

section \<open>Safety of the path monitor\<close>

definition path_callbacks :: "path_callback set" where
  "path_callbacks = {pathSourceReadCallbackPerByte, pathSourceReadCallbackPerRead, pathSourceReadDefault}"

definition source_inv :: "src_settings \<Rightarrow> taint_state \<Rightarrow> bool" where
  "source_inv c s \<longleftrightarrow> state_inv s \<and> gen_ok s \<and> src_cfg s = c"

lemma pathSourceReadCallbackPerRead_ok:
  assumes "state_inv s" "gen_ok s" "0 < sint (ret args)"
  shows "\<exists>m s'. pathSourceReadCallbackPerRead p args s = Inr s' \<and> state_inv s' \<and> gen_ok s' \<and>
    src_cfg s' = src_cfg s \<and> m < nat (NUMBER_OF_TAINT_MARKS s) \<and>
    tview s' = v_put_mem {arg1 args..<arg1 args + ret args} {m} (tview s)"
  using taint_per_read_ok[OF assms(1,2), of "arg1 args" "arg1 args + ret args"] assms(3) gen_ok_Some[OF assms(2)]
  by (simp add: pathSourceReadCallbackPerRead_def Let_def)

lemma pathSourceReadCallbackPerByte_ok:
  assumes "state_inv s" "gen_ok s" "0 < sint (ret args)"
  shows "\<exists>ms g' s'. pathSourceReadCallbackPerByte p args s = Inr s' \<and>
    draw_marks (length (addr_range (arg1 args) (arg1 args + ret args))) (the (taintGen s)) = Inr (ms, g') \<and>
    taintGen s' = Some g' \<and> state_inv s' \<and> gen_ok s' \<and> src_cfg s' = src_cfg s \<and>
    tview s' = v_put_bytes (addr_range (arg1 args) (arg1 args + ret args)) ms (tview s)"
  using taint_bytes_ok[OF assms(1,2), of "addr_range (arg1 args) (arg1 args + ret args)"] assms(3)
    gen_ok_Some[OF assms(2)]
  by (auto simp: pathSourceReadCallbackPerByte_def Let_def)

lemma path_callback_safe:
  assumes "source_inv c s" "cb \<in> path_callbacks"
  shows "\<exists>s'. cb p args s = Inr s' \<and> source_inv c s'"
proof (cases "0 < sint (ret args)")
  case True
  then show ?thesis
    using assms pathSourceReadCallbackPerRead_ok[of s args p] pathSourceReadCallbackPerByte_ok[of s args p]
    by (fastforce simp: path_callbacks_def source_inv_def pathSourceReadDefault_def)
next
  case False
  then show ?thesis
    using assms
    by (auto simp: path_callbacks_def pathSourceReadDefault_def pathSourceReadCallbackPerRead_def
        pathSourceReadCallbackPerByte_def Let_def)
qed

interpretation pcb: safe_step "source_inv c" "\<lambda>cb. cb \<in> path_callbacks" "\<lambda>cb. cb p args" for c p args
  by unfold_locales (rule path_callback_safe)

definition pm_ok :: "path_monitor \<Rightarrow> bool" where
  "pm_ok pm \<longleftrightarrow> (\<forall>p cbs. pathObservers pm p = Some cbs \<longrightarrow> set cbs \<subseteq> path_callbacks) \<and>
     set_option (pathDefaultObserver pm) \<subseteq> path_callbacks \<and> set_option (allObserver pm) \<subseteq> path_callbacks"

lemma notifyForRead_safe:
  assumes "pm_ok pm" "source_inv c s"
  shows "\<exists>s'. notifyForRead pm args s = Inr s' \<and> source_inv c s'"
proof (cases "activeFileDescriptors pm (sint (arg0 args))")
  case None
  then show ?thesis using assms(2) by (simp add: notifyForRead_def)
next
  case (Some p)
  show ?thesis
  proof (cases "pathObservers pm p")
    case None
    then show ?thesis
      using Some assms path_callback_safe[OF assms(2)]
      by (auto simp: notifyForRead_def pm_ok_def split: option.splits)
  next
    case obs: (Some cbs)
    then have "list_all (\<lambda>cb. cb \<in> path_callbacks) cbs"
      using assms(1) by (auto simp: pm_ok_def list_all_iff)
    from pcb.run_safe[OF assms(2) this] show ?thesis
      using Some obs by (simp add: notifyForRead_def)
  qed
qed

lemma pm_ok_ops:
  "pm_ok (new_PathMonitor observeAll)"
  "pm_ok pm \<Longrightarrow> cb \<in> path_callbacks \<Longrightarrow> pm_ok (observePath p cb pm)"
  "pm_ok pm \<Longrightarrow> cb \<in> path_callbacks \<Longrightarrow> pm_ok (registerCallbackForAll cb pm)"
  "pm_ok pm \<Longrightarrow> cb \<in> path_callbacks \<Longrightarrow> pm_ok (registerDefault cb pm)"
  "pm_ok pm \<Longrightarrow> pm_ok (addActiveFileDescriptor fd p pm)"
  "pm_ok pm \<Longrightarrow> pm_ok (removeActiveFileDescriptor fd pm)"
  by (auto simp: pm_ok_def new_PathMonitor_def observePath_def registerCallbackForAll_def
      registerDefault_def addActiveFileDescriptor_def removeActiveFileDescriptor_def
      split: option.splits if_splits dest: sym[of "Some _"])

lemma path_read_callback_ok: "path_read_callback ty \<in> path_callbacks"
  by (cases ty) (simp_all add: path_callbacks_def)

text \<open>Descriptors: after a successful \<open>open\<close> the descriptor is followed until it is closed.\<close>

lemma activeFileDescriptors_ops [simp]:
  "activeFileDescriptors (addActiveFileDescriptor fd p pm) = (activeFileDescriptors pm)(fd \<mapsto> p)"
  "activeFileDescriptors (removeActiveFileDescriptor fd pm) = (activeFileDescriptors pm)(fd := None)"
  by (simp_all add: addActiveFileDescriptor_def removeActiveFileDescriptor_def)

end
