(* ===== verification/Taint_Source_Network.thy ===== *)
theory Taint_Source_Network
  imports Taint_Source_Path
begin

text \<open>
  Network connections as taint sources: \<open>monitor_network.cpp\<close> and
  \<open>taint_source_network.cpp\<close>. The comparator of the map of observed addresses is not a strict
  weak order on all addresses, and \<open>std::map\<close> promises nothing for an order that is not one. An
  operation on the map is therefore undefined unless the comparator is a strict weak order on the
  keys of the map and the key of the operation; where it is, the map is searched with the
  equivalence of the comparator (neither address less than the other).
\<close>

record NetworkAddress =
  ip :: "32 word"
  port :: "16 word"
  strAddress :: string

definition NetworkAddress_cmp :: "NetworkAddress \<Rightarrow> NetworkAddress \<Rightarrow> bool" where
  "NetworkAddress_cmp a b \<longleftrightarrow> ip a < ip b \<or> port a <s port b"

definition addr_equiv :: "NetworkAddress \<Rightarrow> NetworkAddress \<Rightarrow> bool" where
  "addr_equiv a b \<longleftrightarrow> \<not> NetworkAddress_cmp a b \<and> \<not> NetworkAddress_cmp b a"

text \<open>What \<open>std::map\<close> requires of a comparator, on the keys that it is applied to.\<close>

definition strict_weak_on :: "('a \<Rightarrow> 'a \<Rightarrow> bool) \<Rightarrow> 'a list \<Rightarrow> bool" where
  "strict_weak_on lt xs \<longleftrightarrow>
     (\<forall>a \<in> set xs. \<not> lt a a) \<and>
     (\<forall>a \<in> set xs. \<forall>b \<in> set xs. \<forall>c \<in> set xs.
        (lt a b \<and> lt b c \<longrightarrow> lt a c) \<and>
        (\<not> lt a b \<and> \<not> lt b a \<and> \<not> lt b c \<and> \<not> lt c b \<longrightarrow> \<not> lt a c \<and> \<not> lt c a))"

definition zero_address :: NetworkAddress where
  "zero_address = \<lparr>ip = 0, port = 0, strAddress = ''''\<rparr>"

type_synonym net_callback = "NetworkAddress \<Rightarrow> ADDRINT \<Rightarrow> size_t \<Rightarrow> taint_state \<Rightarrow> taint_state result"

section \<open>The callbacks of the network taint source\<close>

definition networkReadCallbackPerByte :: net_callback where
  "networkReadCallbackPerByte networkAddr start len s =
     cassert (taintGen s \<noteq> None)
       (rbind (rfold taint_byte (addr_range start (start + len)) (bitset_init (num_marks s), s))
         (\<lambda>(b, s'). Inr s'))"

definition networkReadCallbackPerRead :: net_callback where
  "networkReadCallbackPerRead networkAddr start len s =
     cassert (taintGen s \<noteq> None)
       (rbind (next_tag s) (\<lambda>(tag, s1).
        rbind (bitset_set_bit (bitset_init (num_marks s)) (word_of_int tag)) (\<lambda>b.
        rfold (put_copy b) (addr_range start (start + len)) s1)))"

definition networkReadDefault :: net_callback where
  "networkReadDefault networkAddr start len s = Inr s"

section \<open>The network monitor\<close>

record network_monitor =
  net_observeEverything :: bool
  defaultAddressObserver :: "net_callback option"
  net_allObserver :: "net_callback option"
  addressObservers :: "(NetworkAddress \<times> net_callback list) list"
  socketToAddress :: "32 word \<Rightarrow> NetworkAddress option"

record tracker = path_world +
  networkMonitors :: "network_monitor list"

definition new_NetworkMonitor :: "bool \<Rightarrow> network_monitor" where
  "new_NetworkMonitor observeAll =
     \<lparr>net_observeEverything = observeAll, defaultAddressObserver = None, net_allObserver = None,
      addressObservers = [], socketToAddress = (\<lambda>sock. None)\<rparr>"

definition registerAddressDefault :: "net_callback \<Rightarrow> network_monitor \<Rightarrow> network_monitor" where
  "registerAddressDefault cb nm = nm\<lparr>defaultAddressObserver := Some cb\<rparr>"

definition net_registerCallbackForAll :: "net_callback \<Rightarrow> network_monitor \<Rightarrow> network_monitor" where
  "net_registerCallbackForAll cb nm = nm\<lparr>net_allObserver := Some cb\<rparr>"

type_synonym address_map = "(NetworkAddress \<times> net_callback list) list"

definition find_address ::
  "NetworkAddress \<Rightarrow> network_monitor \<Rightarrow> (NetworkAddress \<times> net_callback list) option result" where
  "find_address a nm =
     (if strict_weak_on NetworkAddress_cmp (a # map fst (addressObservers nm))
      then Inr (find (\<lambda>(b, cbs). addr_equiv a b) (addressObservers nm))
      else Inl Undefined)"

text \<open>\<open>addressObservers[a].push_back(cb)\<close>: the key that is already in the map stays.\<close>

fun add_to_entry :: "NetworkAddress \<Rightarrow> net_callback \<Rightarrow> address_map \<Rightarrow> address_map" where
  "add_to_entry a cb [] = [(a, [cb])]"
| "add_to_entry a cb ((b, cbs) # es) =
     (if addr_equiv a b then (b, cbs @ [cb]) # es else (b, cbs) # add_to_entry a cb es)"

definition push_observer :: "NetworkAddress \<Rightarrow> net_callback \<Rightarrow> address_map \<Rightarrow> address_map result" where
  "push_observer a cb es =
     (if strict_weak_on NetworkAddress_cmp (a # map fst es) then Inr (add_to_entry a cb es)
      else Inl Undefined)"

text \<open>\<open>atoi\<close> on the strings of the configuration: white space, a sign, digits; a value that is
  not an \<open>int\<close> is undefined.\<close>

fun digits_value :: "int \<Rightarrow> string \<Rightarrow> int" where
  "digits_value n [] = n"
| "digits_value n (c # cs) =
     (if CHR ''0'' \<le> c \<and> c \<le> CHR ''9'' then digits_value (10 * n + (of_char c - 48)) cs else n)"

definition atoi_value :: "string \<Rightarrow> int" where
  "atoi_value s = (case dropWhile (\<lambda>c. c = CHR '' '' \<or> CHR 0x09 \<le> c \<and> c \<le> CHR 0x0D) s of
     [] \<Rightarrow> 0
   | c # cs \<Rightarrow> if c = CHR ''-'' then - digits_value 0 cs
               else if c = CHR ''+'' then digits_value 0 cs else digits_value 0 (c # cs))"

definition atoi :: "string \<Rightarrow> int result" where
  "atoi s = (if - (2 ^ 31) \<le> atoi_value s \<and> atoi_value s < 2 ^ 31 then Inr (atoi_value s) else Inl Undefined)"

definition make_address :: "sys_env \<Rightarrow> string \<Rightarrow> string \<Rightarrow> NetworkAddress result" where
  "make_address E ip' port' =
     rbind (atoi port') (\<lambda>p.
     Inr \<lparr>ip = inet_addr E ip', port = word_of_int p, strAddress = ip' @ '' : '' @ port'\<rparr>)"

definition observeAddress ::
  "sys_env \<Rightarrow> string \<Rightarrow> string \<Rightarrow> net_callback \<Rightarrow> network_monitor \<Rightarrow> network_monitor result" where
  "observeAddress E ip' port' cb nm =
     rbind (make_address E ip' port') (\<lambda>addr.
     rbind (push_observer addr cb (addressObservers nm)) (\<lambda>es.
     Inr (nm\<lparr>addressObservers := es\<rparr>)))"

text \<open>Dereferencing the end iterator when the address is not found is undefined.\<close>

definition net_notifyForRead ::
  "network_monitor \<Rightarrow> NetworkAddress \<Rightarrow> ADDRINT \<Rightarrow> size_t \<Rightarrow> taint_state \<Rightarrow> taint_state result" where
  "net_notifyForRead nm address start bytesRead s =
     rbind (find_address address nm) (\<lambda>it.
     case it of
       None \<Rightarrow> Inl Undefined
     | Some (naddr, cbs) \<Rightarrow> rfold (\<lambda>cb. cb naddr start bytesRead) cbs s)"

definition ntohs :: "16 word \<Rightarrow> 16 word" where
  "ntohs w = push_bit 8 w OR drop_bit 8 w"

text \<open>\<open>sock_args[k]\<close>, where \<open>sock_args\<close> is the second argument of the call, and the fields of a
  \<open>sockaddr_in\<close>: both pointers come from the program.\<close>

definition sock_arg :: "sys_env \<Rightarrow> syscall_arguments \<Rightarrow> nat \<Rightarrow> 32 word result" where
  "sock_arg E args k =
     (if can_read E (arg1 args) then Inr (load32 E (arg1 args + 4 * of_nat k)) else Inl Undefined)"

definition sockaddr_address :: "sys_env \<Rightarrow> ADDRINT \<Rightarrow> NetworkAddress result" where
  "sockaddr_address E a =
     (if can_read E a then Inr \<lparr>ip = s_addr E a, port = ntohs (sin_port E a), strAddress = ''''\<rparr>
      else Inl Undefined)"

text \<open>The address in argument \<open>k\<close> is looked up, and remembered for the socket when it is observed.\<close>

definition remember_socket ::
  "sys_env \<Rightarrow> syscall_arguments \<Rightarrow> nat \<Rightarrow> network_monitor \<Rightarrow> network_monitor result" where
  "remember_socket E args k nm =
     rbind (sock_arg E args 0) (\<lambda>sock.
     rbind (sock_arg E args k) (\<lambda>serv_addr.
     rbind (sockaddr_address E serv_addr) (\<lambda>address.
     rbind (find_address address nm) (\<lambda>it.
     Inr (if it \<noteq> None \<and> net_observeEverything nm
          then nm\<lparr>socketToAddress := (socketToAddress nm)(sock \<mapsto> address)\<rparr> else nm)))))"

definition upd_network_monitor ::
  "nat \<Rightarrow> network_monitor \<Rightarrow> 'a tracker_scheme \<Rightarrow> 'a tracker_scheme" where
  "upd_network_monitor i nm w = w\<lparr>networkMonitors := (networkMonitors w)[i := nm]\<rparr>"

text \<open>The case \<open>SYS_RECV\<close>, into which \<open>SYS_RECVFROM\<close> falls through.\<close>

definition net_recv :: "sys_env \<Rightarrow> nat \<Rightarrow> network_monitor \<Rightarrow> syscall_arguments \<Rightarrow> 'a tracker_scheme \<Rightarrow> 'a tracker_scheme result" where
  "net_recv E i nm args w =
     rbind (sock_arg E args 0) (\<lambda>sock.
     if socketToAddress nm sock = None \<and> \<not> net_observeEverything nm then Inr (upd_network_monitor i nm w)
     else
       let address = (case socketToAddress nm sock of Some a \<Rightarrow> a | None \<Rightarrow> zero_address);
           nm1 = nm\<lparr>socketToAddress := (socketToAddress nm)(sock \<mapsto> address)\<rparr>
       in rbind (sock_arg E args 1) (\<lambda>buf.
          rbind (net_notifyForRead nm1 address buf (ret args) (taint w))
            (\<lambda>s. Inr ((upd_network_monitor i nm1 w)\<lparr>taint := s\<rparr>))))"

definition socketcallNetworkCallback :: "nat \<Rightarrow> 'a tracker_scheme callback" where
  "socketcallNetworkCallback i E n args w =
     (if \<not> i < length (networkMonitors w) then Inl Undefined
      else
        let nm = networkMonitors w ! i; call = arg0 args in
        if call = SYS E ''SOCKET'' then Inr w
        else if call = SYS E ''CONNECT'' then
          rbind (remember_socket E args 1 nm) (\<lambda>nm1. Inr (upd_network_monitor i nm1 w))
        else if call \<in> SYS E ` {''BIND'', ''LISTEN'', ''ACCEPT'', ''GETSOCKNAME'', ''GETPEERNAME'', ''SEND''}
        then Inr w
        else if call = SYS E ''RECVFROM'' then
          rbind (remember_socket E args 4 nm) (\<lambda>nm1. net_recv E i nm1 args w)
        else if call = SYS E ''RECV'' then net_recv E i nm args w
        else if call \<in> SYS E ` {''SENDTO'', ''SHUTDOWN'', ''SETSOCKOPT'', ''GETSOCKOPT'', ''SENDMSG''}
        then Inr w
        else Inl (Abort ''Unhandled system call''))"

definition closeNetworkCallback :: "nat \<Rightarrow> 'a tracker_scheme callback" where
  "closeNetworkCallback i E n args w =
     (if \<not> i < length (networkMonitors w) then Inl Undefined
      else if sint (ret args) = -1 then Inr w
      else
        let nm = networkMonitors w ! i in
        Inr (upd_network_monitor i (nm\<lparr>socketToAddress := (socketToAddress nm)(arg0 args := None)\<rparr>) w))"

definition readNetworkCallback :: "nat \<Rightarrow> 'a tracker_scheme callback" where
  "readNetworkCallback i E n args w =
     (if \<not> i < length (networkMonitors w) then Inl Undefined
      else if sint (ret args) = -1 then Inr w
      else
        let nm = networkMonitors w ! i in
        (case socketToAddress nm (arg0 args) of
           None \<Rightarrow> Inr w
         | Some address \<Rightarrow>
             rbind (net_notifyForRead nm address (arg1 args) (ret args) (taint w))
               (\<lambda>s. Inr (w\<lparr>taint := s\<rparr>))))"

definition net_activate ::
  "sys_env \<Rightarrow> nat \<Rightarrow> 'a tracker_scheme syscall_monitor \<Rightarrow> 'a tracker_scheme syscall_monitor" where
  "net_activate E i m =
     addObserver (SYS E ''close'') (closeNetworkCallback i)
       (addObserver (SYS E ''read'') (readNetworkCallback i)
         (addObserver (SYS E ''socketcall'') (socketcallNetworkCallback i) m))"

section \<open>The network taint source\<close>

definition new_NetworkTaintSource ::
  "sys_env \<Rightarrow> bool \<Rightarrow> 'a tracker_scheme syscall_monitor \<times> 'a tracker_scheme \<Rightarrow>
   nat \<times> 'a tracker_scheme syscall_monitor \<times> 'a tracker_scheme" where
  "new_NetworkTaintSource E observeAll = (\<lambda>(m, w).
     let i = length (networkMonitors w);
         nm = registerAddressDefault networkReadDefault (new_NetworkMonitor observeAll)
     in (i, net_activate E i m, w\<lparr>networkMonitors := networkMonitors w @ [nm]\<rparr>))"

fun net_read_callback :: "taint_range_t \<Rightarrow> net_callback" where
  "net_read_callback PerByte = networkReadCallbackPerByte"
| "net_read_callback PerRead = networkReadCallbackPerRead"

definition change_network_monitor ::
  "nat \<Rightarrow> (network_monitor \<Rightarrow> network_monitor result) \<Rightarrow> 'a tracker_scheme \<Rightarrow> 'a tracker_scheme result" where
  "change_network_monitor i f w =
     (if i < length (networkMonitors w)
      then rbind (f (networkMonitors w ! i)) (\<lambda>nm. Inr (upd_network_monitor i nm w))
      else Inl Undefined)"

definition net_addObserverForAll ::
  "nat \<Rightarrow> taint_range_t \<Rightarrow> 'a tracker_scheme \<Rightarrow> 'a tracker_scheme result" where
  "net_addObserverForAll i ty w =
     change_network_monitor i (\<lambda>nm. Inr (net_registerCallbackForAll (net_read_callback ty) nm)) w"

definition addNetworkSource ::
  "sys_env \<Rightarrow> nat \<Rightarrow> string \<Rightarrow> string \<Rightarrow> taint_range_t \<Rightarrow> 'a tracker_scheme \<Rightarrow> 'a tracker_scheme result" where
  "addNetworkSource E i host_ip host_port ty w =
     change_network_monitor i (observeAddress E host_ip host_port (net_read_callback ty)) w"

section \<open>The order of the addresses\<close>

lemma addr_equiv_iff: "addr_equiv a b \<longleftrightarrow> ip a = ip b \<and> port a = port b"
  by (auto simp: addr_equiv_def NetworkAddress_cmp_def)

text \<open>The comparator is a strict weak order exactly on the lists of addresses that ascend in both
  components at once: no address has the smaller number and the larger port.\<close>

definition comparable :: "NetworkAddress \<Rightarrow> NetworkAddress \<Rightarrow> bool" where
  "comparable a b \<longleftrightarrow> \<not> (NetworkAddress_cmp a b \<and> NetworkAddress_cmp b a)"

lemma comparable_less:
  "comparable a b \<Longrightarrow> NetworkAddress_cmp a b \<longleftrightarrow>
     ip a \<le> ip b \<and> port a \<le>s port b \<and> (ip a \<noteq> ip b \<or> port a \<noteq> port b)"
  by (auto simp: comparable_def NetworkAddress_cmp_def word_sle_eq word_sless_alt signed_word_eqI not_less)

lemma strict_weak_on_iff:
  "strict_weak_on NetworkAddress_cmp as \<longleftrightarrow> (\<forall>a \<in> set as. \<forall>b \<in> set as. comparable a b)"
proof
  assume "strict_weak_on NetworkAddress_cmp as"
  then show "\<forall>a \<in> set as. \<forall>b \<in> set as. comparable a b"
    unfolding strict_weak_on_def comparable_def by blast
next
  assume c: "\<forall>a \<in> set as. \<forall>b \<in> set as. comparable a b"
  have irrefl: "\<not> NetworkAddress_cmp a a" for a by (simp add: NetworkAddress_cmp_def)
  have trans: "NetworkAddress_cmp a c'" if "a \<in> set as" "b \<in> set as" "c' \<in> set as"
      "NetworkAddress_cmp a b" "NetworkAddress_cmp b c'" for a b c'
  proof -
    have "comparable a b" "comparable b c'" "comparable a c'" using c that by auto
    moreover have "sint x = sint y \<longleftrightarrow> x = y" for x y :: "16 word" by (auto intro: signed_word_eqI)
    ultimately show ?thesis using that(4,5) by (auto simp: comparable_less word_sle_eq)
  qed
  have equiv: "\<not> NetworkAddress_cmp a c' \<and> \<not> NetworkAddress_cmp c' a"
    if "\<not> NetworkAddress_cmp a b" "\<not> NetworkAddress_cmp b a" "\<not> NetworkAddress_cmp b c'" "\<not> NetworkAddress_cmp c' b"
    for a b c'
    using that addr_equiv_iff[of a b] addr_equiv_iff[of b c'] by (auto simp: addr_equiv_def NetworkAddress_cmp_def)
  show "strict_weak_on NetworkAddress_cmp as"
    unfolding strict_weak_on_def using irrefl trans equiv by blast
qed

lemma strict_weak_on_subset:
  "strict_weak_on NetworkAddress_cmp as \<Longrightarrow> set bs \<subseteq> set as \<Longrightarrow> strict_weak_on NetworkAddress_cmp bs"
  unfolding strict_weak_on_iff by blast

lemma find_address_ordered:
  "strict_weak_on NetworkAddress_cmp (a # as) \<Longrightarrow> fst ` set (addressObservers nm) \<subseteq> set as \<Longrightarrow>
     find_address a nm = Inr (find (\<lambda>(b, cbs). addr_equiv a b) (addressObservers nm))"
  using strict_weak_on_subset[of "a # as" "a # map fst (addressObservers nm)"] by (auto simp: find_address_def)

lemma set_add_to_entry: "fst ` set (add_to_entry a cb es) \<subseteq> insert a (fst ` set es)"
  by (induction a cb es rule: add_to_entry.induct) auto

section \<open>Monitors that taint nothing\<close>

text \<open>What is known of a monitor from the configuration: whether it observes everything, and addresses
  among which are the keys of its map.\<close>

type_synonym net_policy = "bool \<times> NetworkAddress list"

definition nm_ok :: "net_policy \<Rightarrow> network_monitor \<Rightarrow> bool" where
  "nm_ok p nm \<longleftrightarrow> socketToAddress nm = (\<lambda>sock. None) \<and> net_observeEverything nm = fst p \<and>
     fst ` set (addressObservers nm) \<subseteq> set (snd p) \<and> (fst p \<longrightarrow> addressObservers nm = [])"

text \<open>The arguments of a socket call that such a monitor survives: the pointers that it follows can be
  read, the address is comparable with those observed, and nothing is received when everything is
  observed.\<close>

definition net_args_ok :: "sys_env \<Rightarrow> syscall_arguments \<Rightarrow> net_policy \<Rightarrow> bool" where
  "net_args_ok E args p \<longleftrightarrow>
     (\<forall>(call, k) \<in> {(''CONNECT'', 1), (''RECVFROM'', 4)}. arg0 args = SYS E call \<longrightarrow>
        can_read E (arg1 args) \<and> can_read E (load32 E (arg1 args + 4 * of_nat k)) \<and>
        (case sockaddr_address E (load32 E (arg1 args + 4 * of_nat k)) of
           Inl e \<Rightarrow> False
         | Inr a \<Rightarrow> strict_weak_on NetworkAddress_cmp (a # snd p))) \<and>
     (arg0 args \<in> {SYS E ''RECV'', SYS E ''RECVFROM''} \<longrightarrow> can_read E (arg1 args) \<and> \<not> fst p)"

lemma upd_network_monitor_same [simp]:
  "i < length (networkMonitors w) \<Longrightarrow> upd_network_monitor i (networkMonitors w ! i) w = w"
  by (simp add: upd_network_monitor_def)

lemma remember_socket_ok:
  assumes "nm_ok p nm" "can_read E (arg1 args)" "can_read E (load32 E (arg1 args + 4 * of_nat k))"
    and "case sockaddr_address E (load32 E (arg1 args + 4 * of_nat k)) of
           Inl e \<Rightarrow> False | Inr a \<Rightarrow> strict_weak_on NetworkAddress_cmp (a # snd p)"
  shows "remember_socket E args k nm = Inr nm"
proof -
  obtain a where a: "sockaddr_address E (load32 E (arg1 args + 4 * of_nat k)) = Inr a"
      "strict_weak_on NetworkAddress_cmp (a # snd p)"
    using assms(4) by (auto split: sum.splits)
  from assms(1) have "find_address a nm = Inr (find (\<lambda>(b, cbs). addr_equiv a b) (addressObservers nm))"
    by (intro find_address_ordered[OF a(2)]) (simp add: nm_ok_def)
  with a(1) assms(1,2) show ?thesis by (auto simp: remember_socket_def sock_arg_def nm_ok_def)
qed

lemma net_recv_quiet:
  assumes "nm_ok p (networkMonitors w ! i)" "\<not> fst p" "i < length (networkMonitors w)" "can_read E (arg1 args)"
  shows "net_recv E i (networkMonitors w ! i) args w = Inr w"
  using assms by (simp add: net_recv_def nm_ok_def sock_arg_def)

definition known_socketcalls :: "string set" where
  "known_socketcalls = set socketcalls - {''RECVMSG''}"

lemma socketcall_quiet:
  assumes i: "i < length (networkMonitors w)" and q: "nm_ok p (networkMonitors w ! i)"
    and k: "arg0 args \<in> SYS E ` known_socketcalls" and a: "net_args_ok E args p"
  shows "socketcallNetworkCallback i E n args w = Inr w"
proof -
  have con: "remember_socket E args 1 (networkMonitors w ! i) = Inr (networkMonitors w ! i)"
    if "arg0 args = SYS E ''CONNECT''"
    using remember_socket_ok[OF q, of E args 1] a that by (simp add: net_args_ok_def)
  have rf: "remember_socket E args 4 (networkMonitors w ! i) = Inr (networkMonitors w ! i)"
    if "arg0 args = SYS E ''RECVFROM''"
    using remember_socket_ok[OF q, of E args 4] a that by (simp add: net_args_ok_def)
  have rc: "net_recv E i (networkMonitors w ! i) args w = Inr w"
    if "arg0 args = SYS E ''RECV'' \<or> arg0 args = SYS E ''RECVFROM''"
    using a that by (intro net_recv_quiet[OF q _ i]) (auto simp: net_args_ok_def)
  obtain c where c: "c \<in> known_socketcalls" "arg0 args = SYS E c" using k by blast
  then have "c \<in> set socketcalls" "c \<noteq> ''RECVMSG''" by (simp_all add: known_socketcalls_def)
  then have other: "arg0 args = SYS E ''CONNECT'' \<or> arg0 args = SYS E ''RECVFROM'' \<or> arg0 args = SYS E ''RECV'' \<or>
      arg0 args = SYS E ''SOCKET'' \<or> arg0 args \<in> SYS E ` {''BIND'', ''LISTEN'', ''ACCEPT'', ''GETSOCKNAME'', ''GETPEERNAME'', ''SEND''} \<or>
      arg0 args \<in> SYS E ` {''SENDTO'', ''SHUTDOWN'', ''SETSOCKOPT'', ''GETSOCKOPT'', ''SENDMSG''}"
    unfolding c(2) socketcalls_def by auto
  show ?thesis
    unfolding socketcallNetworkCallback_def Let_def
    using other by (elim disjE) (simp_all add: i con[unfolded One_nat_def] rf rc cong: if_cong)
qed

lemma network_read_quiet:
  assumes "i < length (networkMonitors w)" "nm_ok p (networkMonitors w ! i)"
  shows "readNetworkCallback i E n args w = Inr w" "closeNetworkCallback i E n args w = Inr w"
proof -
  show "readNetworkCallback i E n args w = Inr w"
    using assms by (simp add: readNetworkCallback_def nm_ok_def Let_def)
  have "(networkMonitors w ! i)\<lparr>socketToAddress := (socketToAddress (networkMonitors w ! i))(arg0 args := None)\<rparr> =
      networkMonitors w ! i"
    using assms(2) by (cases "networkMonitors w ! i") (auto simp: nm_ok_def)
  with assms(1) show "closeNetworkCallback i E n args w = Inr w"
    by (simp add: closeNetworkCallback_def Let_def)
qed

end
