(* ===== verification/Replace_Functions.thy ===== *)
theory Replace_Functions
  imports Taint_Source_Path
begin

text \<open>
  The functions of \<open>replace_functions.cpp\<close> that replace the \<open>DYTAN_\<close> functions of the traced
  program, and the wrapper of \<open>main\<close> of \<open>taint_func_args.cpp\<close>. Their state is the taint
  state, the map from tag names to marks, the tracing flag and the text on standard output.
\<close>

record api =
  api_taint :: taint_state
  tagMap :: "string \<Rightarrow> int option"
  tracing :: bool
  out :: string

definition print_out :: "string \<Rightarrow> api \<Rightarrow> api" where
  "print_out txt a = a\<lparr>out := out a @ txt\<rparr>"

definition SetTrace :: "32 word \<Rightarrow> api \<Rightarrow> api" where
  "SetTrace trace a = a\<lparr>tracing := trace \<noteq> 0\<rparr>"

text \<open>The loop that prints the set bits with a separator.\<close>

definition print_marks :: "bitset \<Rightarrow> api \<Rightarrow> api result" where
  "print_marks s a =
     rbind (rfold (\<lambda>i (sep, a). rbind (bitset_test_bit s i) (\<lambda>set.
              Inr (if set then ('', '', print_out (sep @ show_dec (unat i)) a) else (sep, a))))
            (addr_range 0 (nbits s)) ('''', a))
       (\<lambda>(sep, a'). Inr a')"

text \<open>The mark of a tag name: drawn on its first use.\<close>

definition tag_mark :: "string \<Rightarrow> api \<Rightarrow> (int \<times> api) result" where
  "tag_mark name a =
     cassert (taintGen (api_taint a) \<noteq> None)
       (case tagMap a name of
          Some m \<Rightarrow> Inr (m, a)
        | None \<Rightarrow> rbind (next_tag (api_taint a))
            (\<lambda>(m, s). Inr (m, a\<lparr>api_taint := s, tagMap := (tagMap a)(name \<mapsto> m)\<rparr>)))"

definition assign_tag :: "string \<Rightarrow> ADDRINT \<Rightarrow> size_t \<Rightarrow> size_t \<Rightarrow> api \<Rightarrow> api result" where
  "assign_tag msg start sz ident a =
     rbind (tag_mark (show_dec (unat ident)) a) (\<lambda>(m, a1).
     rbind (bitset_set_bit (bitset_init (num_marks (api_taint a1))) (word_of_int m)) (\<lambda>s.
     let a2 = print_out (msg @ show_hex start @ ''-'' @ show_hex (start + sz - 1) @ '' taint marks ['') a1 in
     rbind (print_marks s a2) (\<lambda>a3.
     let a4 = print_out (CHR '']'' # [CHR 0x0A]) a3 in
     rbind (rfold (put_copy s) (addr_range start (start + sz)) (api_taint a4)) (\<lambda>t.
     Inr (a4\<lparr>api_taint := t\<rparr>)))))"

definition AssignTagToByteRange :: "ADDRINT \<Rightarrow> size_t \<Rightarrow> size_t \<Rightarrow> api \<Rightarrow> api result" where
  "AssignTagToByteRange = assign_tag ''assigned location ''"

definition AssignPointerTagToByteRange :: "ADDRINT \<Rightarrow> size_t \<Rightarrow> size_t \<Rightarrow> api \<Rightarrow> api result" where
  "AssignPointerTagToByteRange = assign_tag ''assigned tag to pointer ''"

definition AssignMemoryTagToByteRange :: "ADDRINT \<Rightarrow> size_t \<Rightarrow> size_t \<Rightarrow> api \<Rightarrow> api result" where
  "AssignMemoryTagToByteRange = assign_tag ''assigned tag to memory ''"

text \<open>\<open>printf\<close> with \<open>%#x\<close>: a prefix for every value but zero.\<close>

definition show_alt_hex :: "32 word \<Rightarrow> string" where
  "show_alt_hex n = (if n = 0 then ''0'' else ''0x'' @ show_hex n)"

definition range_marks :: "ADDRINT \<Rightarrow> size_t \<Rightarrow> taint_state \<Rightarrow> bitset result" where
  "range_marks start sz s =
     rfold (\<lambda>addr tmp. case memTaintMap s addr of Some b \<Rightarrow> bitset_union tmp b | None \<Rightarrow> Inr tmp)
       (addr_range start (start + sz)) (bitset_init (num_marks s))"

definition all_control :: "taint_state \<Rightarrow> bitset result" where
  "all_control s = rfold (\<lambda>(addr, b) acc. bitset_union acc b) (controlTaintMap s) (bitset_init (num_marks s))"

text \<open>\<open>msg\<close> is what \<open>vprintf\<close> prints for the format and arguments of the caller.\<close>

definition DisplayTagsForByteRange :: "ADDRINT \<Rightarrow> size_t \<Rightarrow> string \<Rightarrow> api \<Rightarrow> api result" where
  "DisplayTagsForByteRange start sz msg a =
     (let s = api_taint a in
      rbind (range_marks start sz s) (\<lambda>tmp.
      rbind (all_control s) (\<lambda>controlTaint.
      rbind (bitset_union tmp controlTaint) (\<lambda>tmp'.
      let a1 = print_out ('' at a location '' @ show_alt_hex start @ ''-'' @ show_alt_hex (start + sz - 1) @
                 '' has taint marks: ['') (print_out msg a) in
      rbind (print_marks tmp' a1) (\<lambda>a2.
      rbind (print_marks controlTaint (print_out ''] with active control flow taint marks['' a2)) (\<lambda>a3.
      Inr (print_out (CHR '']'' # [CHR 0x0A]) a3)))))))"

text \<open>The loop of \<open>ClearTagsForByteRange\<close>: it erases entries until it meets an address
  without one. It ends because every round erases an entry.\<close>

function clear_run :: "ADDRINT \<Rightarrow> ADDRINT \<Rightarrow> taint_state \<Rightarrow> ADDRINT \<times> taint_state" where
  "clear_run addr finish s =
     (case memTaintMap s addr of
        Some b \<Rightarrow> clear_run (addr + 1) addr (s\<lparr>memTaintMap := (memTaintMap s)(addr := None)\<rparr>)
      | None \<Rightarrow> (finish, s))"
  by pat_completeness auto
termination
proof (relation "measure (\<lambda>(addr, finish, s). card (dom (memTaintMap s)))")
  fix addr finish :: ADDRINT and s :: taint_state and b
  assume "memTaintMap s addr = Some b"
  then have "addr \<in> dom (memTaintMap s)" by auto
  then show "((addr + 1, addr, s\<lparr>memTaintMap := (memTaintMap s)(addr := None)\<rparr>), (addr, finish, s))
      \<in> measure (\<lambda>(addr, finish, s). card (dom (memTaintMap s)))"
    using card_Diff1_less[of "dom (memTaintMap s)" addr] by (simp add: dom_fun_upd)
qed simp

declare clear_run.simps [simp del]

definition ClearTagsForByteRange :: "ADDRINT \<Rightarrow> api \<Rightarrow> api" where
  "ClearTagsForByteRange start a =
     (let (finish, s) = clear_run start start (api_taint a) in
      print_out (''cleared tag for memory '' @ show_hex start @ ''-'' @ show_hex finish @ [CHR 0x0A])
        (a\<lparr>api_taint := s\<rparr>))"

definition TagsCheck :: "ADDRINT \<Rightarrow> ADDRINT \<Rightarrow> api \<Rightarrow> api" where
  "TagsCheck pointer memory a = a"

datatype api_function =
    Fn_SetTrace | Fn_DisplayTagsForByteRange | Fn_AssignTagToByteRange | Fn_AssignPointerTagToByteRange
  | Fn_AssignMemoryTagToByteRange | Fn_ClearTagsForByteRange | Fn_TagsCheck

definition api_names :: "(string \<times> api_function) list" where
  "api_names = [
     (''DYTAN_set_trace'', Fn_SetTrace),
     (''DYTAN_display'', Fn_DisplayTagsForByteRange),
     (''DYTAN_tag'', Fn_AssignTagToByteRange),
     (''DYTAN_tag_pointer'', Fn_AssignPointerTagToByteRange),
     (''DYTAN_tag_memory'', Fn_AssignMemoryTagToByteRange),
     (''DYTAN_free'', Fn_ClearTagsForByteRange),
     (''DYTAN_check'', Fn_TagsCheck)]"

text \<open>The replacements made in an image in which Pin finds the routines \<open>found\<close>.\<close>

definition ReplaceUserFunctions :: "bool \<Rightarrow> (string \<Rightarrow> bool) \<Rightarrow> (string \<times> api_function) list" where
  "ReplaceUserFunctions sharedlib found =
     (if sharedlib then [] else filter (\<lambda>(n, f). found n) api_names)"

section \<open>Tainting the arguments of main\<close>

text \<open>\<open>argcAddr\<close> and \<open>argvAddr\<close> point to the arguments; a pointer has four bytes.\<close>

definition main_wrapper_func :: "sys_env \<Rightarrow> ADDRINT \<Rightarrow> ADDRINT \<Rightarrow> taint_state \<Rightarrow> taint_state result" where
  "main_wrapper_func E argcAddr argvAddr s =
     (let argc = sint (load32 E argcAddr); argv = load32 E argvAddr in
      rbind (SetNewTaintForMemory argcAddr 4 (-1) s) (\<lambda>s1.
      rbind (rfold (\<lambda>i. SetNewTaintForMemory (argv + 4 * of_nat i)
                (of_nat (length (cstring E (load32 E (argv + 4 * of_nat i))))) (-1))
              [0..<nat argc] s1)
        SetNewTaintStart))"

definition taint_function :: "string list" where
  "taint_function = [''main'', ''foo'', ''bar'']"

text \<open>Whether the wrapper is inserted before a routine.\<close>

definition taint_routines :: "string \<Rightarrow> bool" where
  "taint_routines rtn_name \<longleftrightarrow> rtn_name = taint_function ! 0"

section \<open>Printing marks\<close>

fun join_sep :: "string \<Rightarrow> string list \<Rightarrow> string" where
  "join_sep sep [] = ''''"
| "join_sep sep (x # xs) = sep @ x @ join_sep '', '' xs"

definition marks_text :: "nat \<Rightarrow> mark set \<Rightarrow> string" where
  "marks_text n m = join_sep '''' (map show_dec (filter (\<lambda>i. i \<in> m) [0..<n]))"

lemma print_out_append: "print_out y (print_out x a) = print_out (x @ y) a"
  by (simp add: print_out_def)

lemma print_out_Nil [simp]: "print_out '''' a = a"
  by (simp add: print_out_def)

lemma api_taint_print [simp]: "api_taint (print_out txt a) = api_taint a" "tagMap (print_out txt a) = tagMap a"
  by (simp_all add: print_out_def)

lemma print_marks_ok:
  assumes s: "bitset_wf nb s"
  shows "print_marks s a = Inr (print_out (marks_text (unat nb) (marks s)) a)"
proof -
  let ?step = "\<lambda>i (sep, a). rbind (bitset_test_bit s i) (\<lambda>set.
    Inr (if set then ('', '', print_out (sep @ show_dec (unat i)) a) else (sep, a)))"
  have loop: "(\<forall>i \<in> set is. i < nb) \<Longrightarrow> \<exists>sep'. rfold ?step is (sep, a) =
      Inr (sep', print_out (join_sep sep (map show_dec (filter (\<lambda>i. i \<in> marks s) (map unat is)))) a)" for "is" sep a
  proof (induction "is" arbitrary: sep a)
    case (Cons i "is")
    then have "bitset_test_bit s i = Inr (unat i \<in> marks s)"
      by (simp add: bitset_test_bit_ok[OF s])
    with Cons.prems Cons.IH[of sep a] Cons.IH[of "'', ''" "print_out (sep @ show_dec (unat i)) a"] show ?case
      by (auto simp: print_out_append)
  qed simp
  have "\<forall>i \<in> set (addr_range 0 nb). i < nb" by simp
  from loop[OF this, of "''''" a] show ?thesis
    by (auto simp: print_marks_def bitset_wfD(2)[OF s] marks_text_def map_unat_addr_range)
qed

section \<open>Tags\<close>

definition api_inv :: "api \<Rightarrow> bool" where
  "api_inv a \<longleftrightarrow> state_inv (api_taint a) \<and> gen_ok (api_taint a) \<and>
     (\<forall>name m. tagMap a name = Some m \<longrightarrow> 0 \<le> m \<and> m < NUMBER_OF_TAINT_MARKS (api_taint a))"

lemma tag_mark_ok:
  assumes "api_inv a"
  shows "\<exists>m a1. tag_mark name a = Inr (m, a1) \<and> api_inv a1 \<and> 0 \<le> m \<and>
    m < NUMBER_OF_TAINT_MARKS (api_taint a) \<and> tview (api_taint a1) = tview (api_taint a) \<and>
    src_cfg (api_taint a1) = src_cfg (api_taint a) \<and> tagMap a1 = (tagMap a)(name \<mapsto> m) \<and>
    (\<forall>m0. tagMap a name = Some m0 \<longrightarrow> m = m0 \<and> a1 = a)"
proof -
  have inv: "state_inv (api_taint a)" "gen_ok (api_taint a)" using assms by (simp_all add: api_inv_def)
  show ?thesis
  proof (cases "tagMap a name")
    case (Some m)
    then have "tagMap a = (tagMap a)(name \<mapsto> m)" by auto
    with Some assms gen_ok_Some[OF inv(2)] show ?thesis by (auto simp: tag_mark_def api_inv_def)
  next
    case None
    obtain m g' where m: "next_tag (api_taint a) = Inr (m, (api_taint a)\<lparr>taintGen := Some g'\<rparr>)" "0 \<le> m"
        "m < NUMBER_OF_TAINT_MARKS (api_taint a)" "gen_ok ((api_taint a)\<lparr>taintGen := Some g'\<rparr>)"
      using next_tag_ok[OF inv] by blast
    with None assms gen_ok_Some[OF inv(2)] taintGen_upd_inv[OF inv(1)] show ?thesis
      by (auto simp: tag_mark_def api_inv_def)
  qed
qed

lemma assign_tag_ok:
  assumes "api_inv a"
  shows "\<exists>m a'. assign_tag msg start sz ident a = Inr a' \<and> api_inv a' \<and>
    src_cfg (api_taint a') = src_cfg (api_taint a) \<and> 0 \<le> m \<and> m < NUMBER_OF_TAINT_MARKS (api_taint a) \<and>
    tagMap a' = (tagMap a)(show_dec (unat ident) \<mapsto> m) \<and>
    (\<forall>m0. tagMap a (show_dec (unat ident)) = Some m0 \<longrightarrow> m = m0) \<and>
    tview (api_taint a') = v_put_mem {start..<start + sz} {nat m} (tview (api_taint a))"
proof -
  let ?name = "show_dec (unat ident)"
  obtain m a1 where 1: "tag_mark ?name a = Inr (m, a1)" "api_inv a1" "0 \<le> m"
      "m < NUMBER_OF_TAINT_MARKS (api_taint a)" "tview (api_taint a1) = tview (api_taint a)"
      "src_cfg (api_taint a1) = src_cfg (api_taint a)" "tagMap a1 = (tagMap a)(?name \<mapsto> m)"
      "\<forall>m0. tagMap a ?name = Some m0 \<longrightarrow> m = m0 \<and> a1 = a"
    using tag_mark_ok[OF assms] by blast
  have inv1: "state_inv (api_taint a1)" using 1(2) by (simp add: api_inv_def)
  have m1: "m < NUMBER_OF_TAINT_MARKS (api_taint a1)" using 1(4,6) by (simp add: src_cfg_def)
  obtain b where b: "bitset_set_bit (bitset_init (num_marks (api_taint a1))) (word_of_int m) = Inr b"
      "bitset_wf (num_marks (api_taint a1)) b" "marks b = {nat m}"
    using fresh_bitset[OF inv1 1(3) m1] by blast
  let ?t = "(api_taint a1)\<lparr>memTaintMap := \<lambda>x. if x \<in> set (addr_range start (start + sz)) then Some b
    else memTaintMap (api_taint a1) x\<rparr>"
  have "mem_upd (\<lambda>x. x \<in> set (addr_range start (start + sz))) b (api_taint a1) ?t" by (simp add: mem_upd_def)
  from mem_upd_steps_to[OF inv1 b(2) this]
  have t: "state_inv ?t" "tview ?t = v_put_mem {start..<start + sz} {nat m} (tview (api_taint a))"
    by (simp_all add: steps_to_def v_put_mem_def b(3) 1(5) cong: if_cong)
  obtain a4 where a4: "assign_tag msg start sz ident a = Inr (a4\<lparr>api_taint := ?t\<rparr>)" "tagMap a4 = tagMap a1"
    using 1(1) b(1) print_marks_ok[OF b(2)] put_copy_loop[OF b(2)]
    by (simp add: assign_tag_def Let_def cong: if_cong)
  have "gen_ok ?t" using 1(2) by (simp add: api_inv_def)
  with t(1) a4(2) 1(2) have "api_inv (a4\<lparr>api_taint := ?t\<rparr>)" by (simp add: api_inv_def)
  with a4 t(2) 1 show ?thesis by (intro exI[of _ m] exI[of _ "a4\<lparr>api_taint := ?t\<rparr>"]) simp
qed

lemma range_marks_ok:
  assumes inv: "state_inv s"
  shows "\<exists>b. range_marks start sz s = Inr b \<and> bitset_wf (num_marks s) b \<and>
    marks b = (\<Union>a \<in> {start..<start + sz}. mem_marks s a)"
proof -
  have "bitset_wf (num_marks s) d \<Longrightarrow> \<exists>b. rfold (\<lambda>addr tmp. case memTaintMap s addr of
      Some b \<Rightarrow> bitset_union tmp b | None \<Rightarrow> Inr tmp) as d = Inr b \<and> bitset_wf (num_marks s) b \<and>
      marks b = marks d \<union> \<Union> (mem_marks s ` set as)" for as d
  proof (induction as arbitrary: d)
    case (Cons a as)
    let ?r = "case memTaintMap s a of Some b \<Rightarrow> bitset_union d b | None \<Rightarrow> Inr d"
    have "\<exists>d1. ?r = Inr d1 \<and> bitset_wf (num_marks s) d1 \<and> marks d1 = marks d \<union> mem_marks s a"
      using Cons.prems bitset_union_ok[OF Cons.prems wf_mapD[OF state_invD(4)[OF inv]]]
      by (auto simp: mem_marks_def split: option.split)
    then obtain d1 where "?r = Inr d1" "bitset_wf (num_marks s) d1" "marks d1 = marks d \<union> mem_marks s a" by blast
    with Cons.IH[of d1] show ?case by (auto simp: Un_assoc)
  qed simp
  from this[OF bitset_init_wf[OF nbits_ok_num_marks[OF inv]], of "addr_range start (start + sz)"] show ?thesis
    by (simp add: range_marks_def marks_bitset_init[OF nbits_ok_num_marks[OF inv]] set_addr_range)
qed

lemma all_control_ok:
  assumes inv: "state_inv s"
  shows "\<exists>b. all_control s = Inr b \<and> bitset_wf (num_marks s) b \<and> marks b = ctl_marks (tview s)"
proof -
  have "list_all (bitset_wf (num_marks s)) (map snd (controlTaintMap s))"
    using control_entries_wf[OF inv] by (auto simp: list_all_iff)
  from bs.union_from_init[OF nbits_ok_num_marks[OF inv] this]
  obtain r where r: "rfold (\<lambda>s acc. bitset_union acc s) (map snd (controlTaintMap s)) (bitset_init (num_marks s)) = Inr r"
      "bitset_wf (num_marks s) r" "marks r = \<Union> (marks ` set (map snd (controlTaintMap s)))" by blast
  then show ?thesis
    by (simp add: all_control_def ctl_marks_entries[OF state_invD(7)[OF inv]] split_def rfold_map)
qed

lemma DisplayTagsForByteRange_ok:
  assumes inv: "state_inv (api_taint a)"
  shows "DisplayTagsForByteRange start sz msg a =
    Inr (print_out (msg @ '' at a location '' @ show_alt_hex start @ ''-'' @ show_alt_hex (start + sz - 1) @
      '' has taint marks: ['' @
      marks_text (nat (NUMBER_OF_TAINT_MARKS (api_taint a)))
        ((\<Union>x \<in> {start..<start + sz}. mem_marks (api_taint a) x) \<union> ctl_marks (tview (api_taint a))) @
      ''] with active control flow taint marks['' @
      marks_text (nat (NUMBER_OF_TAINT_MARKS (api_taint a))) (ctl_marks (tview (api_taint a))) @
      CHR '']'' # [CHR 0x0A]) a)"
proof -
  let ?s = "api_taint a"
  obtain t where t: "range_marks start sz ?s = Inr t" "bitset_wf (num_marks ?s) t"
      "marks t = (\<Union>x \<in> {start..<start + sz}. mem_marks ?s x)"
    using range_marks_ok[OF inv] by blast
  obtain c where c: "all_control ?s = Inr c" "bitset_wf (num_marks ?s) c" "marks c = ctl_marks (tview ?s)"
    using all_control_ok[OF inv] by blast
  obtain u where u: "bitset_union t c = Inr u" "bitset_wf (num_marks ?s) u" "marks u = marks t \<union> marks c"
    using bitset_union_ok[OF t(2) c(2)] by blast
  show ?thesis
    unfolding DisplayTagsForByteRange_def Let_def t(1) c(1) rbind.simps u(1)
      print_marks_ok[OF u(2)] print_marks_ok[OF c(2)] print_out_append u(3) t(3) c(3)
      unat_num_marks[OF inv]
    by simp
qed

section \<open>Freeing\<close>

lemma clear_run_spec:
  "\<exists>k. (\<forall>i < k. memTaintMap s (addr + of_nat i) \<noteq> None) \<and>
     snd (clear_run addr finish s) =
       s\<lparr>memTaintMap := \<lambda>a. if a \<in> (\<lambda>i. addr + of_nat i) ` {..<k} then None else memTaintMap s a\<rparr> \<and>
     (memTaintMap s (addr + of_nat k) = None \<or> addr + of_nat k \<in> (\<lambda>i. addr + of_nat i) ` {..<k})"
proof (induction addr finish s rule: clear_run.induct)
  case (1 addr finish s)
  show ?case
  proof (cases "memTaintMap s addr")
    case None
    then show ?thesis by (intro exI[of _ 0]) (simp add: clear_run.simps)
  next
    case (Some b)
    let ?s1 = "s\<lparr>memTaintMap := (memTaintMap s)(addr := None)\<rparr>"
    from "1.IH"[OF Some] obtain k where k: "\<forall>i < k. memTaintMap ?s1 (addr + 1 + of_nat i) \<noteq> None"
        "snd (clear_run (addr + 1) addr ?s1) =
          ?s1\<lparr>memTaintMap := \<lambda>a. if a \<in> (\<lambda>i. addr + 1 + of_nat i) ` {..<k} then None else memTaintMap ?s1 a\<rparr>"
        "memTaintMap ?s1 (addr + 1 + of_nat k) = None \<or>
          addr + 1 + of_nat k \<in> (\<lambda>i. addr + 1 + of_nat i) ` {..<k}" by blast
    have img: "(\<lambda>i. addr + of_nat i) ` {..<Suc k} = insert addr ((\<lambda>i. addr + 1 + of_nat i) ` {..<k})"
      by (auto simp: lessThan_Suc_eq_insert_0 image_image add.assoc)
    have "\<forall>i < Suc k. memTaintMap s (addr + of_nat i) \<noteq> None"
    proof (intro allI impI)
      fix i assume "i < Suc k"
      then show "memTaintMap s (addr + of_nat i) \<noteq> None"
        using k(1) Some by (cases i) (auto simp: add.assoc split: if_splits)
    qed
    moreover have "clear_run addr finish s = clear_run (addr + 1) addr ?s1"
      by (subst clear_run.simps) (simp add: Some)
    moreover have "(\<lambda>a. if a \<in> (\<lambda>i. addr + 1 + of_nat i) ` {..<k} then None else memTaintMap ?s1 a) =
        (\<lambda>a. if a \<in> (\<lambda>i. addr + of_nat i) ` {..<Suc k} then None else memTaintMap s a)"
      unfolding img by auto
    moreover have "memTaintMap s (addr + of_nat (Suc k)) = None \<or>
        addr + of_nat (Suc k) \<in> (\<lambda>i. addr + of_nat i) ` {..<Suc k}"
      using k(3) unfolding img by (auto simp: add.assoc split: if_splits)
    ultimately show ?thesis using k(2) by (intro exI[of _ "Suc k"]) simp
  qed
qed

section \<open>The marks of the inputs\<close>

text \<open>A cycling generator before its wrap-around, with \<open>c\<close> as its next mark.\<close>

definition fresh_from :: "int \<Rightarrow> taint_state \<Rightarrow> bool" where
  "fresh_from c s \<longleftrightarrow> 0 \<le> c \<and> state_inv s \<and>
     (\<exists>f. taintGen s = Some (TaintGenerator f) \<and> gen_start f = 0 \<and> gen_current f = c \<and>
       gen_max f = NUMBER_OF_TAINT_MARKS s)"

text \<open>The mark after \<open>c\<close> when there are \<open>n\<close> marks: the generator starts again behind the last one.\<close>

definition wrapped :: "int \<Rightarrow> int \<Rightarrow> int" where
  "wrapped n c = (if c = n then 0 else c)"

lemma SetNewTaintForMemory_fresh_step:
  assumes s: "fresh_from c s" and c: "c < NUMBER_OF_TAINT_MARKS s"
  shows "\<exists>s'. SetNewTaintForMemory addr sz (-1) s = Inr s' \<and> fresh_from (wrapped (NUMBER_OF_TAINT_MARKS s) (c + 1)) s' \<and>
    NUMBER_OF_TAINT_MARKS s' = NUMBER_OF_TAINT_MARKS s \<and>
    tview s' = v_put_mem {addr..<addr + sz} {nat c} (tview s)"
proof -
  obtain f where f: "taintGen s = Some (TaintGenerator f)" "gen_start f = 0" "gen_current f = c"
      "gen_max f = NUMBER_OF_TAINT_MARKS s" and inv: "state_inv s" and c0: "0 \<le> c"
    using s by (auto simp: fresh_from_def)
  let ?g = "TaintGenerator (f\<lparr>gen_current := wrapped (NUMBER_OF_TAINT_MARKS s) (c + 1)\<rparr>)"
  have nx: "nextTaintMark (TaintGenerator f) = Inr (c, ?g)"
    using f c c0 state_invD(2)[OF inv] by (simp add: smod_next wrapped_def)
  let ?s1 = "s\<lparr>taintGen := Some ?g\<rparr>"
  have c2: "c < NUMBER_OF_TAINT_MARKS ?s1" using c by simp
  from SetNewTaintForMemory_mark[OF taintGen_upd_inv[OF inv] c0 c2, of addr sz]
  obtain s' where s': "SetNewTaintForMemory addr sz c ?s1 = Inr s'" "state_inv s'" "cfg s' = cfg ?s1"
      "tview s' = v_put_mem {addr..<addr + sz} {nat c} (tview s)"
    by (auto simp: steps_to_def)
  have "fresh_from (wrapped (NUMBER_OF_TAINT_MARKS s) (c + 1)) s'"
    using s'(2,3) f c0 by (simp add: fresh_from_def cfg_def wrapped_def)
  with s' SetNewTaintForMemory_fresh[OF inv f(1) nx c0 c, of addr sz] show ?thesis by (simp add: cfg_def)
qed

lemma new_inputs_loop:
  "fresh_from (wrapped (NUMBER_OF_TAINT_MARKS s) c) s \<Longrightarrow> c + int (length xs) \<le> NUMBER_OF_TAINT_MARKS s \<Longrightarrow> 0 \<le> c \<Longrightarrow>
   \<exists>s'. rfold (\<lambda>i. SetNewTaintForMemory (ad i) (le i) (-1)) xs s = Inr s' \<and>
     fresh_from (wrapped (NUMBER_OF_TAINT_MARKS s) (c + int (length xs))) s' \<and> NUMBER_OF_TAINT_MARKS s' = NUMBER_OF_TAINT_MARKS s \<and>
     (\<forall>a. mem_marks s' a \<subseteq> mem_marks s a \<union> nat ` {c..<c + int (length xs)})"
proof (induction xs arbitrary: c s)
  case (Cons x xs)
  from Cons.prems have c: "c < NUMBER_OF_TAINT_MARKS s" "fresh_from c s" by (simp_all add: wrapped_def)
  from SetNewTaintForMemory_fresh_step[OF c(2,1), of "ad x" "le x"] obtain s1 where 1:
      "SetNewTaintForMemory (ad x) (le x) (-1) s = Inr s1" "fresh_from (wrapped (NUMBER_OF_TAINT_MARKS s) (c + 1)) s1"
      "NUMBER_OF_TAINT_MARKS s1 = NUMBER_OF_TAINT_MARKS s"
      "tview s1 = v_put_mem {ad x..<ad x + le x} {nat c} (tview s)" by blast
  have mm: "mem_marks s1 a \<subseteq> mem_marks s a \<union> {nat c}" for a
    by (auto simp: mem_marks_def 1(4) v_put_mem_def)
  have "c + 1 + int (length xs) \<le> NUMBER_OF_TAINT_MARKS s1" "0 \<le> c + 1" using Cons.prems(2,3) 1(3) by simp_all
  from Cons.IH[OF _ this] 1(2,3) obtain s2 where 2:
      "rfold (\<lambda>i. SetNewTaintForMemory (ad i) (le i) (-1)) xs s1 = Inr s2"
      "fresh_from (wrapped (NUMBER_OF_TAINT_MARKS s) (c + 1 + int (length xs))) s2" "NUMBER_OF_TAINT_MARKS s2 = NUMBER_OF_TAINT_MARKS s1"
      "\<forall>a. mem_marks s2 a \<subseteq> mem_marks s1 a \<union> nat ` {c + 1..<c + 1 + int (length xs)}" by auto
  have "{c..<c + int (length (x # xs))} = insert c {c + 1..<c + 1 + int (length xs)}" by auto
  with mm 2(4) have "\<forall>a. mem_marks s2 a \<subseteq> mem_marks s a \<union> nat ` {c..<c + int (length (x # xs))}" by blast
  with 1 2 show ?case by (auto simp: algebra_simps)
qed simp

text \<open>The wrapper of \<open>main\<close>: afterwards the generator starts at its current mark, which is \<open>0\<close> again when the
  arguments took all marks.\<close>

lemma main_wrapper_func_ok:
  assumes s: "fresh_from 0 s" and argc: "0 \<le> sint (load32 E argcAddr)"
      "sint (load32 E argcAddr) + 1 \<le> NUMBER_OF_TAINT_MARKS s"
  shows "\<exists>s' f. main_wrapper_func E argcAddr argvAddr s = Inr s' \<and> state_inv s' \<and>
    taintGen s' = Some (TaintGenerator f) \<and> gen_max f = NUMBER_OF_TAINT_MARKS s \<and> gen_current f = gen_start f \<and>
    gen_start f = wrapped (NUMBER_OF_TAINT_MARKS s) (sint (load32 E argcAddr) + 1) \<and>
    (\<forall>a. mem_marks s' a \<subseteq> mem_marks s a \<union> nat ` {0..sint (load32 E argcAddr)})"
proof -
  let ?n = "sint (load32 E argcAddr)" and ?argv = "load32 E argvAddr" and ?w = "wrapped (NUMBER_OF_TAINT_MARKS s)"
  have "0 < NUMBER_OF_TAINT_MARKS s" using argc by simp
  from SetNewTaintForMemory_fresh_step[OF s this, of argcAddr 4] obtain s1 where 1:
      "SetNewTaintForMemory argcAddr 4 (-1) s = Inr s1" "fresh_from (?w 1) s1"
      "NUMBER_OF_TAINT_MARKS s1 = NUMBER_OF_TAINT_MARKS s"
      "tview s1 = v_put_mem {argcAddr..<argcAddr + 4} {0} (tview s)" by auto
  have mm: "mem_marks s1 a \<subseteq> mem_marks s a \<union> {0}" for a
    by (auto simp: mem_marks_def 1(4) v_put_mem_def)
  have "1 + int (length [0..<nat ?n]) \<le> NUMBER_OF_TAINT_MARKS s1" "fresh_from (wrapped (NUMBER_OF_TAINT_MARKS s1) 1) s1"
    using argc 1(2,3) by simp_all
  from new_inputs_loop[OF this(2,1)] 1(3) obtain s2 where 2:
      "rfold (\<lambda>i. SetNewTaintForMemory (?argv + 4 * of_nat i)
        (of_nat (length (cstring E (load32 E (?argv + 4 * of_nat i))))) (-1)) [0..<nat ?n] s1 = Inr s2"
      "fresh_from (?w (1 + ?n)) s2" "NUMBER_OF_TAINT_MARKS s2 = NUMBER_OF_TAINT_MARKS s1"
      "\<forall>a. mem_marks s2 a \<subseteq> mem_marks s1 a \<union> nat ` {1..<1 + ?n}"
    using argc(1) by force
  from 2(2) obtain f where f: "taintGen s2 = Some (TaintGenerator f)" "gen_start f = 0" "gen_current f = ?w (1 + ?n)"
      "gen_max f = NUMBER_OF_TAINT_MARKS s2" "state_inv s2" by (auto simp: fresh_from_def)
  let ?f = "f\<lparr>gen_start := ?w (1 + ?n)\<rparr>"
  let ?s3 = "s2\<lparr>taintGen := Some (TaintGenerator ?f)\<rparr>"
  have "main_wrapper_func E argcAddr argvAddr s = Inr ?s3"
    using 1(1) 2(1) f by (simp add: main_wrapper_func_def Let_def SetNewTaintStart_def getCurrent_def)
  moreover have "nat ` {0..?n} = insert 0 (nat ` {1..<1 + ?n})"
  proof -
    have "{0..?n} = insert 0 {1..<1 + ?n}" using argc(1) by auto
    then show ?thesis by simp
  qed
  then have "\<forall>a. mem_marks ?s3 a \<subseteq> mem_marks s a \<union> nat ` {0..?n}"
    using mm 2(4) by (auto simp: mem_marks_def) blast+
  ultimately show ?thesis
    using taintGen_upd_inv[OF f(5)] f(3,4) 1(3) 2(3)
    by (intro exI[of _ ?s3] exI[of _ ?f]) (simp add: add.commute)
qed

end
