(* ===== verification/Instrument.thy ===== *)
theory Instrument
  imports Taint_Refine
begin

text \<open>
  The instrumentation functions of \<open>instrument_functions.c\<close>. A handler is called by Pin when
  it translates an instruction; it asks Pin about the operands and inserts analysis calls
  that run before each execution of the instruction. The answers of Pin are the record
  \<open>INS\<close>, the inserted calls are a list in the order of insertion, and a handler ends by
  falling off its end, by an early \<open>return\<close> (which keeps the calls inserted before it) or by
  \<open>abort()\<close>. The calls then run on a taint state with what the machine gives for the
  \<open>IARG_\<close> arguments, the record \<open>machine\<close>. The macro \<open>IMPLICIT\<close> is defined, as in
  \<open>dytan.h\<close>.
\<close>

section \<open>Instructions, analysis calls and their execution\<close>

record INS =
  INS_Opcode :: opcode
  INS_OperandIsReg :: "nat \<Rightarrow> bool"
  INS_OperandIsMemory :: "nat \<Rightarrow> bool"
  INS_OperandIsImmediate :: "nat \<Rightarrow> bool"
  INS_OperandReg :: "nat \<Rightarrow> REG"
  INS_OperandMemoryBaseReg :: "nat \<Rightarrow> REG"
  INS_OperandMemoryIndexReg :: "nat \<Rightarrow> REG"
  INS_IsMemoryRead :: bool
  INS_IsMemoryWrite :: bool
  INS_OperandWidth :: "nat \<Rightarrow> nat"
  INS_OperandCount :: nat
  INS_OperandIsImplicit :: "nat \<Rightarrow> bool"
  INS_HasRealRep :: bool
  INS_RepPrefix :: bool
  INS_RepnePrefix :: bool

record machine =
  memoryread_ea :: ADDRINT
  memoryread2_ea :: ADDRINT
  memoryread_size :: ADDRINT
  memorywrite_ea :: ADDRINT
  memorywrite_size :: ADDRINT
  reg_value :: "REG \<Rightarrow> ADDRINT"
  load_word :: "ADDRINT \<Rightarrow> ADDRINT"

datatype read_ea = MEMORYREAD_EA | MEMORYREAD2_EA

datatype analysis_call =
    Call_TaintForRegister REG slot opcode
  | Call_TaintForMemory read_ea REG REG slot opcode bool
  | Call_ClearTaintSet slot opcode
  | Call_SetTaintForRegister REG opcode bool nat "slot list"
  | Call_SetTaintForMemory opcode bool nat "slot list"
  | Call_ClearTaintForRegister REG opcode bool
  | Call_ClearTaintForMemory opcode bool

datatype check =
    Check_reg "ADDRINT \<Rightarrow> bool" REG
  | Check_r_r "ADDRINT \<Rightarrow> ADDRINT \<Rightarrow> bool" REG REG
  | Check_m_r "(ADDRINT \<Rightarrow> ADDRINT) \<Rightarrow> ADDRINT \<Rightarrow> ADDRINT \<Rightarrow> ADDRINT \<Rightarrow> bool" REG

datatype inserted =
    InsertCall analysis_call
  | InsertIfCall check
  | InsertThenCall analysis_call

fun read_address :: "machine \<Rightarrow> read_ea \<Rightarrow> ADDRINT" where
  "read_address M MEMORYREAD_EA = memoryread_ea M"
| "read_address M MEMORYREAD2_EA = memoryread2_ea M"

fun exec_call :: "pin_regs \<Rightarrow> machine \<Rightarrow> analysis_call \<Rightarrow> taint_state \<Rightarrow> taint_state result" where
  "exec_call P M (Call_TaintForRegister reg x opc) s = TaintForRegister reg x opc s"
| "exec_call P M (Call_TaintForMemory ea b i x opc prof) s =
     TaintForMemory P (read_address M ea) (memoryread_size M) b i x opc prof s"
| "exec_call P M (Call_ClearTaintSet x opc) s = ClearTaintSet x opc s"
| "exec_call P M (Call_SetTaintForRegister reg opc prof n args) s =
     SetTaintForRegister P reg opc prof n args s"
| "exec_call P M (Call_SetTaintForMemory opc prof n args) s =
     SetTaintForMemory (memorywrite_ea M) (memorywrite_size M) opc prof n args s"
| "exec_call P M (Call_ClearTaintForRegister reg opc prof) s = ClearTaintForRegister P reg opc prof s"
| "exec_call P M (Call_ClearTaintForMemory opc prof) s =
     ClearTaintForMemory (memorywrite_ea M) (memorywrite_size M) opc prof s"

fun eval_check :: "machine \<Rightarrow> check \<Rightarrow> bool" where
  "eval_check M (Check_reg f r) = f (reg_value M r)"
| "eval_check M (Check_r_r f r1 r2) = f (reg_value M r1) (reg_value M r2)"
| "eval_check M (Check_m_r f r) =
     f (load_word M) (memoryread_ea M) (memoryread_size M) (reg_value M r)"

text \<open>A \<open>Then\<close> call runs when the \<open>If\<close> call before it returned a non-zero value, which is
  the first component of the state.\<close>

fun exec_inserted ::
  "pin_regs \<Rightarrow> machine \<Rightarrow> inserted \<Rightarrow> bool \<times> taint_state \<Rightarrow> (bool \<times> taint_state) result" where
  "exec_inserted P M (InsertCall c) (fl, s) = rbind (exec_call P M c s) (\<lambda>s'. Inr (fl, s'))"
| "exec_inserted P M (InsertIfCall k) (fl, s) = Inr (eval_check M k, s)"
| "exec_inserted P M (InsertThenCall c) (fl, s) =
     (if fl then rbind (exec_call P M c s) (\<lambda>s'. Inr (fl, s')) else Inr (fl, s))"

definition run_inserted :: "pin_regs \<Rightarrow> machine \<Rightarrow> inserted list \<Rightarrow> taint_state \<Rightarrow> taint_state result" where
  "run_inserted P M cs s =
     rbind (rfold (exec_inserted P M) cs (False, s)) (\<lambda>(fl, s'). Inr s')"

section \<open>Composing handlers\<close>

datatype istatus = Go | Ret | Aborted

type_synonym instrumentation = "inserted list \<times> istatus"

definition insert_call :: "analysis_call \<Rightarrow> instrumentation" where
  "insert_call c = ([InsertCall c], Go)"

definition i_return :: instrumentation where "i_return = ([], Ret)"

definition i_abort :: instrumentation where "i_abort = ([], Aborted)"

definition i_skip :: instrumentation where "i_skip = ([], Go)"

text \<open>Statements in sequence: those after a \<open>return\<close> or an \<open>abort()\<close> do not run.\<close>

fun i_then :: "instrumentation \<Rightarrow> instrumentation \<Rightarrow> instrumentation" where
  "i_then (cs, Go) (ds, st) = (cs @ ds, st)"
| "i_then (cs, Ret) b = (cs, Ret)"
| "i_then (cs, Aborted) b = (cs, Aborted)"

definition i_seq :: "instrumentation list \<Rightarrow> instrumentation" where
  "i_seq bs = foldr i_then bs i_skip"

text \<open>A call of another handler: its \<open>return\<close> ends only that handler.\<close>

fun i_call :: "instrumentation \<Rightarrow> instrumentation" where
  "i_call (cs, Ret) = (cs, Go)"
| "i_call (cs, st) = (cs, st)"

section \<open>Recurring statements\<close>

text \<open>Loading the marks of a register or of an operand into a global slot.\<close>

definition load_reg :: "INS \<Rightarrow> REG \<Rightarrow> slot \<Rightarrow> instrumentation" where
  "load_reg ins r x = insert_call (Call_TaintForRegister r x (INS_Opcode ins))"

definition load_op_reg :: "INS \<Rightarrow> nat \<Rightarrow> slot \<Rightarrow> instrumentation" where
  "load_op_reg ins k x = load_reg ins (INS_OperandReg ins k) x"

definition load_read :: "INS \<Rightarrow> read_ea \<Rightarrow> REG \<Rightarrow> REG \<Rightarrow> slot \<Rightarrow> instrumentation" where
  "load_read ins ea b i x = insert_call (Call_TaintForMemory ea b i x (INS_Opcode ins) True)"

definition load_op_mem :: "INS \<Rightarrow> nat \<Rightarrow> slot \<Rightarrow> instrumentation" where
  "load_op_mem ins k x =
     (if \<not> INS_IsMemoryRead ins then i_return
      else load_read ins MEMORYREAD_EA (INS_OperandMemoryBaseReg ins k) (INS_OperandMemoryIndexReg ins k) x)"

definition clear_set :: "INS \<Rightarrow> slot \<Rightarrow> instrumentation" where
  "clear_set ins x = insert_call (Call_ClearTaintSet x (INS_Opcode ins))"

definition load_r :: "INS \<Rightarrow> nat \<Rightarrow> slot \<Rightarrow> instrumentation" where
  "load_r ins k x = (if INS_OperandIsReg ins k then load_op_reg ins k x else i_abort)"

definition load_rm :: "INS \<Rightarrow> nat \<Rightarrow> slot \<Rightarrow> instrumentation" where
  "load_rm ins k x =
     (if INS_OperandIsReg ins k then load_op_reg ins k x
      else if INS_OperandIsMemory ins k then load_op_mem ins k x
      else i_abort)"

definition load_rmi :: "INS \<Rightarrow> nat \<Rightarrow> slot \<Rightarrow> instrumentation" where
  "load_rmi ins k x =
     (if INS_OperandIsReg ins k then load_op_reg ins k x
      else if INS_OperandIsMemory ins k then load_op_mem ins k x
      else if INS_OperandIsImmediate ins k then clear_set ins x
      else i_abort)"

definition load_ri :: "INS \<Rightarrow> nat \<Rightarrow> slot \<Rightarrow> instrumentation" where
  "load_ri ins k x =
     (if INS_OperandIsReg ins k then load_op_reg ins k x
      else if INS_OperandIsImmediate ins k then clear_set ins x
      else i_abort)"

text \<open>Assigning the union of slots to a register, to the written memory or to an operand.\<close>

definition set_reg :: "INS \<Rightarrow> REG \<Rightarrow> bool \<Rightarrow> nat \<Rightarrow> slot list \<Rightarrow> instrumentation" where
  "set_reg ins r prof n args = insert_call (Call_SetTaintForRegister r (INS_Opcode ins) prof n args)"

definition set_mem :: "INS \<Rightarrow> bool \<Rightarrow> nat \<Rightarrow> slot list \<Rightarrow> instrumentation" where
  "set_mem ins prof n args = insert_call (Call_SetTaintForMemory (INS_Opcode ins) prof n args)"

definition set_op_mem :: "INS \<Rightarrow> nat \<Rightarrow> slot list \<Rightarrow> instrumentation" where
  "set_op_mem ins n args = (if \<not> INS_IsMemoryWrite ins then i_return else set_mem ins True n args)"

definition set_rm :: "INS \<Rightarrow> nat \<Rightarrow> nat \<Rightarrow> slot list \<Rightarrow> instrumentation" where
  "set_rm ins k n args =
     (if INS_OperandIsReg ins k then set_reg ins (INS_OperandReg ins k) True n args
      else if INS_OperandIsMemory ins k then set_op_mem ins n args
      else i_abort)"

definition clear_reg :: "INS \<Rightarrow> REG \<Rightarrow> bool \<Rightarrow> instrumentation" where
  "clear_reg ins r prof = insert_call (Call_ClearTaintForRegister r (INS_Opcode ins) prof)"

definition clear_mem :: "INS \<Rightarrow> bool \<Rightarrow> instrumentation" where
  "clear_mem ins prof = insert_call (Call_ClearTaintForMemory (INS_Opcode ins) prof)"

text \<open>The destination of \<open>MOV\<close> and \<open>POP\<close>: the registers that address the written memory
  propagate as well.\<close>

definition load_address_regs :: "INS \<Rightarrow> nat \<Rightarrow> instrumentation" where
  "load_address_regs ins k =
     i_seq [load_reg ins (INS_OperandMemoryBaseReg ins k) Base,
            load_reg ins (INS_OperandMemoryIndexReg ins k) Idx]"

definition mov_dest :: "INS \<Rightarrow> instrumentation" where
  "mov_dest ins =
     (if INS_OperandIsReg ins 0 then set_reg ins (INS_OperandReg ins 0) True 1 [Src]
      else if INS_OperandIsMemory ins 0 then
        i_seq [load_address_regs ins 0, set_op_mem ins 3 [Src, Base, Idx]]
      else i_abort)"

definition explicit_operands :: "INS \<Rightarrow> nat" where
  "explicit_operands ins =
     length (filter (\<lambda>i. \<not> INS_OperandIsImplicit ins i) [0..<INS_OperandCount ins])"

lemmas stmt_defs =
  i_return_def i_abort_def i_skip_def i_seq_def insert_call_def load_reg_def load_op_reg_def
  load_read_def load_op_mem_def clear_set_def load_r_def load_rm_def load_rmi_def load_ri_def
  set_reg_def set_mem_def set_op_mem_def set_rm_def clear_reg_def clear_mem_def
  load_address_regs_def mov_dest_def

end
