(* ===== verification/Instrument_Functions.thy ===== *)
theory Instrument_Functions
  imports Instrument
begin

text \<open>
  The handlers of \<open>instrument_functions.c\<close>, in the order of the file, and the dispatch table
  that \<open>main\<close> of \<open>dytan.cpp\<close> fills. The numbers of the opcodes come from the xed headers:
  \<open>xed\<close> gives the number of the enumeration constant with a name, so \<open>xed ''ADD''\<close> is
  \<open>XED_ICLASS_ADD\<close>. The table is filled for every opcode with \<open>UnimplementedInstruction\<close> and
  then assigned entry by entry.
\<close>

type_synonym iclass = "string \<Rightarrow> opcode"

section \<open>Conditions on the flags\<close>

definition CF_MASK :: ADDRINT where "CF_MASK = push_bit 1 1"
definition PF_MASK :: ADDRINT where "PF_MASK = push_bit 2 1"
definition AF_MASK :: ADDRINT where "AF_MASK = push_bit 4 1"
definition ZF_MASK :: ADDRINT where "ZF_MASK = push_bit 6 1"
definition SF_MASK :: ADDRINT where "SF_MASK = push_bit 7 1"
definition OF_MASK :: ADDRINT where "OF_MASK = push_bit 11 1"

lemmas mask_defs = CF_MASK_def PF_MASK_def AF_MASK_def ZF_MASK_def SF_MASK_def OF_MASK_def

definition CheckCMOVNB :: "ADDRINT \<Rightarrow> bool" where
  "CheckCMOVNB fl \<longleftrightarrow> (fl AND CF_MASK) = 0"

definition CheckCMOVB :: "ADDRINT \<Rightarrow> bool" where
  "CheckCMOVB fl \<longleftrightarrow> (fl AND CF_MASK) = 1"

definition CheckCMOVBE :: "ADDRINT \<Rightarrow> bool" where
  "CheckCMOVBE fl \<longleftrightarrow> (fl AND CF_MASK) = 1 \<or> (fl AND ZF_MASK) = 1"

definition CheckCMOVNLE :: "ADDRINT \<Rightarrow> bool" where
  "CheckCMOVNLE fl \<longleftrightarrow> (fl AND ZF_MASK) = 0 \<and> (fl AND SF_MASK) = 0"

definition CheckCMOVNL :: "ADDRINT \<Rightarrow> bool" where
  "CheckCMOVNL fl \<longleftrightarrow> (fl AND SF_MASK) = (fl AND OF_MASK)"

definition CheckCMOVL :: "ADDRINT \<Rightarrow> bool" where
  "CheckCMOVL fl \<longleftrightarrow> (fl AND SF_MASK) \<noteq> (fl AND OF_MASK)"

definition CheckCMOVLE :: "ADDRINT \<Rightarrow> bool" where
  "CheckCMOVLE fl \<longleftrightarrow> (fl AND ZF_MASK) = 1 \<or> (fl AND SF_MASK) \<noteq> (fl AND OF_MASK)"

definition CheckCMOVNBE :: "ADDRINT \<Rightarrow> bool" where
  "CheckCMOVNBE fl \<longleftrightarrow> (fl AND CF_MASK) = 0 \<and> (fl AND ZF_MASK) = 0"

definition CheckCMOVNZ :: "ADDRINT \<Rightarrow> bool" where
  "CheckCMOVNZ fl \<longleftrightarrow> (fl AND ZF_MASK) = 0"

definition CheckCMOVNO :: "ADDRINT \<Rightarrow> bool" where
  "CheckCMOVNO fl \<longleftrightarrow> (fl AND OF_MASK) = 0"

definition CheckCMOVNP :: "ADDRINT \<Rightarrow> bool" where
  "CheckCMOVNP fl \<longleftrightarrow> (fl AND PF_MASK) = 0"

definition CheckCMOVNS :: "ADDRINT \<Rightarrow> bool" where
  "CheckCMOVNS fl \<longleftrightarrow> (fl AND SF_MASK) = 0"

definition CheckCMOVO :: "ADDRINT \<Rightarrow> bool" where
  "CheckCMOVO fl \<longleftrightarrow> (fl AND OF_MASK) = 1"

definition CheckCMOVP :: "ADDRINT \<Rightarrow> bool" where
  "CheckCMOVP fl \<longleftrightarrow> (fl AND PF_MASK) = 1"

definition CheckCMOVS :: "ADDRINT \<Rightarrow> bool" where
  "CheckCMOVS fl \<longleftrightarrow> (fl AND SF_MASK) = 1"

definition CheckCMOVZ :: "ADDRINT \<Rightarrow> bool" where
  "CheckCMOVZ fl \<longleftrightarrow> (fl AND ZF_MASK) = 1"

lemmas cmov_defs =
  CheckCMOVNB_def CheckCMOVB_def CheckCMOVBE_def CheckCMOVNLE_def CheckCMOVNL_def CheckCMOVL_def CheckCMOVLE_def CheckCMOVNBE_def
  CheckCMOVNZ_def CheckCMOVNO_def CheckCMOVNP_def CheckCMOVNS_def CheckCMOVO_def CheckCMOVP_def CheckCMOVS_def CheckCMOVZ_def

definition CheckEqual_r_r :: "ADDRINT \<Rightarrow> ADDRINT \<Rightarrow> bool" where
  "CheckEqual_r_r v1 v2 \<longleftrightarrow> v1 = v2"

definition CheckNotEqual_r_r :: "ADDRINT \<Rightarrow> ADDRINT \<Rightarrow> bool" where
  "CheckNotEqual_r_r v1 v2 \<longleftrightarrow> v1 \<noteq> v2"

definition CheckEqual_m_r :: "(ADDRINT \<Rightarrow> ADDRINT) \<Rightarrow> ADDRINT \<Rightarrow> ADDRINT \<Rightarrow> ADDRINT \<Rightarrow> bool" where
  "CheckEqual_m_r mem start sz v2 \<longleftrightarrow> mem start = v2"

definition CheckNotEqual_m_r :: "(ADDRINT \<Rightarrow> ADDRINT) \<Rightarrow> ADDRINT \<Rightarrow> ADDRINT \<Rightarrow> ADDRINT \<Rightarrow> bool" where
  "CheckNotEqual_m_r mem start sz v2 \<longleftrightarrow> mem start = v2"

section \<open>Handlers\<close>

definition UnimplementedInstruction :: "INS \<Rightarrow> instrumentation" where
  "UnimplementedInstruction ins = i_skip"

definition Instrument_ADC :: "INS \<Rightarrow> instrumentation" where
  "Instrument_ADC ins = i_seq [
     load_rm ins 0 Dest,
     load_rmi ins 1 Src,
     load_reg ins REG_EFLAGS Eflags,
     set_rm ins 0 3 [Dest, Src, Eflags],
     set_reg ins REG_EFLAGS False 3 [Dest, Src, Eflags]]"

definition Instrument_ADD :: "INS \<Rightarrow> instrumentation" where
  "Instrument_ADD ins = i_seq [
     load_rm ins 0 Dest,
     load_rmi ins 1 Src,
     set_rm ins 0 2 [Dest, Src],
     set_reg ins REG_EFLAGS False 2 [Dest, Src]]"

definition Instrument_AND :: "INS \<Rightarrow> instrumentation" where
  "Instrument_AND ins = i_call (Instrument_ADD ins)"

definition Instrument_BSWAP :: "INS \<Rightarrow> instrumentation" where
  "Instrument_BSWAP ins = i_skip"

definition Instrument_CALL_NEAR :: "INS \<Rightarrow> instrumentation" where
  "Instrument_CALL_NEAR ins = i_skip"

definition Instrument_CDQ :: "INS \<Rightarrow> instrumentation" where
  "Instrument_CDQ ins = 
     (if INS_OperandWidth ins 0 = 32 then i_seq [
     load_reg ins REG_EAX Eax,
     set_reg ins REG_EDX True 1 [Eax]]
      else i_abort)"

definition Instrument_CLD :: "INS \<Rightarrow> instrumentation" where
  "Instrument_CLD ins = clear_reg ins REG_EFLAGS True"

text \<open>\<open>CMOVcc\<close> chooses its condition by the opcode.\<close>

definition cmov_checks :: "(string \<times> (ADDRINT \<Rightarrow> bool)) list" where
  "cmov_checks = [
     (''CMOVNB'', CheckCMOVNB),
     (''CMOVB'', CheckCMOVB),
     (''CMOVBE'', CheckCMOVBE),
     (''CMOVNLE'', CheckCMOVNLE),
     (''CMOVNL'', CheckCMOVNL),
     (''CMOVL'', CheckCMOVL),
     (''CMOVLE'', CheckCMOVLE),
     (''CMOVNBE'', CheckCMOVNBE),
     (''CMOVNZ'', CheckCMOVNZ),
     (''CMOVNO'', CheckCMOVNO),
     (''CMOVNP'', CheckCMOVNP),
     (''CMOVNS'', CheckCMOVNS),
     (''CMOVO'', CheckCMOVO),
     (''CMOVP'', CheckCMOVP),
     (''CMOVS'', CheckCMOVS),
     (''CMOVZ'', CheckCMOVZ)]"

definition cmov_check :: "iclass \<Rightarrow> opcode \<Rightarrow> (ADDRINT \<Rightarrow> bool) option" where
  "cmov_check xed opc = map_option snd (find (\<lambda>(n, f). xed n = opc) cmov_checks)"

definition Instrument_CMOVcc :: "iclass \<Rightarrow> INS \<Rightarrow> instrumentation" where
  "Instrument_CMOVcc xed ins = i_seq [
     load_rm ins 1 Src,
     (case cmov_check xed (INS_Opcode ins) of
        Some f \<Rightarrow> ([InsertIfCall (Check_reg f REG_EFLAGS)], Go)
      | None \<Rightarrow> i_abort),
     ([InsertThenCall (Call_SetTaintForRegister (INS_OperandReg ins 0) (INS_Opcode ins) True 1 [Src])], Go)]"

definition Instrument_CMP :: "INS \<Rightarrow> instrumentation" where
  "Instrument_CMP ins = i_seq [
     load_rm ins 0 Dest,
     load_rmi ins 1 Src,
     set_reg ins REG_EFLAGS True 2 [Dest, Src]]"

definition Instrument_CMPSB :: "INS \<Rightarrow> instrumentation" where
  "Instrument_CMPSB ins = i_seq [
     if \<not> INS_IsMemoryRead ins then i_return else load_read ins MEMORYREAD_EA REG_EDI REG_INVALID Dest,
     if \<not> INS_IsMemoryRead ins then i_return else load_read ins MEMORYREAD2_EA REG_ESI REG_INVALID Src,
     set_reg ins REG_EFLAGS True 2 [Dest, Src]]"

definition Instrument_CMPXCHG :: "INS \<Rightarrow> instrumentation" where
  "Instrument_CMPXCHG ins = i_seq [
     if INS_OperandWidth ins 0 = 32 then
       i_seq [load_rm ins 0 Dest, load_op_reg ins 1 Src, load_op_reg ins 2 Eax]
     else i_abort,
     if INS_OperandIsReg ins 0 then
       ([InsertIfCall (Check_r_r CheckEqual_r_r (INS_OperandReg ins 0) (INS_OperandReg ins 2)),
         InsertThenCall (Call_SetTaintForRegister (INS_OperandReg ins 0) (INS_Opcode ins) True 1 [Src]),
         InsertIfCall (Check_r_r CheckNotEqual_r_r (INS_OperandReg ins 0) (INS_OperandReg ins 2)),
         InsertThenCall (Call_SetTaintForRegister (INS_OperandReg ins 2) (INS_Opcode ins) True 1 [Src])], Go)
     else if INS_OperandIsMemory ins 0 then
       ([InsertIfCall (Check_m_r CheckEqual_m_r (INS_OperandReg ins 2)),
         InsertThenCall (Call_SetTaintForMemory (INS_Opcode ins) True 1 [Src]),
         InsertIfCall (Check_m_r CheckNotEqual_m_r (INS_OperandReg ins 2)),
         InsertThenCall (Call_SetTaintForRegister (INS_OperandReg ins 2) (INS_Opcode ins) True 1 [Src])], Go)
     else i_skip]"

definition Instrument_CWDE :: "INS \<Rightarrow> instrumentation" where
  "Instrument_CWDE ins = i_seq [
     load_reg ins REG_AX Dest,
     set_reg ins REG_EAX True 1 [Dest]]"

definition Instrument_DEC :: "INS \<Rightarrow> instrumentation" where
  "Instrument_DEC ins = i_seq [
     load_rm ins 0 Dest,
     set_reg ins REG_EFLAGS True 1 [Dest]]"

definition Instrument_DIV :: "INS \<Rightarrow> instrumentation" where
  "Instrument_DIV ins = 
     (if INS_OperandWidth ins 0 = 32 then i_seq [
     load_rm ins 0 Src,
     load_reg ins REG_EAX Eax,
     load_reg ins REG_EDX Edx,
     set_reg ins REG_EAX True 3 [Eax, Edx, Src],
     set_reg ins REG_EDX False 3 [Eax, Edx, Src],
     clear_reg ins REG_EFLAGS True]
      else i_abort)"

definition Instrument_FLDCW :: "INS \<Rightarrow> instrumentation" where
  "Instrument_FLDCW ins = i_skip"

definition Instrument_FLDZ :: "INS \<Rightarrow> instrumentation" where
  "Instrument_FLDZ ins = i_skip"

definition Instrument_FNSTCW :: "INS \<Rightarrow> instrumentation" where
  "Instrument_FNSTCW ins = clear_mem ins True"

definition Instrument_CPUID :: "INS \<Rightarrow> instrumentation" where
  "Instrument_CPUID ins = i_seq [
     clear_reg ins REG_EAX True,
     clear_reg ins REG_EBX False,
     clear_reg ins REG_ECX False,
     clear_reg ins REG_EDX False]"

definition Instrument_BSF :: "INS \<Rightarrow> instrumentation" where
  "Instrument_BSF ins = clear_reg ins (INS_OperandReg ins 0) True"

definition Instrument_BSR :: "INS \<Rightarrow> instrumentation" where
  "Instrument_BSR ins = clear_reg ins (INS_OperandReg ins 0) True"

definition Instrument_BT :: "INS \<Rightarrow> instrumentation" where
  "Instrument_BT ins = i_skip"

definition Instrument_HLT :: "INS \<Rightarrow> instrumentation" where
  "Instrument_HLT ins = i_skip"

definition Instrument_IDIV :: "INS \<Rightarrow> instrumentation" where
  "Instrument_IDIV ins = 
     (if INS_OperandWidth ins 0 = 32 then i_seq [
     load_rm ins 0 Src,
     load_reg ins REG_EDX Edx,
     load_reg ins REG_EAX Eax,
     set_reg ins REG_EAX True 3 [Eax, Edx, Src],
     set_reg ins REG_EDX False 3 [Eax, Edx, Src],
     clear_reg ins REG_EFLAGS True]
      else i_abort)"

definition Instrument_MUL :: "INS \<Rightarrow> instrumentation" where
  "Instrument_MUL ins = 
     (if INS_OperandWidth ins 0 = 32 then i_seq [
     load_rm ins 0 Src,
     load_reg ins REG_EAX Eax,
     set_reg ins REG_EAX True 2 [Eax, Src],
     set_reg ins REG_EDX False 2 [Eax, Src],
     set_reg ins REG_EFLAGS False 2 [Eax, Src]]
      else i_abort)"

definition Instrument_IMUL :: "INS \<Rightarrow> instrumentation" where
  "Instrument_IMUL ins = 
     (if explicit_operands ins = 1 then i_call (Instrument_MUL ins)
      else if explicit_operands ins = 2 then i_seq [
        load_op_reg ins 0 Dest,
        if INS_OperandIsReg ins 1 then load_op_reg ins 0 Src
        else if INS_OperandIsMemory ins 1 then load_op_mem ins 1 Src
        else if INS_OperandIsImmediate ins 1 then clear_set ins Src
        else i_abort,
        set_reg ins (INS_OperandReg ins 0) True 2 [Dest, Src],
        set_reg ins REG_EFLAGS False 2 [Dest, Src]]
      else if explicit_operands ins = 3 then i_seq [
        load_op_reg ins 0 Dest,
        if INS_OperandIsReg ins 1 then load_op_reg ins 0 Src
        else if INS_OperandIsMemory ins 1 then load_op_mem ins 1 Src
        else i_abort,
        set_reg ins (INS_OperandReg ins 0) True 2 [Dest, Src],
        set_reg ins REG_EFLAGS False 2 [Dest, Src]]
      else i_abort)"

definition Instrument_INC :: "INS \<Rightarrow> instrumentation" where
  "Instrument_INC ins = i_call (Instrument_DEC ins)"

definition Instrument_INT :: "INS \<Rightarrow> instrumentation" where
  "Instrument_INT ins = i_skip"

definition Instrument_Jcc :: "INS \<Rightarrow> instrumentation" where
  "Instrument_Jcc ins = i_skip"

definition Instrument_JMP :: "INS \<Rightarrow> instrumentation" where
  "Instrument_JMP ins = i_skip"

definition Instrument_LEA :: "INS \<Rightarrow> instrumentation" where
  "Instrument_LEA ins = i_seq [
     load_reg ins (INS_OperandMemoryBaseReg ins 1) Base,
     load_reg ins (INS_OperandMemoryIndexReg ins 1) Idx,
     set_reg ins (INS_OperandReg ins 0) True 2 [Base, Idx]]"

definition Instrument_LEAVE :: "INS \<Rightarrow> instrumentation" where
  "Instrument_LEAVE ins = i_skip"

definition Instrument_LDMXCSR :: "INS \<Rightarrow> instrumentation" where
  "Instrument_LDMXCSR ins = i_skip"

definition Instrument_MOV :: "INS \<Rightarrow> instrumentation" where
  "Instrument_MOV ins = i_seq [
     load_rmi ins 1 Src,
     mov_dest ins]"

definition Instrument_MOVS :: "INS \<Rightarrow> instrumentation" where
  "Instrument_MOVS ins = i_seq [
     load_read ins MEMORYREAD_EA REG_ESI REG_INVALID Dest,
     load_read ins MEMORYREAD_EA REG_EDI REG_INVALID Src,
     if INS_HasRealRep ins then
       i_seq [load_reg ins REG_ECX Cnt, set_mem ins True 3 [Src, Dest, Cnt]]
     else set_mem ins True 2 [Src, Dest]]"

definition Instrument_MOVSB :: "INS \<Rightarrow> instrumentation" where
  "Instrument_MOVSB ins = i_call (Instrument_MOVS ins)"

definition Instrument_MOVSD :: "INS \<Rightarrow> instrumentation" where
  "Instrument_MOVSD ins = i_call (Instrument_MOVS ins)"

definition Instrument_MOVSD_XMM :: "INS \<Rightarrow> instrumentation" where
  "Instrument_MOVSD_XMM ins = i_seq [
     load_rmi ins 1 Src,
     mov_dest ins]"

definition Instrument_MOVSW :: "INS \<Rightarrow> instrumentation" where
  "Instrument_MOVSW ins = i_call (Instrument_MOVS ins)"

definition Instrument_MOVSX :: "INS \<Rightarrow> instrumentation" where
  "Instrument_MOVSX ins = i_call (Instrument_MOV ins)"

definition Instrument_MOVZX :: "INS \<Rightarrow> instrumentation" where
  "Instrument_MOVZX ins = i_call (Instrument_MOV ins)"

definition Instrument_NEG :: "INS \<Rightarrow> instrumentation" where
  "Instrument_NEG ins = i_seq [
     load_rm ins 0 Dest,
     set_reg ins REG_EFLAGS True 1 [Dest]]"

definition Instrument_NOT :: "INS \<Rightarrow> instrumentation" where
  "Instrument_NOT ins = i_skip"

definition Instrument_OR :: "INS \<Rightarrow> instrumentation" where
  "Instrument_OR ins = i_call (Instrument_AND ins)"

definition Instrument_PAUSE :: "INS \<Rightarrow> instrumentation" where
  "Instrument_PAUSE ins = i_skip"

definition Instrument_NOP :: "INS \<Rightarrow> instrumentation" where
  "Instrument_NOP ins = i_skip"

definition Instrument_POP :: "INS \<Rightarrow> instrumentation" where
  "Instrument_POP ins = i_seq [
     if \<not> INS_IsMemoryRead ins then i_return else load_read ins MEMORYREAD_EA REG_INVALID REG_INVALID Src,
     mov_dest ins]"

definition Instrument_POPFD :: "INS \<Rightarrow> instrumentation" where
  "Instrument_POPFD ins = i_seq [
     if \<not> INS_IsMemoryRead ins then i_return else load_read ins MEMORYREAD_EA REG_INVALID REG_INVALID Src,
     load_reg ins REG_EFLAGS Src]"

definition Instrument_PUSH :: "INS \<Rightarrow> instrumentation" where
  "Instrument_PUSH ins = i_seq [
     load_rmi ins 0 Src,
     set_op_mem ins 1 [Src]]"

definition Instrument_PUSHFD :: "INS \<Rightarrow> instrumentation" where
  "Instrument_PUSHFD ins = i_seq [
     load_reg ins REG_EFLAGS Src,
     set_mem ins True 1 [Src]]"

definition Instrument_Eflags :: "INS \<Rightarrow> instrumentation" where
  "Instrument_Eflags ins = i_skip"

definition Instrument_SAHF :: "INS \<Rightarrow> instrumentation" where
  "Instrument_SAHF ins = i_skip"

definition Instrument_LAHF :: "INS \<Rightarrow> instrumentation" where
  "Instrument_LAHF ins = i_skip"

definition Instrument_RDTSC :: "INS \<Rightarrow> instrumentation" where
  "Instrument_RDTSC ins = i_seq [
     clear_reg ins REG_EAX True,
     clear_reg ins REG_EDX False]"

definition Instrument_RET_NEAR :: "INS \<Rightarrow> instrumentation" where
  "Instrument_RET_NEAR ins = i_skip"

definition Instrument_SAR :: "INS \<Rightarrow> instrumentation" where
  "Instrument_SAR ins = i_seq [
     load_rm ins 0 Dest,
     load_ri ins 1 Cnt,
     set_rm ins 0 2 [Dest, Cnt],
     set_reg ins REG_EFLAGS False 2 [Dest, Cnt]]"

definition Instrument_SBB :: "INS \<Rightarrow> instrumentation" where
  "Instrument_SBB ins = i_call (Instrument_ADC ins)"

definition Instrument_SCASB :: "INS \<Rightarrow> instrumentation" where
  "Instrument_SCASB ins = i_seq [
     if \<not> INS_IsMemoryRead ins then i_return else load_read ins MEMORYREAD_EA REG_EDI REG_INVALID Src,
     load_reg ins REG_AL Eax,
     set_reg ins REG_EFLAGS True 2 [Src, Eax],
     if INS_RepPrefix ins \<or> INS_RepnePrefix ins then set_reg ins REG_ECX False 2 [Src, Eax] else i_skip]"

definition Instrument_SETcc :: "INS \<Rightarrow> instrumentation" where
  "Instrument_SETcc ins = i_seq [
     load_reg ins REG_EFLAGS Src,
     if INS_OperandIsReg ins 0 then set_reg ins (INS_OperandReg ins 0) True 1 [Src]
     else if INS_OperandIsMemory ins 0 then
       (if \<not> INS_IsMemoryWrite ins then i_return
        else i_seq [load_address_regs ins 0, set_mem ins True 3 [Base, Idx, Src]])
     else i_abort]"

definition Instrument_SHL :: "INS \<Rightarrow> instrumentation" where
  "Instrument_SHL ins = i_call (Instrument_SAR ins)"

definition Instrument_SHLD :: "INS \<Rightarrow> instrumentation" where
  "Instrument_SHLD ins = i_seq [
     load_rm ins 0 Dest,
     load_op_reg ins 1 Cnt,
     if INS_OperandIsReg ins 2 then load_op_reg ins 0 Src
     else if INS_OperandIsImmediate ins 2 then clear_set ins Src
     else i_abort,
     set_rm ins 0 3 [Dest, Src, Cnt],
     set_reg ins REG_EFLAGS False 3 [Dest, Src, Cnt]]"

definition Instrument_SHR :: "INS \<Rightarrow> instrumentation" where
  "Instrument_SHR ins = i_call (Instrument_SAR ins)"

definition Instrument_SHRD :: "INS \<Rightarrow> instrumentation" where
  "Instrument_SHRD ins = i_call (Instrument_SHLD ins)"

definition Instrument_STD :: "INS \<Rightarrow> instrumentation" where
  "Instrument_STD ins = clear_reg ins REG_EFLAGS True"

definition Instrument_STMXCSR :: "INS \<Rightarrow> instrumentation" where
  "Instrument_STMXCSR ins = clear_mem ins True"

definition Instrument_STOSB :: "INS \<Rightarrow> instrumentation" where
  "Instrument_STOSB ins = i_seq [
     load_reg ins REG_AL Eax,
     load_reg ins REG_EDI Src,
     set_op_mem ins 2 [Eax, Src]]"

definition Instrument_STOSD :: "INS \<Rightarrow> instrumentation" where
  "Instrument_STOSD ins = i_seq [
     load_reg ins REG_AX Eax,
     load_reg ins REG_EDI Src,
     set_op_mem ins 2 [Eax, Src]]"

definition Instrument_SUB :: "INS \<Rightarrow> instrumentation" where
  "Instrument_SUB ins = i_call (Instrument_ADD ins)"

definition Instrument_TEST :: "INS \<Rightarrow> instrumentation" where
  "Instrument_TEST ins = i_seq [
     load_rm ins 0 Dest,
     load_ri ins 1 Src,
     set_reg ins REG_EFLAGS True 2 [Dest, Src]]"

definition Instrument_XADD :: "INS \<Rightarrow> instrumentation" where
  "Instrument_XADD ins = i_seq [
     load_rm ins 0 Dest,
     load_r ins 1 Src,
     set_rm ins 0 2 [Dest, Src],
     set_reg ins (INS_OperandReg ins 1) True 1 [Dest],
     set_reg ins REG_EFLAGS False 2 [Dest, Src]]"

definition Instrument_XCHG :: "INS \<Rightarrow> instrumentation" where
  "Instrument_XCHG ins = i_seq [
     load_rm ins 0 Dest,
     load_rm ins 1 Src,
     set_rm ins 0 1 [Src],
     set_rm ins 1 1 [Dest]]"

definition Instrument_XOR :: "INS \<Rightarrow> instrumentation" where
  "Instrument_XOR ins = i_seq [
     load_rm ins 0 Dest,
     load_rmi ins 1 Src,
     if INS_OperandIsReg ins 0 \<and> INS_OperandIsReg ins 1 \<and> INS_OperandReg ins 0 = INS_OperandReg ins 1
     then clear_reg ins (INS_OperandReg ins 0) True
     else set_rm ins 0 2 [Dest, Src],
     set_reg ins REG_EFLAGS False 2 [Dest, Src]]"

definition Instrument_FLD :: "INS \<Rightarrow> instrumentation" where
  "Instrument_FLD ins = i_skip"

definition Instrument_FST :: "INS \<Rightarrow> instrumentation" where
  "Instrument_FST ins = i_skip"

definition Instrument_FSTP :: "INS \<Rightarrow> instrumentation" where
  "Instrument_FSTP ins = i_skip"

definition Instrument_FXCH :: "INS \<Rightarrow> instrumentation" where
  "Instrument_FXCH ins = i_skip"

definition Instrument_ROL :: "INS \<Rightarrow> instrumentation" where
  "Instrument_ROL ins = i_skip"

definition Instrument_ROR :: "INS \<Rightarrow> instrumentation" where
  "Instrument_ROR ins = i_skip"

definition Instrument_FILD :: "INS \<Rightarrow> instrumentation" where
  "Instrument_FILD ins = i_skip"

definition Instrument_FISTP :: "INS \<Rightarrow> instrumentation" where
  "Instrument_FISTP ins = i_skip"

definition EmptyHandler :: "INS \<Rightarrow> instrumentation" where
  "EmptyHandler ins = i_skip"

definition Instrument_FDIV :: "INS \<Rightarrow> instrumentation" where
  "Instrument_FDIV ins = i_skip"

definition Instrument_FADDP :: "INS \<Rightarrow> instrumentation" where
  "Instrument_FADDP ins = i_skip"

definition Instrument_FNSTSW :: "INS \<Rightarrow> instrumentation" where
  "Instrument_FNSTSW ins = 
     (if INS_OperandIsReg ins 0 then clear_reg ins (INS_OperandReg ins 0) True else i_skip)"

definition Instrument_FUCOM :: "INS \<Rightarrow> instrumentation" where
  "Instrument_FUCOM ins = i_skip"

definition Instrument_FDIVRP :: "INS \<Rightarrow> instrumentation" where
  "Instrument_FDIVRP ins = i_skip"

definition Instrument_PXOR :: "INS \<Rightarrow> instrumentation" where
  "Instrument_PXOR ins = i_seq [
     load_r ins 0 Dest,
     load_rm ins 1 Src,
     if INS_OperandIsReg ins 0 then set_reg ins (INS_OperandReg ins 0) True 2 [Dest, Src] else i_abort]"

definition Instrument_PCMPEQB :: "INS \<Rightarrow> instrumentation" where
  "Instrument_PCMPEQB ins = i_seq [
     load_rm ins 0 Dest,
     load_rmi ins 1 Src,
     set_rm ins 0 2 [Dest, Src]]"

definition Instrument_PMOVMSKB :: "INS \<Rightarrow> instrumentation" where
  "Instrument_PMOVMSKB ins = i_seq [
     load_rmi ins 1 Src,
     set_rm ins 0 1 [Src]]"

definition Instrument_MOVHPD :: "INS \<Rightarrow> instrumentation" where
  "Instrument_MOVHPD ins = i_call (Instrument_MOV ins)"

definition Instrument_MOVLPD :: "INS \<Rightarrow> instrumentation" where
  "Instrument_MOVLPD ins = i_call (Instrument_MOV ins)"

definition Instrument_PSUBB :: "INS \<Rightarrow> instrumentation" where
  "Instrument_PSUBB ins = i_call (Instrument_ADD ins)"

definition Instrument_MOVDQA :: "INS \<Rightarrow> instrumentation" where
  "Instrument_MOVDQA ins = i_call (Instrument_MOV ins)"

definition Instrument_MOVDQU :: "INS \<Rightarrow> instrumentation" where
  "Instrument_MOVDQU ins = i_call (Instrument_MOV ins)"

definition Instrument_MOVAPS :: "INS \<Rightarrow> instrumentation" where
  "Instrument_MOVAPS ins = i_call (Instrument_MOV ins)"

definition Instrument_PALIGNR :: "INS \<Rightarrow> instrumentation" where
  "Instrument_PALIGNR ins = i_seq [
     load_rm ins 0 Dest,
     load_rmi ins 1 Src,
     set_rm ins 0 2 [Dest, Src]]"

definition Instrument_MOVD :: "INS \<Rightarrow> instrumentation" where
  "Instrument_MOVD ins = i_call (Instrument_MOV ins)"

definition Instrument_PSHUFD :: "INS \<Rightarrow> instrumentation" where
  "Instrument_PSHUFD ins = i_seq [
     load_rm ins 0 Dest,
     load_rmi ins 1 Src,
     set_rm ins 0 2 [Dest, Src]]"

definition Instrument_MOVQ :: "INS \<Rightarrow> instrumentation" where
  "Instrument_MOVQ ins = i_call (Instrument_MOV ins)"

definition Instrument_PREFETCHT0 :: "INS \<Rightarrow> instrumentation" where
  "Instrument_PREFETCHT0 ins = i_skip"

definition Instrument_CMPSW :: "INS \<Rightarrow> instrumentation" where
  "Instrument_CMPSW ins = i_seq [
     if explicit_operands ins = 2 then i_call (Instrument_CMP ins) else i_skip,
     if explicit_operands ins = 1 then i_seq [load_rm ins 0 Dest, set_reg ins REG_EFLAGS True 1 [Dest]] else i_skip]"

definition Instrument_XORPS :: "INS \<Rightarrow> instrumentation" where
  "Instrument_XORPS ins = i_seq [
     load_rm ins 0 Dest,
     load_rmi ins 1 Src,
     set_rm ins 0 2 [Dest, Src]]"

lemmas handler_defs =
  UnimplementedInstruction_def
  Instrument_ADC_def
  Instrument_ADD_def
  Instrument_AND_def
  Instrument_BSWAP_def
  Instrument_CALL_NEAR_def
  Instrument_CDQ_def
  Instrument_CLD_def
  Instrument_CMOVcc_def
  Instrument_CMP_def
  Instrument_CMPSB_def
  Instrument_CMPXCHG_def
  Instrument_CWDE_def
  Instrument_DEC_def
  Instrument_DIV_def
  Instrument_FLDCW_def
  Instrument_FLDZ_def
  Instrument_FNSTCW_def
  Instrument_CPUID_def
  Instrument_BSF_def
  Instrument_BSR_def
  Instrument_BT_def
  Instrument_HLT_def
  Instrument_IDIV_def
  Instrument_MUL_def
  Instrument_IMUL_def
  Instrument_INC_def
  Instrument_INT_def
  Instrument_Jcc_def
  Instrument_JMP_def
  Instrument_LEA_def
  Instrument_LEAVE_def
  Instrument_LDMXCSR_def
  Instrument_MOV_def
  Instrument_MOVS_def
  Instrument_MOVSB_def
  Instrument_MOVSD_def
  Instrument_MOVSD_XMM_def
  Instrument_MOVSW_def
  Instrument_MOVSX_def
  Instrument_MOVZX_def
  Instrument_NEG_def
  Instrument_NOT_def
  Instrument_OR_def
  Instrument_PAUSE_def
  Instrument_NOP_def
  Instrument_POP_def
  Instrument_POPFD_def
  Instrument_PUSH_def
  Instrument_PUSHFD_def
  Instrument_Eflags_def
  Instrument_SAHF_def
  Instrument_LAHF_def
  Instrument_RDTSC_def
  Instrument_RET_NEAR_def
  Instrument_SAR_def
  Instrument_SBB_def
  Instrument_SCASB_def
  Instrument_SETcc_def
  Instrument_SHL_def
  Instrument_SHLD_def
  Instrument_SHR_def
  Instrument_SHRD_def
  Instrument_STD_def
  Instrument_STMXCSR_def
  Instrument_STOSB_def
  Instrument_STOSD_def
  Instrument_SUB_def
  Instrument_TEST_def
  Instrument_XADD_def
  Instrument_XCHG_def
  Instrument_XOR_def
  Instrument_FLD_def
  Instrument_FST_def
  Instrument_FSTP_def
  Instrument_FXCH_def
  Instrument_ROL_def
  Instrument_ROR_def
  Instrument_FILD_def
  Instrument_FISTP_def
  EmptyHandler_def
  Instrument_FDIV_def
  Instrument_FADDP_def
  Instrument_FNSTSW_def
  Instrument_FUCOM_def
  Instrument_FDIVRP_def
  Instrument_PXOR_def
  Instrument_PCMPEQB_def
  Instrument_PMOVMSKB_def
  Instrument_MOVHPD_def
  Instrument_MOVLPD_def
  Instrument_PSUBB_def
  Instrument_MOVDQA_def
  Instrument_MOVDQU_def
  Instrument_MOVAPS_def
  Instrument_PALIGNR_def
  Instrument_MOVD_def
  Instrument_PSHUFD_def
  Instrument_MOVQ_def
  Instrument_PREFETCHT0_def
  Instrument_CMPSW_def
  Instrument_XORPS_def

section \<open>The dispatch table\<close>

text \<open>The assignments to the table in the order of \<open>main\<close>, in two halves.\<close>

definition instrument_entries_low :: "iclass \<Rightarrow> (string \<times> (INS \<Rightarrow> instrumentation)) list" where
  "instrument_entries_low xed = [
     (''ADD'', Instrument_ADD),
     (''PUSH'', Instrument_PUSH),
     (''POP'', Instrument_POP),
     (''OR'', Instrument_OR),
     (''ADC'', Instrument_ADC),
     (''SBB'', Instrument_SBB),
     (''AND'', Instrument_AND),
     (''SUB'', Instrument_SUB),
     (''XOR'', Instrument_XOR),
     (''CMP'', Instrument_CMP),
     (''INC'', Instrument_INC),
     (''DEC'', Instrument_DEC),
     (''IMUL'', Instrument_IMUL),
     (''JO'', Instrument_Jcc),
     (''JNO'', Instrument_Jcc),
     (''JB'', Instrument_Jcc),
     (''JNB'', Instrument_Jcc),
     (''JZ'', Instrument_Jcc),
     (''JNZ'', Instrument_Jcc),
     (''JBE'', Instrument_Jcc),
     (''JNBE'', Instrument_Jcc),
     (''JS'', Instrument_Jcc),
     (''JNS'', Instrument_Jcc),
     (''JP'', Instrument_Jcc),
     (''JNP'', Instrument_Jcc),
     (''JL'', Instrument_Jcc),
     (''JNL'', Instrument_Jcc),
     (''JLE'', Instrument_Jcc),
     (''JNLE'', Instrument_Jcc),
     (''CMOVNLE'', Instrument_CMOVcc xed),
     (''TEST'', Instrument_TEST),
     (''XCHG'', Instrument_XCHG),
     (''MOV'', Instrument_MOV),
     (''LEA'', Instrument_LEA),
     (''PAUSE'', Instrument_PAUSE),
     (''CWDE'', Instrument_CWDE),
     (''CDQ'', Instrument_CDQ),
     (''CMPSW'', Instrument_CMPSW),
     (''PUSHFD'', Instrument_PUSHFD),
     (''POPFD'', Instrument_POPFD),
     (''SAHF'', Instrument_SAHF),
     (''LAHF'', Instrument_LAHF),
     (''MOVSB'', Instrument_MOVSB),
     (''MOVSW'', Instrument_MOVSW),
     (''CMPSB'', Instrument_CMPSB),
     (''STOSB'', Instrument_STOSB),
     (''STOSD'', Instrument_STOSD),
     (''SCASB'', Instrument_SCASB),
     (''RET_NEAR'', Instrument_RET_NEAR),
     (''LEAVE'', Instrument_LEAVE),
     (''INT'', Instrument_INT),
     (''JRCXZ'', Instrument_Jcc),
     (''CALL_NEAR'', Instrument_CALL_NEAR),
     (''JMP'', Instrument_JMP),
     (''HLT'', Instrument_HLT),
     (''CLD'', Instrument_CLD),
     (''STD'', Instrument_STD),
     (''RDTSC'', Instrument_RDTSC)]"

definition instrument_entries_high :: "iclass \<Rightarrow> (string \<times> (INS \<Rightarrow> instrumentation)) list" where
  "instrument_entries_high xed = [
     (''CMOVB'', Instrument_CMOVcc xed),
     (''CMOVNB'', Instrument_CMOVcc xed),
     (''CMOVZ'', Instrument_CMOVcc xed),
     (''CMOVNZ'', Instrument_CMOVcc xed),
     (''CMOVBE'', Instrument_CMOVcc xed),
     (''CMOVNBE'', Instrument_CMOVcc xed),
     (''SETB'', Instrument_SETcc),
     (''SETNB'', Instrument_SETcc),
     (''SETZ'', Instrument_SETcc),
     (''SETNZ'', Instrument_SETcc),
     (''SETBE'', Instrument_SETcc),
     (''SETNBE'', Instrument_SETcc),
     (''CPUID'', Instrument_CPUID),
     (''BT'', Instrument_BT),
     (''SHLD'', Instrument_SHLD),
     (''CMPXCHG'', Instrument_CMPXCHG),
     (''NOP'', Instrument_NOP),
     (''NOP2'', Instrument_NOP),
     (''NOP3'', Instrument_NOP),
     (''NOP4'', Instrument_NOP),
     (''NOP5'', Instrument_NOP),
     (''NOP6'', Instrument_NOP),
     (''NOP7'', Instrument_NOP),
     (''NOP8'', Instrument_NOP),
     (''NOP9'', Instrument_NOP),
     (''MOVZX'', Instrument_MOVZX),
     (''XADD'', Instrument_XADD),
     (''MOVAPS'', Instrument_MOVAPS),
     (''MOVD'', Instrument_MOVD),
     (''MOVDQA'', Instrument_MOVDQA),
     (''MOVDQU'', Instrument_MOVDQU),
     (''CMOVS'', Instrument_CMOVcc xed),
     (''CMOVNS'', Instrument_CMOVcc xed),
     (''MOVHPD'', Instrument_MOVHPD),
     (''CMOVL'', Instrument_CMOVcc xed),
     (''CMOVNL'', Instrument_CMOVcc xed),
     (''CMOVLE'', Instrument_CMOVcc xed),
     (''MOVLPD'', Instrument_MOVLPD),
     (''MOVQ'', Instrument_MOVQ),
     (''MOVSD'', Instrument_MOVSD),
     (''MOVSD_XMM'', Instrument_MOVSD_XMM),
     (''MUL'', Instrument_MUL),
     (''SETS'', Instrument_SETcc),
     (''SETL'', Instrument_SETcc),
     (''SETNL'', Instrument_SETcc),
     (''SETLE'', Instrument_SETcc),
     (''SETNLE'', Instrument_SETcc),
     (''SHRD'', Instrument_SHRD),
     (''BSF'', Instrument_BSF),
     (''BSR'', Instrument_BSR),
     (''MOVSX'', Instrument_MOVSX),
     (''BSWAP'', Instrument_BSWAP),
     (''PALIGNR'', Instrument_PALIGNR),
     (''PCMPEQB'', Instrument_PCMPEQB),
     (''PMOVMSKB'', Instrument_PMOVMSKB),
     (''ROL'', Instrument_ROL),
     (''ROR'', Instrument_ROR),
     (''SHL'', Instrument_SHL),
     (''SHR'', Instrument_SHR),
     (''SAR'', Instrument_SAR),
     (''NOT'', Instrument_NOT),
     (''NEG'', Instrument_NEG),
     (''DIV'', Instrument_DIV),
     (''PREFETCHT0'', Instrument_PREFETCHT0),
     (''IDIV'', Instrument_IDIV),
     (''PSHUFD'', Instrument_PSHUFD),
     (''LDMXCSR'', Instrument_LDMXCSR),
     (''STMXCSR'', Instrument_STMXCSR),
     (''PSUBB'', Instrument_PSUBB),
     (''FDIV'', Instrument_FDIV),
     (''FLD'', Instrument_FLD),
     (''FST'', Instrument_FST),
     (''FSTP'', Instrument_FSTP),
     (''FLDCW'', Instrument_FLDCW),
     (''FNSTCW'', Instrument_FNSTCW),
     (''FXCH'', Instrument_FXCH),
     (''PXOR'', Instrument_PXOR),
     (''FLDZ'', Instrument_FLDZ),
     (''FILD'', Instrument_FILD),
     (''FISTP'', Instrument_FISTP),
     (''FNSTSW'', Instrument_FNSTSW),
     (''FUCOM'', Instrument_FUCOM),
     (''FADDP'', Instrument_FADDP),
     (''FDIVRP'', Instrument_FDIVRP),
     (''FDIVP'', EmptyHandler),
     (''FIDIVR'', EmptyHandler),
     (''FIADD'', EmptyHandler),
     (''FIST'', EmptyHandler),
     (''XORPS'', Instrument_XORPS),
     (''FCOMI'', Instrument_Eflags),
     (''FCOMIP'', Instrument_Eflags),
     (''FUCOMI'', Instrument_Eflags),
     (''FUCOMIP'', Instrument_Eflags)]"

definition instrument_entries :: "iclass \<Rightarrow> (string \<times> (INS \<Rightarrow> instrumentation)) list" where
  "instrument_entries xed = instrument_entries_low xed @ instrument_entries_high xed"

lemmas instrument_entries_defs = instrument_entries_def instrument_entries_low_def instrument_entries_high_def

definition instrument_functions :: "iclass \<Rightarrow> opcode \<Rightarrow> INS \<Rightarrow> instrumentation" where
  "instrument_functions xed =
     fold (\<lambda>(n, h) t. t(xed n := h)) (instrument_entries xed) (\<lambda>opc. UnimplementedInstruction)"

definition Dataflow :: "iclass \<Rightarrow> INS \<Rightarrow> instrumentation" where
  "Dataflow xed ins = instrument_functions xed (INS_Opcode ins) ins"

end
