(* ===== verification/Instrument_Props.thy ===== *)
theory Instrument_Props
  imports Instrument_Functions
begin

text \<open>
  Properties of every handler of the dispatch table. \<open>disc D p\<close> says of
  instrumentation code \<open>p\<close>, run when the slots \<open>D\<close> hold marks loaded for this instruction,
  that the calls it inserts only read slots filled for this instruction and pass as many
  variable arguments as they announce. Every handler has it. It gives safety, the refinement
  to sets of marks and the independence of the marks left over in the global slots.
\<close>

section \<open>Running inserted calls\<close>

fun v_call :: "pin_regs \<Rightarrow> machine \<Rightarrow> analysis_call \<Rightarrow> taint_view \<Rightarrow> taint_view" where
  "v_call P M (Call_TaintForRegister reg x opc) = v_load_reg reg x"
| "v_call P M (Call_TaintForMemory ea b i x opc prof) =
     v_load_mem P (read_address M ea) (memoryread_size M) b i x"
| "v_call P M (Call_ClearTaintSet x opc) = v_clear_slot x"
| "v_call P M (Call_SetTaintForRegister reg opc prof n args) = v_SetTaintForRegister reg (take n args)"
| "v_call P M (Call_SetTaintForMemory opc prof n args) =
     v_SetTaintForMemory (memorywrite_ea M) (memorywrite_size M) (take n args)"
| "v_call P M (Call_ClearTaintForRegister reg opc prof) = v_ClearTaintForRegister reg"
| "v_call P M (Call_ClearTaintForMemory opc prof) =
     v_ClearTaintForMemory (memorywrite_ea M) (memorywrite_size M)"

fun v_inserted :: "pin_regs \<Rightarrow> machine \<Rightarrow> inserted \<Rightarrow> bool \<times> taint_view \<Rightarrow> bool \<times> taint_view" where
  "v_inserted P M (InsertCall c) (fl, v) = (fl, v_call P M c v)"
| "v_inserted P M (InsertIfCall k) (fl, v) = (eval_check M k, v)"
| "v_inserted P M (InsertThenCall c) (fl, v) = (fl, if fl then v_call P M c v else v)"

definition v_run :: "pin_regs \<Rightarrow> machine \<Rightarrow> inserted list \<Rightarrow> taint_view \<Rightarrow> taint_view" where
  "v_run P M cs v = snd (fold (v_inserted P M) cs (False, v))"

fun call_ok :: "analysis_call \<Rightarrow> bool" where
  "call_ok (Call_SetTaintForRegister reg opc prof n args) \<longleftrightarrow> n = length args"
| "call_ok (Call_SetTaintForMemory opc prof n args) \<longleftrightarrow> n = length args"
| "call_ok c \<longleftrightarrow> True"

fun inserted_ok :: "inserted \<Rightarrow> bool" where
  "inserted_ok (InsertCall c) \<longleftrightarrow> call_ok c"
| "inserted_ok (InsertIfCall k) \<longleftrightarrow> True"
| "inserted_ok (InsertThenCall c) \<longleftrightarrow> call_ok c"

lemma exec_call_refines:
  assumes "state_inv s" "call_ok c"
  shows "steps_to s (exec_call P M c s) (v_call P M c)"
  using assms SetTaintForRegister_refines[OF assms(1) order_refl]
    SetTaintForMemory_refines[OF assms(1) order_refl]
  by (cases c)
    (auto simp: TaintForRegister_refines TaintForMemory_refines ClearTaintSet_refines
      ClearTaintForRegister_refines ClearTaintForMemory_refines)

definition ex_inv :: "settings \<Rightarrow> bool \<times> taint_state \<Rightarrow> bool" where
  "ex_inv c = (\<lambda>(fl, s). state_inv s \<and> cfg s = c)"

definition ex_view :: "bool \<times> taint_state \<Rightarrow> bool \<times> taint_view" where
  "ex_view = (\<lambda>(fl, s). (fl, tview s))"

lemma exec_inserted_step:
  assumes "ex_inv c st" "inserted_ok i"
  shows "\<exists>st'. exec_inserted P M i st = Inr st' \<and> ex_inv c st' \<and> ex_view st' = v_inserted P M i (ex_view st)"
proof -
  obtain fl s where st: "st = (fl, s)" "state_inv s" "cfg s = c"
    using assms(1) by (cases st) (auto simp: ex_inv_def)
  show ?thesis
  proof (cases i)
    case (InsertCall a)
    with assms(2) exec_call_refines[OF st(2), of a P M] st show ?thesis
      by (auto simp: ex_inv_def ex_view_def elim!: steps_toE)
  next
    case (InsertIfCall k)
    with st show ?thesis by (simp add: ex_inv_def ex_view_def)
  next
    case (InsertThenCall a)
    with assms(2) exec_call_refines[OF st(2), of a P M] st show ?thesis
      by (auto simp: ex_inv_def ex_view_def elim!: steps_toE)
  qed
qed

interpretation ic: refines_step "ex_inv c" inserted_ok "exec_inserted P M" ex_view "v_inserted P M" for c P M
proof
  fix s a
  assume "ex_inv c s" "inserted_ok a"
  then show "\<exists>s'. exec_inserted P M a s = Inr s' \<and> ex_inv c s'"
    using exec_inserted_step by blast
next
  fix s a s'
  assume "ex_inv c s" "inserted_ok a" "exec_inserted P M a s = Inr s'"
  then show "ex_view s' = v_inserted P M a (ex_view s)"
    using exec_inserted_step[of c s a P M] by auto
qed

lemma run_inserted_refines:
  assumes inv: "state_inv s" and ok: "list_all inserted_ok cs"
  shows "steps_to s (run_inserted P M cs s) (v_run P M cs)"
proof -
  have i: "ex_inv (cfg s) (False, s)" using inv by (simp add: ex_inv_def)
  from ic.run_safe[OF i ok] obtain st where st: "rfold (exec_inserted P M) cs (False, s) = Inr st"
      "ex_inv (cfg s) st" by blast
  obtain fl s' where [simp]: "st = (fl, s')" by (cases st)
  have "ex_view st = fold (v_inserted P M) cs (ex_view (False, s))"
    by (rule ic.run_view[OF i ok st(1)])
  with st show ?thesis
    by (simp add: steps_to_def run_inserted_def ex_inv_def v_run_def ex_view_def)
      (metis snd_conv)
qed

section \<open>Slots that a call reads and fills\<close>

fun call_uses :: "analysis_call \<Rightarrow> slot set" where
  "call_uses (Call_SetTaintForRegister reg opc prof n args) = set (take n args)"
| "call_uses (Call_SetTaintForMemory opc prof n args) = set (take n args)"
| "call_uses c = {}"

fun call_def :: "analysis_call \<Rightarrow> slot set" where
  "call_def (Call_TaintForRegister reg x opc) = {x}"
| "call_def (Call_TaintForMemory ea b i x opc prof) = {x}"
| "call_def (Call_ClearTaintSet x opc) = {x}"
| "call_def c = {}"

fun slots_def :: "inserted list \<Rightarrow> slot set" where
  "slots_def [] = {}"
| "slots_def (InsertCall c # cs) = call_def c \<union> slots_def cs"
| "slots_def (i # cs) = slots_def cs"

fun defs_ok :: "slot set \<Rightarrow> inserted list \<Rightarrow> bool" where
  "defs_ok D [] \<longleftrightarrow> True"
| "defs_ok D (InsertCall c # cs) \<longleftrightarrow> call_uses c \<subseteq> D \<and> defs_ok (D \<union> call_def c) cs"
| "defs_ok D (InsertIfCall k # cs) \<longleftrightarrow> defs_ok D cs"
| "defs_ok D (InsertThenCall c # cs) \<longleftrightarrow> call_uses c \<subseteq> D \<and> defs_ok D cs"

lemma defs_ok_mono: "defs_ok D cs \<Longrightarrow> D \<subseteq> E \<Longrightarrow> defs_ok E cs"
proof (induction D cs arbitrary: E rule: defs_ok.induct)
  case (2 D c cs)
  have "D \<union> call_def c \<subseteq> E \<union> call_def c" using "2.prems"(2) by auto
  with 2 show ?case by auto
qed auto

lemma defs_ok_append: "defs_ok D cs \<Longrightarrow> defs_ok (D \<union> slots_def cs) ds \<Longrightarrow> defs_ok D (cs @ ds)"
  by (induction D cs rule: defs_ok.induct) (auto simp: Un_assoc)

lemma slots_def_append [simp]: "slots_def (cs @ ds) = slots_def cs \<union> slots_def ds"
  by (induction cs rule: slots_def.induct) auto

text \<open>A conditional call directly follows its condition; the flag says whether a condition comes
  directly before the list.\<close>

fun then_ok :: "bool \<Rightarrow> inserted list \<Rightarrow> bool" where
  "then_ok b [] \<longleftrightarrow> True"
| "then_ok b (InsertCall c # cs) \<longleftrightarrow> then_ok False cs"
| "then_ok b (InsertIfCall k # cs) \<longleftrightarrow> then_ok True cs"
| "then_ok b (InsertThenCall c # cs) \<longleftrightarrow> b \<and> then_ok False cs"

lemma then_ok_mono: "then_ok False cs \<Longrightarrow> then_ok b cs"
  by (cases "(False, cs)" rule: then_ok.cases) auto

lemma then_ok_append: "then_ok b cs \<Longrightarrow> then_ok False ds \<Longrightarrow> then_ok b (cs @ ds)"
  by (induction b cs rule: then_ok.induct) (auto intro: then_ok_mono)

definition disc :: "slot set \<Rightarrow> instrumentation \<Rightarrow> bool" where
  "disc D p \<longleftrightarrow> list_all inserted_ok (fst p) \<and> defs_ok D (fst p) \<and> then_ok False (fst p)"

lemma disc_then:
  assumes "disc D a" and "snd a = Go \<Longrightarrow> disc (D \<union> slots_def (fst a)) b"
  shows "disc D (i_then a b)"
proof -
  obtain cs st ds st' where [simp]: "a = (cs, st)" "b = (ds, st')" by (cases a, cases b)
  from assms show ?thesis by (cases st) (auto simp: disc_def intro: defs_ok_append then_ok_append)
qed

lemma disc_mono: "disc D p \<Longrightarrow> D \<subseteq> E \<Longrightarrow> disc E p"
  by (auto simp: disc_def intro: defs_ok_mono)

lemma i_then_skip: "i_then p i_skip = p"
  by (cases p rule: i_call.cases) (auto simp: i_skip_def)

lemma i_then_assoc: "i_then (i_then a b) c = i_then a (i_then b c)"
proof -
  obtain cs st ds st' es st'' where [simp]: "a = (cs, st)" "b = (ds, st')" "c = (es, st'')"
    by (cases a, cases b, cases c)
  show ?thesis by (cases st; cases st') auto
qed

lemma i_seq_append: "i_seq (as @ bs) = i_then (i_seq as) (i_seq bs)"
proof (induction as)
  case Nil
  show ?case by (cases "i_seq bs") (simp add: i_seq_def i_skip_def)
next
  case (Cons a as)
  then show ?case by (simp add: i_seq_def i_then_assoc)
qed

lemma disc_seq_Cons:
  assumes "disc D a" and "snd a = Go \<Longrightarrow> disc (D \<union> slots_def (fst a)) (i_seq bs)"
  shows "disc D (i_seq (a # bs))"
  using disc_then[OF assms] by (simp add: i_seq_def)

text \<open>Rules for the statements of a handler, from the first to the last.\<close>

lemma disc_end: "disc D (i_seq [])" "disc D (i_seq (i_return # bs))" "disc D (i_seq (i_abort # bs))"
  by (simp_all add: disc_def i_seq_def stmt_defs)

lemma disc_skip: "disc D (i_seq bs) \<Longrightarrow> disc D (i_seq (i_skip # bs))"
  by (rule disc_seq_Cons) (simp_all add: disc_def i_skip_def)

lemma disc_if:
  "(c \<Longrightarrow> disc D (i_seq (a # bs))) \<Longrightarrow> (\<not> c \<Longrightarrow> disc D (i_seq (b # bs))) \<Longrightarrow>
     disc D (i_seq ((if c then a else b) # bs))"
  by simp

lemma disc_nested:
  "disc D (i_seq bs) \<Longrightarrow> disc D (i_seq (i_seq [] # bs))"
  "disc D (i_seq (a # i_seq as # bs)) \<Longrightarrow> disc D (i_seq (i_seq (a # as) # bs))"
  using i_seq_append[of as bs] disc_skip[of D bs]
  by (simp_all add: i_seq_def i_then_assoc)

lemma disc_call: "disc D p \<Longrightarrow> disc D (i_seq bs) \<Longrightarrow> disc D (i_seq (i_call p # bs))"
  by (rule disc_seq_Cons, cases p rule: i_call.cases)
    (auto simp: disc_def intro: defs_ok_mono)

lemma disc_list:
  "list_all inserted_ok cs \<Longrightarrow> defs_ok D cs \<Longrightarrow> then_ok False cs \<Longrightarrow> disc (D \<union> slots_def cs) (i_seq bs) \<Longrightarrow>
     disc D (i_seq ((cs, Go) # bs))"
  by (rule disc_seq_Cons) (simp_all add: disc_def)

lemma disc_load_basic:
  assumes "disc (insert x D) (i_seq bs)"
  shows "disc D (i_seq (load_reg ins r x # bs))" "disc D (i_seq (load_op_reg ins k x # bs))"
    "disc D (i_seq (load_read ins ea b i x # bs))" "disc D (i_seq (clear_set ins x # bs))"
  by (rule disc_seq_Cons; use assms in \<open>simp add: disc_def stmt_defs\<close>)+

lemma disc_load_mem:
  "disc (insert x D) (i_seq bs) \<Longrightarrow> disc D (i_seq (load_op_mem ins k x # bs))"
  unfolding load_op_mem_def by (intro disc_if disc_end disc_load_basic)

lemma disc_load_op:
  assumes "disc (insert x D) (i_seq bs)"
  shows "disc D (i_seq (load_r ins k x # bs))" "disc D (i_seq (load_rm ins k x # bs))"
    "disc D (i_seq (load_rmi ins k x # bs))" "disc D (i_seq (load_ri ins k x # bs))"
  unfolding load_r_def load_rm_def load_rmi_def load_ri_def
  by (intro disc_if disc_end disc_load_mem disc_load_basic assms)+

lemma disc_set:
  assumes "n = length args" "set args \<subseteq> D" "disc D (i_seq bs)"
  shows "disc D (i_seq (set_reg ins r prof n args # bs))" "disc D (i_seq (set_mem ins prof n args # bs))"
  by (rule disc_seq_Cons; use assms in \<open>simp add: disc_def stmt_defs\<close>)+

lemma disc_set_op:
  assumes "n = length args" "set args \<subseteq> D" "disc D (i_seq bs)"
  shows "disc D (i_seq (set_op_mem ins n args # bs))" "disc D (i_seq (set_rm ins k n args # bs))"
  unfolding set_rm_def set_op_mem_def by (intro disc_if disc_end disc_set assms)+

lemma disc_clear:
  assumes "disc D (i_seq bs)"
  shows "disc D (i_seq (clear_reg ins r prof # bs))" "disc D (i_seq (clear_mem ins prof # bs))"
  by (rule disc_seq_Cons; use assms in \<open>simp add: disc_def stmt_defs\<close>)+

lemma disc_address_regs:
  "disc (insert Idx (insert Base D)) (i_seq bs) \<Longrightarrow> disc D (i_seq (load_address_regs ins k # bs))"
  unfolding load_address_regs_def by (intro disc_nested disc_load_basic)

lemma disc_mov_dest:
  assumes "Src \<in> D" "disc D (i_seq bs)"
  shows "disc D (i_seq (mov_dest ins # bs))"
proof -
  have "disc (insert Idx (insert Base D)) (i_seq bs)" by (rule disc_mono[OF assms(2)]) auto
  then show ?thesis
    unfolding mov_dest_def
    by (intro disc_if disc_end disc_nested disc_address_regs disc_set disc_set_op) (use assms in auto)
qed

lemma disc_single: "disc D (i_seq [p]) \<Longrightarrow> disc D p"
  by (simp add: i_seq_def i_then_skip)

lemmas disc_rules =
  disc_end disc_skip disc_if disc_nested disc_load_basic disc_load_mem disc_load_op
  disc_set disc_set_op disc_clear disc_address_regs disc_mov_dest

text \<open>Every handler obeys the discipline, from no filled slot at all.\<close>

lemma disc_handlers1:
  "disc {} (Instrument_ADC ins)" "disc {} (Instrument_ADD ins)" "disc {} (Instrument_CDQ ins)"
  "disc {} (Instrument_CLD ins)" "disc {} (Instrument_CMP ins)" "disc {} (Instrument_CMPSB ins)"
  "disc {} (Instrument_CMPXCHG ins)" "disc {} (Instrument_CWDE ins)" "disc {} (Instrument_DEC ins)"
  "disc {} (Instrument_DIV ins)" "disc {} (Instrument_FNSTCW ins)" "disc {} (Instrument_CPUID ins)"
  "disc {} (Instrument_BSF ins)" "disc {} (Instrument_BSR ins)" "disc {} (Instrument_IDIV ins)"
  "disc {} (Instrument_LEA ins)" "disc {} (Instrument_MOV ins)" "disc {} (Instrument_MOVS ins)"
  "disc {} (Instrument_MOVSD_XMM ins)" "disc {} (Instrument_MUL ins)" "disc {} (Instrument_NEG ins)"
  "disc {} (Instrument_POP ins)"
  unfolding handler_defs
  by (rule disc_single; (rule disc_rules disc_list | (simp; fail))+)+

lemma disc_handlers2:
  "disc {} (Instrument_POPFD ins)" "disc {} (Instrument_PUSH ins)" "disc {} (Instrument_PUSHFD ins)"
  "disc {} (Instrument_RDTSC ins)" "disc {} (Instrument_SAR ins)" "disc {} (Instrument_SCASB ins)"
  "disc {} (Instrument_SETcc ins)" "disc {} (Instrument_SHLD ins)" "disc {} (Instrument_STD ins)"
  "disc {} (Instrument_STMXCSR ins)" "disc {} (Instrument_STOSB ins)" "disc {} (Instrument_STOSD ins)"
  "disc {} (Instrument_TEST ins)" "disc {} (Instrument_XADD ins)" "disc {} (Instrument_XCHG ins)"
  "disc {} (Instrument_XOR ins)" "disc {} (Instrument_FNSTSW ins)" "disc {} (Instrument_PXOR ins)"
  "disc {} (Instrument_PCMPEQB ins)" "disc {} (Instrument_PMOVMSKB ins)" "disc {} (Instrument_PALIGNR ins)"
  "disc {} (Instrument_PSHUFD ins)" "disc {} (Instrument_XORPS ins)"
  unfolding handler_defs
  by (rule disc_single; (rule disc_rules disc_list | (simp; fail))+)+

lemma disc_empty_handlers:
  "disc {} (Instrument_BSWAP ins)" "disc {} (Instrument_CALL_NEAR ins)" "disc {} (Instrument_FLDCW ins)"
  "disc {} (Instrument_FLDZ ins)" "disc {} (Instrument_BT ins)" "disc {} (Instrument_HLT ins)"
  "disc {} (Instrument_INT ins)" "disc {} (Instrument_Jcc ins)" "disc {} (Instrument_JMP ins)"
  "disc {} (Instrument_LEAVE ins)" "disc {} (Instrument_LDMXCSR ins)" "disc {} (Instrument_NOT ins)"
  "disc {} (Instrument_PAUSE ins)" "disc {} (Instrument_NOP ins)" "disc {} (Instrument_Eflags ins)"
  "disc {} (Instrument_SAHF ins)" "disc {} (Instrument_LAHF ins)" "disc {} (Instrument_RET_NEAR ins)"
  "disc {} (Instrument_FLD ins)" "disc {} (Instrument_FST ins)" "disc {} (Instrument_FSTP ins)"
  "disc {} (Instrument_FXCH ins)" "disc {} (Instrument_ROL ins)" "disc {} (Instrument_ROR ins)"
  "disc {} (Instrument_FILD ins)" "disc {} (Instrument_FISTP ins)" "disc {} (Instrument_FDIV ins)"
  "disc {} (Instrument_FADDP ins)" "disc {} (Instrument_FUCOM ins)" "disc {} (Instrument_FDIVRP ins)"
  "disc {} (Instrument_PREFETCHT0 ins)" "disc {} (UnimplementedInstruction ins)" "disc {} (EmptyHandler ins)"
  unfolding handler_defs by (simp_all add: disc_def i_skip_def)

lemmas disc_base = disc_handlers1 disc_handlers2

lemma disc_AND: "disc {} (Instrument_AND ins)"
  unfolding Instrument_AND_def by (rule disc_single, rule disc_call) (rule disc_base disc_end)+

lemma disc_alias_handlers:
  "disc {} (Instrument_INC ins)" "disc {} (Instrument_MOVSB ins)" "disc {} (Instrument_MOVSD ins)"
  "disc {} (Instrument_MOVSW ins)" "disc {} (Instrument_MOVSX ins)" "disc {} (Instrument_MOVZX ins)"
  "disc {} (Instrument_OR ins)" "disc {} (Instrument_SBB ins)" "disc {} (Instrument_SHL ins)"
  "disc {} (Instrument_SHR ins)" "disc {} (Instrument_SHRD ins)" "disc {} (Instrument_SUB ins)"
  "disc {} (Instrument_MOVHPD ins)" "disc {} (Instrument_MOVLPD ins)" "disc {} (Instrument_PSUBB ins)"
  "disc {} (Instrument_MOVDQA ins)" "disc {} (Instrument_MOVDQU ins)" "disc {} (Instrument_MOVAPS ins)"
  "disc {} (Instrument_MOVD ins)" "disc {} (Instrument_MOVQ ins)"
  unfolding Instrument_INC_def Instrument_MOVSB_def Instrument_MOVSD_def Instrument_MOVSW_def Instrument_MOVSX_def Instrument_MOVZX_def Instrument_OR_def Instrument_SBB_def Instrument_SHL_def Instrument_SHR_def Instrument_SHRD_def Instrument_SUB_def Instrument_MOVHPD_def Instrument_MOVLPD_def Instrument_PSUBB_def Instrument_MOVDQA_def Instrument_MOVDQU_def Instrument_MOVAPS_def Instrument_MOVD_def Instrument_MOVQ_def
  by (rule disc_single, rule disc_call, rule disc_base disc_AND, rule disc_end)+

lemma disc_IMUL: "disc {} (Instrument_IMUL ins)"
  unfolding Instrument_IMUL_def
  by (rule disc_single; (rule disc_rules disc_call disc_base | (simp; fail))+)

lemma disc_CMPSW: "disc {} (Instrument_CMPSW ins)"
  unfolding Instrument_CMPSW_def
  by (rule disc_single; (rule disc_rules disc_call disc_base | (simp; fail))+)

lemma disc_CMOVcc: "disc {} (Instrument_CMOVcc xed ins)"
proof (cases "cmov_check xed (INS_Opcode ins)")
  case None
  then show ?thesis unfolding Instrument_CMOVcc_def by (simp only: option.case) (rule disc_rules)+
next
  case (Some f)
  let ?c = "[InsertIfCall (Check_reg f REG_EFLAGS),
    InsertThenCall (Call_SetTaintForRegister (INS_OperandReg ins 0) (INS_Opcode ins) True 1 [Src])]"
  have "Instrument_CMOVcc xed ins = i_seq [load_rm ins 1 Src, (?c, Go)]"
    by (simp add: Instrument_CMOVcc_def Some i_seq_def i_skip_def)
  then show ?thesis by (simp only:) (rule disc_rules disc_list | (simp; fail))+
qed

section \<open>The dispatch table\<close>

lemma disc_entries: "list_all (\<lambda>(n, h). \<forall>ins. disc {} (h ins)) (instrument_entries xed)"
  unfolding instrument_entries_defs
  by (simp add: disc_base disc_alias_handlers disc_AND disc_empty_handlers disc_IMUL disc_CMPSW disc_CMOVcc
      del: One_nat_def)

lemma table_default_or_entry:
  "fold (\<lambda>(n, h) t. t(f n := h)) es t0 k = t0 k \<or>
   (\<exists>n h. (n, h) \<in> set es \<and> fold (\<lambda>(n, h) t. t(f n := h)) es t0 k = h)"
proof (induction es arbitrary: t0)
  case (Cons e es)
  obtain n h where "e = (n, h)" by (cases e)
  with Cons[of "t0(f n := h)"] show ?case by (auto split: if_splits)
qed simp

lemma table_other: "k \<notin> f ` fst ` set es \<Longrightarrow> fold (\<lambda>(n, h) t. t(f n := h)) es t k = t k"
  by (induction es arbitrary: t) auto

lemma table_entry:
  assumes "inj_on f (fst ` set es)" "distinct (map fst es)" "(n, h) \<in> set es"
  shows "fold (\<lambda>(n, h) t. t(f n := h)) es t0 (f n) = h"
  using assms
proof (induction es arbitrary: t0)
  case (Cons e es)
  obtain n' h' where e: "e = (n', h')" by (cases e)
  show ?case
  proof (cases "(n, h) \<in> set es")
    case True
    with Cons e show ?thesis by auto
  next
    case False
    with Cons.prems e have eq: "n' = n" "h' = h" by auto
    have "n \<notin> fst ` set es" using Cons.prems(2) e eq by auto
    with Cons.prems(1) e eq have nin: "f n \<notin> f ` fst ` set es"
      by (auto simp: inj_on_def)
    with table_other[OF nin, of "t0(f n := h)"] e eq show ?thesis by (simp del: fun_upd_apply) simp
  qed
qed simp

lemma Dataflow_disc: "disc {} (Dataflow xed ins)"
  using table_default_or_entry[of xed "instrument_entries xed" "\<lambda>opc. UnimplementedInstruction" "INS_Opcode ins"]
    disc_entries[of xed] disc_empty_handlers
  by (auto simp: Dataflow_def instrument_functions_def list_all_iff)

lemma Dataflow_unlisted:
  "INS_Opcode ins \<notin> xed ` fst ` set (instrument_entries xed) \<Longrightarrow> Dataflow xed ins = ([], Go)"
  by (simp add: Dataflow_def instrument_functions_def table_other UnimplementedInstruction_def i_skip_def)

section \<open>No residual marks\<close>

text \<open>Two views that agree on everything but slots outside \<open>D\<close>.\<close>

definition agree :: "slot set \<Rightarrow> taint_view \<Rightarrow> taint_view \<Rightarrow> bool" where
  "agree D v w \<longleftrightarrow> v_reg v = v_reg w \<and> v_mem v = v_mem w \<and> v_ctl v = v_ctl w \<and>
     (\<forall>x \<in> D. v_slot v x = v_slot w x)"

lemmas view_op_defs =
  v_load_reg_def v_load_mem_def v_mem_marks_def v_clear_slot_def v_SetTaintForRegister_def
  v_put_regs_def v_SetTaintForMemory_def v_put_mem_def v_ClearTaintForRegister_def
  v_clear_regs_def v_ClearTaintForMemory_def v_clear_mem_def ctl_marks_def

lemma agree_args: "agree D v w \<Longrightarrow> set xs \<subseteq> D \<Longrightarrow> \<Union> (v_slot v ` set xs) = \<Union> (v_slot w ` set xs)"
  by (auto simp: agree_def)

lemma agree_call:
  assumes "agree D v w" "call_uses c \<subseteq> D"
  shows "agree (D \<union> call_def c) (v_call P M c v) (v_call P M c w)"
  using assms agree_args[OF assms(1)]
  by (cases c) (auto simp: view_op_defs agree_def)

lemma agree_mono: "agree D v w \<Longrightarrow> E \<subseteq> D \<Longrightarrow> agree E v w"
  by (auto simp: agree_def)

lemma agree_run:
  "defs_ok D cs \<Longrightarrow> agree D v w \<Longrightarrow>
   \<exists>fl' v' w'. fold (v_inserted P M) cs (fl, v) = (fl', v') \<and> fold (v_inserted P M) cs (fl, w) = (fl', w') \<and>
     agree D v' w'"
proof (induction D cs arbitrary: fl v w rule: defs_ok.induct)
  case (2 D c cs)
  from "2.prems" have "agree (D \<union> call_def c) (v_call P M c v) (v_call P M c w)"
    by (auto intro: agree_call)
  with "2.IH"[of "v_call P M c v" "v_call P M c w" fl] "2.prems" show ?case
    by (auto intro: agree_mono)
next
  case (4 D c cs)
  have "agree D (v_call P M c v) (v_call P M c w)"
    using agree_mono[OF agree_call[of D v w c P M]] "4.prems" by auto
  with 4 show ?case by (cases fl) auto
qed auto

lemma Dataflow_slots_irrelevant:
  assumes "agree {} v w"
  shows "agree {} (v_run P M (fst (Dataflow xed ins)) v) (v_run P M (fst (Dataflow xed ins)) w)"
  using agree_run[of "{}" "fst (Dataflow xed ins)" v w P M False] Dataflow_disc[of xed ins] assms
  by (auto simp: disc_def v_run_def)

section \<open>No invented marks\<close>

definition live_marks :: "taint_view \<Rightarrow> mark set" where
  "live_marks v = \<Union> (ran (v_reg v)) \<union> \<Union> (ran (v_mem v)) \<union> \<Union> (ran (v_ctl v))"

definition view_marks :: "taint_view \<Rightarrow> mark set" where
  "view_marks v = live_marks v \<union> \<Union> (range (v_slot v))"

lemma marks_of_subset: "marks_of (f k) \<subseteq> \<Union> (ran f)"
  by (auto simp: marks_of_def ran_def split: option.splits)

lemma ran_override: "ran (\<lambda>k. if Q k then Some m else f k) \<subseteq> insert m (ran f)"
  by (auto simp: ran_def)

lemma view_marks_slot:
  "m \<subseteq> view_marks v \<Longrightarrow> view_marks (v\<lparr>v_slot := (v_slot v)(x := m)\<rparr>) \<subseteq> view_marks v"
  by (auto simp: view_marks_def live_marks_def split: if_splits)

lemma view_marks_reg:
  assumes "m \<subseteq> view_marks v"
  shows "view_marks (v\<lparr>v_reg := \<lambda>k. if Q k then Some m else v_reg v k\<rparr>) \<subseteq> view_marks v"
  using assms ran_override[of Q m "v_reg v"] by (auto simp: view_marks_def live_marks_def)

lemma view_marks_mem:
  assumes "m \<subseteq> view_marks v"
  shows "view_marks (v\<lparr>v_mem := \<lambda>k. if Q k then Some m else v_mem v k\<rparr>) \<subseteq> view_marks v"
  using assms ran_override[of Q m "v_mem v"] by (auto simp: view_marks_def live_marks_def)

lemma view_marks_sources:
  "marks_of (v_reg v r) \<subseteq> view_marks v" "marks_of (v_mem v a) \<subseteq> view_marks v"
  "ctl_marks v \<subseteq> view_marks v" "\<Union> (v_slot v ` X) \<union> ctl_marks v \<subseteq> view_marks v"
  "v_mem_marks P start sz b i v \<subseteq> view_marks v"
  using marks_of_subset[of "v_reg v"] marks_of_subset[of "v_mem v"]
  by (fastforce simp: view_marks_def live_marks_def ctl_marks_def v_mem_marks_def split: if_splits)+

lemma view_marks_call: "view_marks (v_call P M c v) \<subseteq> view_marks v"
  by (cases c)
    (auto simp del: fun_upd_apply simp: v_load_reg_def v_load_mem_def v_clear_slot_def v_SetTaintForRegister_def
      v_put_regs_def v_SetTaintForMemory_def v_put_mem_def v_ClearTaintForRegister_def
      v_clear_regs_def v_ClearTaintForMemory_def v_clear_mem_def
      dest!: subsetD[OF view_marks_slot[OF view_marks_sources(1)]]
        subsetD[OF view_marks_slot[OF view_marks_sources(5)]]
        subsetD[OF view_marks_slot[OF empty_subsetI]]
        subsetD[OF view_marks_reg[OF view_marks_sources(4)]]
        subsetD[OF view_marks_mem[OF view_marks_sources(4)]]
        subsetD[OF view_marks_reg[OF view_marks_sources(3)]]
        subsetD[OF view_marks_mem[OF view_marks_sources(3)]] split: if_splits)

lemma view_marks_run: "view_marks (v_run P M cs v) \<subseteq> view_marks v"
proof -
  have "view_marks (snd (fold (v_inserted P M) cs (fl, v))) \<subseteq> view_marks v" for fl
  proof (induction cs arbitrary: fl v)
    case (Cons i cs)
    have "view_marks (snd (v_inserted P M i (fl, v))) \<subseteq> view_marks v"
      using view_marks_call by (cases i) auto
    with Cons[of "fst (v_inserted P M i (fl, v))" "snd (v_inserted P M i (fl, v))"] show ?case by auto
  qed simp
  then show ?thesis by (simp add: v_run_def)
qed

text \<open>Since leftover marks in the slots play no role, the marks of registers, memory and open
  branches after an instruction all come from registers, memory and open branches.\<close>

lemma live_marks_Dataflow: "live_marks (v_run P M (fst (Dataflow xed ins)) v) \<subseteq> live_marks v"
proof -
  let ?w = "v\<lparr>v_slot := \<lambda>x. {}\<rparr>" and ?cs = "fst (Dataflow xed ins)"
  have "agree {} (v_run P M ?cs v) (v_run P M ?cs ?w)"
    by (rule Dataflow_slots_irrelevant) (simp add: agree_def)
  then have "live_marks (v_run P M ?cs v) = live_marks (v_run P M ?cs ?w)"
    by (simp add: agree_def live_marks_def)
  also have "\<dots> \<subseteq> view_marks ?w"
    using view_marks_run[of P M ?cs ?w] by (auto simp: view_marks_def)
  also have "\<dots> = live_marks v" by (simp add: view_marks_def live_marks_def)
  finally show ?thesis .
qed

end
