(* ===== verification/Framework.thy ===== *)
theory Framework
  imports Function_Taint_Source Taint_Source_Network Replace_Functions Instrument_Props
begin

text \<open>
  The configuration (\<open>config_parser.cpp\<close>, \<open>config_parser.h\<close>) and the start-up of the tracker:
  \<open>set_framework_options\<close> and the part of \<open>main\<close> of \<open>dytan.cpp\<close> that sets up the taint state
  and the system call observers. The tree that libxml2 parses is the datatype \<open>xml\<close>;
  \<open>getString\<close> stands for \<open>xmlNodeListGetString\<close>, \<open>None\<close> for the null pointer it returns
  for an empty element. What the parser prints on \<open>log\<close> is not modelled.
\<close>

section \<open>The configuration\<close>

datatype xml = Element string "(string \<times> string) list" "xml list" | TextNode string

fun node_name :: "xml \<Rightarrow> string" where
  "node_name (Element n attrs ch) = n"
| "node_name (TextNode t) = ''text''"

fun node_children :: "xml \<Rightarrow> xml list" where
  "node_children (Element n attrs ch) = ch"
| "node_children (TextNode t) = []"

fun xmlGetProp :: "xml \<Rightarrow> string \<Rightarrow> string option" where
  "xmlGetProp (Element n attrs ch) k = map_of attrs k"
| "xmlGetProp (TextNode t) k = None"

fun is_element :: "xml \<Rightarrow> bool" where
  "is_element (Element n attrs ch) = True"
| "is_element (TextNode t) = False"

record source =
  src_type :: string
  granularity :: string
  details :: "string list"

record propagation =
  dataflow :: bool
  controlflow :: bool

record profiling =
  prof_marks :: bool
  prof_markop :: bool

record config =
  sources :: "source list"
  num_markings :: string
  conf_prop :: propagation
  conf_prof :: profiling

type_synonym get_string = "xml list \<Rightarrow> string option"

text \<open>A C string read through a null pointer is undefined.\<close>

definition node_text :: "get_string \<Rightarrow> xml \<Rightarrow> string result" where
  "node_text getString x = (case getString (node_children x) of Some t \<Rightarrow> Inr t | None \<Rightarrow> Inl Undefined)"

definition parse_source_child :: "get_string \<Rightarrow> xml \<Rightarrow> source \<Rightarrow> source result" where
  "parse_source_child getString sub src =
     (if is_element sub then
        rbind (node_text getString sub) (\<lambda>t.
        Inr (if node_name sub = ''granularity'' then src\<lparr>granularity := t\<rparr>
             else src\<lparr>details := details src @ [t]\<rparr>))
      else Inr src)"

definition parse_source :: "get_string \<Rightarrow> xml \<Rightarrow> source result" where
  "parse_source getString cur =
     (let src = \<lparr>src_type = '''', granularity = '''', details = []\<rparr> in
      case xmlGetProp cur ''type'' of
        Some t \<Rightarrow> rfold (parse_source_child getString) (node_children cur) (src\<lparr>src_type := t\<rparr>)
      | None \<Rightarrow> Inr src)"

definition parseSources :: "get_string \<Rightarrow> xml \<Rightarrow> config \<Rightarrow> config result" where
  "parseSources getString cur conf =
     rfold (\<lambda>c conf.
         if node_name c = ''source'' then
           rbind (parse_source getString c) (\<lambda>src. Inr (conf\<lparr>sources := sources conf @ [src]\<rparr>))
         else if node_name c = ''taint-marks'' then
           rbind (node_text getString c) (\<lambda>t. Inr (conf\<lparr>num_markings := t\<rparr>))
         else Inr conf)
       (node_children cur) conf"

definition parsePropagation :: "get_string \<Rightarrow> xml \<Rightarrow> config \<Rightarrow> config result" where
  "parsePropagation getString cur conf =
     rbind (rfold (\<lambda>c p.
         if node_name c = ''dataflow'' then
           rbind (node_text getString c) (\<lambda>key. Inr (p\<lparr>dataflow := key = ''true''\<rparr>))
         else if node_name c = ''controlflow'' then
           rbind (node_text getString c) (\<lambda>key. Inr (p\<lparr>controlflow := key = ''true''\<rparr>))
         else Inr p)
       (node_children cur) \<lparr>dataflow = False, controlflow = False\<rparr>)
     (\<lambda>p. Inr (conf\<lparr>conf_prop := p\<rparr>))"

definition parseProfiling :: "get_string \<Rightarrow> xml \<Rightarrow> config \<Rightarrow> config result" where
  "parseProfiling getString cur conf =
     rbind (rfold (\<lambda>c p.
         rbind (if node_name c = ''marks''
                then rbind (node_text getString c) (\<lambda>key. Inr (p\<lparr>prof_marks := key = ''true''\<rparr>))
                else Inr p) (\<lambda>p1.
         if node_name c = ''markop''
         then rbind (node_text getString c) (\<lambda>key. Inr (p1\<lparr>prof_markop := key = ''true''\<rparr>))
         else Inr p1))
       (node_children cur) \<lparr>prof_marks = False, prof_markop = False\<rparr>)
     (\<lambda>p. Inr (conf\<lparr>conf_prof := p\<rparr>))"

text \<open>\<open>parseSinks\<close> only prints.\<close>

definition parseSinks :: "get_string \<Rightarrow> xml \<Rightarrow> config \<Rightarrow> config result" where
  "parseSinks getString cur conf = Inr conf"

text \<open>\<open>doc\<close> is \<open>None\<close> when the file could not be parsed, \<open>Some None\<close> when it has no root.\<close>

definition parseConfig :: "get_string \<Rightarrow> xml option option \<Rightarrow> config \<Rightarrow> (int \<times> config) result" where
  "parseConfig getString doc conf =
     (case doc of
        None \<Rightarrow> Inr (-1, conf)
      | Some None \<Rightarrow> Inr (-1, conf)
      | Some (Some cur) \<Rightarrow>
          if node_name cur \<noteq> ''dytan-config'' then Inr (-1, conf)
          else
            rbind (rfold (\<lambda>sub conf.
                if node_name sub = ''sources'' then parseSources getString sub conf
                else if node_name sub = ''propagation'' then parsePropagation getString sub conf
                else if node_name sub = ''sinks'' then parseSinks getString sub conf
                else if node_name sub = ''profiling'' then parseProfiling getString sub conf
                else Inr conf)
              (node_children cur) conf)
            (\<lambda>conf'. Inr (0, conf')))"

section \<open>Number conversion\<close>

text \<open>\<open>convertTo<int>\<close> of \<open>dytan.h\<close>: leading white space, a sign and at least one digit in
  the range of \<open>int\<close>, and no character after it; otherwise the exception \<open>BadConversion\<close>,
  which nobody catches.\<close>

definition is_digit :: "char \<Rightarrow> bool" where
  "is_digit c \<longleftrightarrow> CHR ''0'' \<le> c \<and> c \<le> CHR ''9''"

definition convertTo_int :: "string \<Rightarrow> int result" where
  "convertTo_int s =
     (let t = dropWhile (\<lambda>c. c = CHR '' '' \<or> CHR 0x09 \<le> c \<and> c \<le> CHR 0x0D) s;
          neg = (case t of [] \<Rightarrow> False | c # cs \<Rightarrow> c = CHR ''-'');
          ds = (case t of [] \<Rightarrow> [] | c # cs \<Rightarrow> if c = CHR ''-'' \<or> c = CHR ''+'' then cs else t);
          n = digits_value 0 ds;
          v = (if neg then - n else n)
      in if ds = [] \<or> \<not> list_all is_digit ds \<or> v < - (2 ^ 31) \<or> 2 ^ 31 \<le> v
         then Inl (Abort ''BadConversion'') else Inr v)"

section \<open>Start-up\<close>

type_synonym sys_state = "tracker syscall_monitor \<times> tracker"

text \<open>The uninitialised fields of the base class of a new \<open>ConstantTaintGenerator\<close> are the
  argument \<open>junk\<close>.\<close>

definition set_markings :: "gen_fields \<Rightarrow> string \<Rightarrow> taint_state \<Rightarrow> taint_state result" where
  "set_markings junk nm s =
     (if nm = ''1'' then Inr (s\<lparr>taintGen := Some (new_ConstantTaintGenerator junk 5)\<rparr>)
      else if nm \<noteq> '''' then
        rbind (convertTo_int nm) (\<lambda>n.
        if n < 1 \<or> n > NUMBER_OF_TAINT_MARKS s then Inl (Exit 1)
        else Inr (s\<lparr>NUMBER_OF_TAINT_MARKS := n, taintGen := Some (new_TaintGenerator 0 n)\<rparr>))
      else Inr s)"

definition with_taint :: "(taint_state \<Rightarrow> taint_state result) \<Rightarrow> sys_state \<Rightarrow> sys_state result" where
  "with_taint f = (\<lambda>(m, w). rbind (f (taint w)) (\<lambda>s. Inr (m, w\<lparr>taint := s\<rparr>)))"

definition source_granularity :: "source \<Rightarrow> taint_range_t" where
  "source_granularity src = (if granularity src = ''PerByte'' then PerByte else PerRead)"

fun add_network_details :: "sys_env \<Rightarrow> nat \<Rightarrow> taint_range_t \<Rightarrow> string list \<Rightarrow> tracker \<Rightarrow> tracker result" where
  "add_network_details E i ty [] w = Inr w"
| "add_network_details E i ty [host_ip] w = Inl Undefined"
| "add_network_details E i ty (host_ip # host_port # ds) w =
     rbind (addNetworkSource E i host_ip host_port ty w) (add_network_details E i ty ds)"

text \<open>A source of functions creates a \<open>new_FunctionTaintSource\<close> without names, which inserts no call
  (\<open>ImageLoad_new\<close>), and a source of another type is only reported: neither changes the state.\<close>

definition add_source :: "sys_env \<Rightarrow> source \<Rightarrow> sys_state \<Rightarrow> sys_state result" where
  "add_source E src st =
     (let ty = source_granularity src in
      if src_type src = ''path'' then
        (case details src of
           [] \<Rightarrow> Inl Undefined
         | d # ds \<Rightarrow>
             if d = ''*'' then
               (case new_PathTaintSource E True st of (i, m, w) \<Rightarrow>
                 rbind (path_addObserverForAll i ty w) (\<lambda>w'. Inr (m, w')))
             else
               (case new_PathTaintSource E False st of (i, m, w) \<Rightarrow>
                 rbind (rfold (\<lambda>p. addPathSource i p ty) (d # ds) w) (\<lambda>w'. Inr (m, w'))))
      else if src_type src = ''network'' then
        (case details src of
           [] \<Rightarrow> Inl Undefined
         | d # ds \<Rightarrow>
             if d = ''*'' then
               (case new_NetworkTaintSource E True st of (i, m, w) \<Rightarrow>
                 rbind (net_addObserverForAll i ty w) (\<lambda>w'. Inr (m, w')))
             else
               (case new_NetworkTaintSource E False st of (i, m, w) \<Rightarrow>
                 rbind (add_network_details E i ty (d # ds) w) (\<lambda>w'. Inr (m, w'))))
      else Inr st)"

definition set_framework_options ::
  "sys_env \<Rightarrow> gen_fields \<Rightarrow> config \<Rightarrow> sys_state \<Rightarrow> sys_state result" where
  "set_framework_options E junk conf st =
     rbind (if sources conf = [] then
              (case new_PathTaintSource E False st of (i, st1) \<Rightarrow>
               case new_NetworkTaintSource E False st1 of (j, st2) \<Rightarrow>
               with_taint (set_markings junk (num_markings conf)) st2)
            else Inr st)
       (rfold (\<lambda>src st. rbind (with_taint (set_markings junk (num_markings conf)) st) (add_source E src))
          (sources conf))"

definition initial_taint :: "bitset \<Rightarrow> taint_state" where
  "initial_taint uninit = \<lparr>regTaintMap = (\<lambda>r. None), memTaintMap = (\<lambda>a. None), controlTaintMap = [],
     slots = (\<lambda>x. uninit), NUMBER_OF_TAINT_MARKS = 4096, taintGen = None, profiling_marks = False,
     profiling_markop = False, word_mode = False, word_size = 0, profilingMap = [], prof_log = '''', prof_ok = False,
     prof_base = 10, prof_stream = ''''\<rparr>"

text \<open>The globals that \<open>main\<close> sets after the sources. \<open>prof.log\<close> is opened once for each kind of
  profiling; opening an open stream fails and leaves the stream in an error state, in which
  nothing more is written.\<close>

definition init_globals :: "config \<Rightarrow> taint_state \<Rightarrow> taint_state" where
  "init_globals conf s =
     (let s1 = s\<lparr>slots := (\<lambda>x. bitset_init (num_marks s)), profiling_marks := prof_marks (conf_prof conf),
          profiling_markop := prof_markop (conf_prof conf),
          prof_ok := (prof_marks (conf_prof conf) \<noteq> prof_markop (conf_prof conf))\<rparr>
      in if prof_markop (conf_prof conf) then s1\<lparr>word_mode := True, word_size := 4\<rparr> else s1)"

definition main_observers :: "(string \<times> 'a world_scheme callback) list" where
  "main_observers = [
     (''access'', Handle_ACCESS),
     (''alarm'', Handle_ALARM),
     (''brk'', Handle_BRK),
     (''chmod'', Handle_CHMOD),
     (''close'', Handle_CLOSE),
     (''dup'', Handle_DUP),
     (''fcntl64'', Handle_FSTAT64),
     (''flock'', Handle_FLOCK),
     (''fstat64'', Handle_FSTAT64),
     (''fsync'', Handle_FSYNC),
     (''ftruncate'', Handle_FTRUNCATE),
     (''getdents64'', Handle_GETDENTS64),
     (''getpid'', Handle_GETPID),
     (''gettimeofday'', Handle_GETTIMEOFDAY),
     (''getuid32'', Handle_GETUID32),
     (''ioctl'', Handle_IOCTL),
     (''link'', Handle_LINK),
     (''_llseek'', Handle_LLSEEK),
     (''lseek'', Handle_LSTAT64),
     (''lstat64'', Handle_LSTAT64),
     (''mmap'', Handle_MMAP),
     (''mmap2'', Handle_MMAP2),
     (''mprotect'', Handle_MPROTECT),
     (''munmap'', Handle_MUNMAP),
     (''open'', Handle_OPEN),
     (''read'', Handle_READ),
     (''readlink'', Handle_READLINK),
     (''rename'', Handle_RENAME),
     (''rt_sigaction'', Handle_RT_SIGACTION),
     (''rt_sigprocmask'', Handle_RT_SIGPROCMASK),
     (''set_thread_area'', Handle_SET_THREAD_AREA),
     (''stat64'', Handle_STAT64),
     (''socketcall'', Handle_SOCKETCALL),
     (''time'', Handle_TIME),
     (''uname'', Handle_UNAME),
     (''unlink'', Handle_UNLINK),
     (''utime'', Handle_UTIME),
     (''write'', Handle_WRITE),
     (''writev'', Handle_WRITEV),
     (''poll'', Handle_POLL),
     (''gettid'', Handle_GETTID),
     (''tgkill'', Handle_TGKILL),
     (''getgid32'', Handle_GETGID32),
     (''geteuid32'', Handle_GETEUID32),
     (''getegid32'', Handle_GETEGID32),
     (''getdents'', Handle_GETDENTS),
     (''clone'', Handle_CLONE),
     (''dup2'', Handle_DUP2),
     (''waitpid'', Handle_WAITPID),
     (''set_tid_address'', Handle_SET_TID_ADDRESS),
     (''chown32'', Handle_CHOWN32)]"

definition main_setup :: "sys_env \<Rightarrow> gen_fields \<Rightarrow> bitset \<Rightarrow> tracker callback option \<Rightarrow> config \<Rightarrow> sys_state result" where
  "main_setup E junk uninit cb conf =
     rbind (set_framework_options E junk conf
         (new_SyscallMonitor cb,
          \<lparr>taint = initial_taint uninit, openFiles = (\<lambda>fd. None), pathMonitors = [], networkMonitors = []\<rparr>))
       (\<lambda>(m, w).
         Inr (fold (\<lambda>(n, h). addObserver (SYS E n) h) main_observers (setDefaultObserver UnimplementedSystemCall m),
              w\<lparr>taint := init_globals conf (taint w)\<rparr>))"

end
