(* ===== verification/System_Props.thy ===== *)
theory System_Props
  imports Framework
begin

text \<open>
  The tracker as a whole under system calls: the invariant of the objects behind the
  callbacks, the safety of every callback that the start-up registers, the safety of every
  sequence of system call events, and the start-up itself.
\<close>

section \<open>Safe callbacks\<close>

definition tr_inv :: "src_settings \<Rightarrow> tracker \<Rightarrow> bool" where
  "tr_inv c w \<longleftrightarrow> source_inv c (taint w) \<and> list_all pm_ok (pathMonitors w)"

definition monitors :: "tracker \<Rightarrow> nat \<times> network_monitor list" where
  "monitors w = (length (pathMonitors w), networkMonitors w)"

text \<open>What the configuration says of the monitors: the number of path monitors, and the policies of
  the network monitors. Objects that are created later do not matter to a callback.\<close>

type_synonym tool_setup = "nat \<times> net_policy list"

definition covers :: "tool_setup \<Rightarrow> nat \<times> network_monitor list \<Rightarrow> bool" where
  "covers k = (\<lambda>(np, nms). fst k \<le> np \<and> length (snd k) \<le> length nms \<and> (\<forall>i < length (snd k). nm_ok (snd k ! i) (nms ! i)))"

definition setup_le :: "tool_setup \<Rightarrow> tool_setup \<Rightarrow> bool" where
  "setup_le k k' \<longleftrightarrow> fst k \<le> fst k' \<and> (\<exists>ps. snd k' = snd k @ ps)"

text \<open>The arguments of a system call that the tool survives: the path of an \<open>open\<close> can be read, a socket call is
  one of those the handler knows, and every network monitor survives its arguments.\<close>

definition args_ok :: "sys_env \<Rightarrow> net_policy list \<Rightarrow> syscall_arguments \<Rightarrow> bool" where
  "args_ok E ps args \<longleftrightarrow> (num args = SYS E ''open'' \<longrightarrow> can_read E (arg0 args)) \<and>
     (num args = SYS E ''socketcall'' \<longrightarrow> arg0 args \<in> SYS E ` known_socketcalls \<and> list_all (net_args_ok E args) ps)"

definition safe_cb :: "sys_env \<Rightarrow> tool_setup \<Rightarrow> 32 word \<Rightarrow> tracker callback \<Rightarrow> bool" where
  "safe_cb E k n cb \<longleftrightarrow>
     (\<forall>c args w. num args = n \<longrightarrow> args_ok E (snd k) args \<longrightarrow> tr_inv c w \<longrightarrow> covers k (monitors w) \<longrightarrow>
        (\<exists>w'. cb E n args w = Inr w' \<and> tr_inv c w' \<and> monitors w' = monitors w))"

lemma safe_cbI:
  assumes "\<And>c args w. num args = n \<Longrightarrow> args_ok E (snd k) args \<Longrightarrow> tr_inv c w \<Longrightarrow> covers k (monitors w) \<Longrightarrow>
    \<exists>w'. cb E n args w = Inr w' \<and> tr_inv c w' \<and> monitors w' = monitors w"
  shows "safe_cb E k n cb"
  using assms by (simp add: safe_cb_def)

lemma safe_cbD:
  "safe_cb E k n cb \<Longrightarrow> num args = n \<Longrightarrow> args_ok E (snd k) args \<Longrightarrow> tr_inv c w \<Longrightarrow> covers k (monitors w) \<Longrightarrow>
    \<exists>w'. cb E n args w = Inr w' \<and> tr_inv c w' \<and> monitors w' = monitors w"
  unfolding safe_cb_def by blast

lemma covers_mono: "covers k' ms \<Longrightarrow> setup_le k k' \<Longrightarrow> covers k ms"
proof -
  assume c: "covers k' ms" and "setup_le k k'"
  then obtain ps where ps: "fst k \<le> fst k'" "snd k' = snd k @ ps" by (auto simp: setup_le_def)
  have "nm_ok (snd k ! i) (snd ms ! i)" if "i < length (snd k)" for i
  proof -
    have "nm_ok (snd k' ! i) (snd ms ! i)" using c that by (simp add: covers_def case_prod_beta ps(2))
    then show ?thesis using that by (simp add: ps(2) nth_append)
  qed
  with c ps show ?thesis by (simp add: covers_def case_prod_beta)
qed

lemma args_ok_mono: "args_ok E (snd k') args \<Longrightarrow> setup_le k k' \<Longrightarrow> args_ok E (snd k) args"
  by (auto simp: args_ok_def setup_le_def)

lemma safe_cb_mono: "safe_cb E k n cb \<Longrightarrow> setup_le k k' \<Longrightarrow> safe_cb E k' n cb"
  by (rule safe_cbI, erule safe_cbD) (auto intro: covers_mono args_ok_mono)

lemma safe_cb_run:
  assumes "safe_cb E k n cb" "num args = n" "args_ok E (snd k) args" "tr_inv c w" "covers k (monitors w)"
  shows "\<exists>w'. cb E n args w = Inr w' \<and> tr_inv c w' \<and> covers k (monitors w')"
  using safe_cbD[OF assms] assms(5) by auto

lemma erase_range_source_inv: "source_inv c s \<Longrightarrow> source_inv c (erase_range start finish s)"
  using erase_range_refines[of s start finish]
  by (auto simp: source_inv_def steps_to_def erase_range_eq)

lemma erase_mem_safe:
  "tr_inv c w \<Longrightarrow> \<exists>w'. erase_mem start sz w = Inr w' \<and> tr_inv c w' \<and> monitors w' = monitors w"
  by (simp add: erase_mem_def tr_inv_def monitors_def erase_range_source_inv)

lemma tr_inv_openFiles [simp]: "tr_inv c (w\<lparr>openFiles := f\<rparr>) = tr_inv c w"
  by (simp add: tr_inv_def)

lemma monitors_openFiles [simp]: "monitors (w\<lparr>openFiles := f\<rparr>) = monitors w"
  by (simp add: monitors_def)

lemma erasing_handlers_safe:
  "safe_cb E k n Handle_FSTAT64" "safe_cb E k n Handle_GETDENTS64" "safe_cb E k n Handle_LSTAT64"
  "safe_cb E k n Handle_MMAP" "safe_cb E k n Handle_MMAP2" "safe_cb E k n Handle_READLINK"
  "safe_cb E k n Handle_STAT64" "safe_cb E k n Handle_UNAME" "safe_cb E k n Handle_RT_SIGACTION"
  "safe_cb E k n Handle_RT_SIGPROCMASK" "safe_cb E k n Handle_TIME"
  by (rule safe_cbI; simp add: Handle_FSTAT64_def Handle_GETDENTS64_def Handle_LSTAT64_def Handle_MMAP_def
      Handle_MMAP2_def Handle_READLINK_def Handle_STAT64_def Handle_UNAME_def Handle_RT_SIGACTION_def
      Handle_RT_SIGPROCMASK_def Handle_TIME_def erase_mem_safe)+

lemma GETTIMEOFDAY_safe: "safe_cb E k n Handle_GETTIMEOFDAY"
proof (rule safe_cbI)
  fix c and args :: syscall_arguments and w :: tracker
  assume w: "tr_inv c w"
  from erase_mem_safe[OF w] obtain w1 where 1: "erase_mem (arg0 args) (sizeof_timeval E) w = Inr w1"
      "tr_inv c w1" "monitors w1 = monitors w" by blast
  from erase_mem_safe[OF 1(2), of "arg1 args" "sizeof_timezone E"] 1
  show "\<exists>w'. Handle_GETTIMEOFDAY E n args w = Inr w' \<and> tr_inv c w' \<and> monitors w' = monitors w"
    by (auto simp: Handle_GETTIMEOFDAY_def)
qed

lemma file_handlers_safe: "safe_cb E k (SYS E ''open'') Handle_OPEN" "safe_cb E k n Handle_DUP"
  by (rule safe_cbI; simp add: Handle_OPEN_def Handle_DUP_def Let_def args_ok_def)+

lemma SOCKETCALL_safe: "safe_cb E k (SYS E ''socketcall'') Handle_SOCKETCALL"
proof (rule safe_cbI)
  fix c and args :: syscall_arguments and w :: tracker
  assume "num args = SYS E ''socketcall''" "args_ok E (snd k) args" "tr_inv c w"
  moreover have "known_socketcalls \<subseteq> set socketcalls" by (auto simp: known_socketcalls_def)
  ultimately show "\<exists>w'. Handle_SOCKETCALL E (SYS E ''socketcall'') args w = Inr w' \<and> tr_inv c w' \<and> monitors w' = monitors w"
    by (auto simp: Handle_SOCKETCALL_def args_ok_def)
qed

lemma pass_handlers_safe:
  "safe_cb E k n UnimplementedSystemCall"
  "\<forall>cb \<in> {Handle_ACCESS, Handle_ALARM, Handle_BRK, Handle_CHMOD, Handle_CLOSE, Handle_TGKILL, Handle_FLOCK,
    Handle_FSYNC, Handle_FTRUNCATE, Handle_GETPID, Handle_GETTID, Handle_GETUID32, Handle_IOCTL, Handle_LINK,
    Handle_LLSEEK, Handle_MUNMAP, Handle_MPROTECT, Handle_READ, Handle_RENAME, Handle_SET_THREAD_AREA,
    Handle_UNLINK, Handle_UTIME, Handle_WRITE, Handle_WRITEV, Handle_POLL, Handle_GETGID32, Handle_GETEUID32,
    Handle_GETEGID32, Handle_GETDENTS, Handle_CLONE, Handle_DUP2, Handle_WAITPID, Handle_SET_TID_ADDRESS,
    Handle_CHOWN32}. safe_cb E k n cb"
  by (simp_all add: safe_cb_def pass_defs UnimplementedSystemCall_def)

lemma upd_path_monitor_safe:
  assumes "tr_inv c w" "i < length (pathMonitors w)" "\<And>pm. pm_ok pm \<Longrightarrow> pm_ok (f pm)"
  shows "\<exists>w'. upd_path_monitor i f w = Inr w' \<and> tr_inv c w' \<and> monitors w' = monitors w"
  using assms by (auto simp: upd_path_monitor_def tr_inv_def monitors_def list_all_iff dest: set_update_subset_insert[THEN subsetD])

lemma path_callbacks_safe:
  assumes "i < fst k"
  shows "safe_cb E k (SYS E ''open'') (openCallback i)" "safe_cb E k n (closeCallback i)" "safe_cb E k n (readCallback i)"
proof -
  have i: "i < length (pathMonitors w)" if "covers k (monitors w)" for w
    using assms that by (auto simp: covers_def monitors_def)
  show "safe_cb E k (SYS E ''open'') (openCallback i)" "safe_cb E k n (closeCallback i)"
    by (rule safe_cbI;
      simp add: openCallback_def closeCallback_def args_ok_def upd_path_monitor_safe pm_ok_ops i)+
  show "safe_cb E k n (readCallback i)"
  proof (rule safe_cbI)
    fix c and args :: syscall_arguments and w :: tracker
    assume w: "tr_inv c w" "covers k (monitors w)"
    then have pm: "pm_ok (pathMonitors w ! i)" "source_inv c (taint w)"
      using i by (auto simp: tr_inv_def list_all_length)
    from notifyForRead_safe[OF this] obtain s' where "notifyForRead (pathMonitors w ! i) args (taint w) = Inr s'"
        "source_inv c s'" by blast
    with w i show "\<exists>w'. readCallback i E n args w = Inr w' \<and> tr_inv c w' \<and> monitors w' = monitors w"
      by (auto simp: readCallback_def tr_inv_def monitors_def)
  qed
qed

lemma network_callbacks_quiet:
  assumes "i < length (snd k)" "covers k (monitors w)"
  shows "readNetworkCallback i E n args w = Inr w" "closeNetworkCallback i E n args w = Inr w"
    and "num args = SYS E ''socketcall'' \<Longrightarrow> args_ok E (snd k) args \<Longrightarrow> socketcallNetworkCallback i E n args w = Inr w"
proof -
  have w: "i < length (networkMonitors w)" "nm_ok (snd k ! i) (networkMonitors w ! i)"
    using assms by (auto simp: covers_def monitors_def)
  show "readNetworkCallback i E n args w = Inr w" "closeNetworkCallback i E n args w = Inr w"
    using network_read_quiet[OF w] by simp_all
  show "socketcallNetworkCallback i E n args w = Inr w" if "num args = SYS E ''socketcall''" "args_ok E (snd k) args"
    using socketcall_quiet[OF w] that assms(1) by (simp add: args_ok_def list_all_length)
qed

lemma network_callbacks_safe:
  assumes "i < length (snd k)"
  shows "safe_cb E k n (readNetworkCallback i)" "safe_cb E k n (closeNetworkCallback i)"
    "safe_cb E k (SYS E ''socketcall'') (socketcallNetworkCallback i)"
  by (rule safe_cbI; simp add: network_callbacks_quiet[OF assms])+

section \<open>Sequences of system call events\<close>

definition sys_inv :: "sys_env \<Rightarrow> src_settings \<Rightarrow> tool_setup \<Rightarrow> sys_state \<Rightarrow> bool" where
  "sys_inv E c k = (\<lambda>(m, w). monitor_ok (args_ok E (snd k)) (safe_cb E k) m \<and> tr_inv c w \<and> covers k (monitors w) \<and>
     args_ok E (snd k) zero_args)"

fun event_ok :: "sys_env \<Rightarrow> net_policy list \<Rightarrow> sys_event \<Rightarrow> bool" where
  "event_ok E ps (SysBefore tid n a0 a1 a2 a3 a4 a5) \<longleftrightarrow>
     args_ok E ps \<lparr>num = n, arg0 = a0, arg1 = a1, arg2 = a2, arg3 = a3, arg4 = a4, arg5 = a5, ret = 0, err = 0\<rparr>"
| "event_ok E ps (SysAfter tid r e) \<longleftrightarrow> True"

lemma event_ok_args: "event_ok E ps ev \<Longrightarrow> event_args_ok (args_ok E ps) ev"
  by (cases ev) simp_all

lemma args_ok_zero: "0 \<notin> {SYS E ''open'', SYS E ''socketcall''} \<Longrightarrow> args_ok E ps zero_args"
  by (auto simp: args_ok_def zero_args_def)

lemma args_ok_ret: "args_ok E ps a \<Longrightarrow> args_ok E ps (a\<lparr>ret := r, err := e\<rparr>)"
  by (simp add: args_ok_def net_args_ok_def[abs_def])

interpretation trm: monitored E "\<lambda>w. tr_inv c w \<and> covers k (monitors w)" "args_ok E (snd k)" "safe_cb E k" for E c k
proof
  show "args_ok E (snd k) (a\<lparr>ret := r, err := e\<rparr>)" if "args_ok E (snd k) a" for a r e using that by (rule args_ok_ret)
  show "\<exists>w'. cb E (num args) args w = Inr w' \<and> tr_inv c w' \<and> covers k (monitors w')"
    if "safe_cb E k (num args) cb" "args_ok E (snd k) args" "tr_inv c w \<and> covers k (monitors w)" for args cb w
    using safe_cb_run[OF that(1) refl that(2)] that(3) by blast
qed

lemma sys_step_safe:
  assumes inv: "sys_inv E c k st" and ok: "event_ok E (snd k) ev"
  shows "\<exists>st'. sys_step E ev st = Inr st' \<and> sys_inv E c k st'"
proof -
  obtain m w where st: "st = (m, w)" by (cases st)
  have m: "monitor_ok (args_ok E (snd k)) (safe_cb E k) m" and w: "tr_inv c w \<and> covers k (monitors w)"
    and z: "args_ok E (snd k) zero_args"
    using inv st by (auto simp: sys_inv_def)
  from trm.step_ok[OF z w m event_ok_args[OF ok]] st z show ?thesis
    by (auto simp: sys_inv_def)
qed

interpretation sysm: safe_step "sys_inv E c k" "event_ok E (snd k)" "sys_step E" for E c k
  by unfold_locales (rule sys_step_safe)

section \<open>Start-up\<close>

definition obs_ok :: "sys_env \<Rightarrow> tool_setup \<Rightarrow> sys_state \<Rightarrow> bool" where
  "obs_ok E k = (\<lambda>(m, w).
     (\<forall>n cbs. observers m n = Some cbs \<longrightarrow> list_all (safe_cb E k n) cbs) \<and>
     pendingSyscalls m = (\<lambda>tid. None) \<and> list_all pm_ok (pathMonitors w) \<and>
     fst k = length (pathMonitors w) \<and> list_all2 nm_ok (snd k) (networkMonitors w))"

lemma obs_covers: "obs_ok E k (m, w) \<Longrightarrow> covers k (monitors w)"
  by (simp add: obs_ok_def covers_def monitors_def list_all2_conv_all_nth)

definition fresh_taint :: "string \<Rightarrow> taint_state \<Rightarrow> bool" where
  "fresh_taint nm s \<longleftrightarrow> regTaintMap s = (\<lambda>r. None) \<and> memTaintMap s = (\<lambda>a. None) \<and> controlTaintMap s = [] \<and>
     profilingMap s = [] \<and> prof_log s = [] \<and> \<not> word_mode s \<and>
     (NUMBER_OF_TAINT_MARKS s = 4096 \<or> nm \<noteq> ''1'' \<and> convertTo_int nm = Inr (NUMBER_OF_TAINT_MARKS s)) \<and>
     0 < NUMBER_OF_TAINT_MARKS s \<and> NUMBER_OF_TAINT_MARKS s \<le> 4096 \<and>
     (\<forall>g. taintGen s = Some g \<longrightarrow> gen_inv 0 (NUMBER_OF_TAINT_MARKS s) g)"

definition markings_ok :: "string \<Rightarrow> bool" where
  "markings_ok nm \<longleftrightarrow> nm = ''1'' \<or> nm \<noteq> '''' \<and> (\<exists>n. convertTo_int nm = Inr n \<and> 1 \<le> n \<and> n \<le> 4096)"

text \<open>The addresses of a source of the network, and the policies of the monitors that a configuration
  sets up.\<close>

fun detail_addresses :: "sys_env \<Rightarrow> string list \<Rightarrow> NetworkAddress list result" where
  "detail_addresses E [] = Inr []"
| "detail_addresses E [host_ip] = Inl Undefined"
| "detail_addresses E (host_ip # host_port # ds) =
     rbind (make_address E host_ip host_port) (\<lambda>a.
     rbind (detail_addresses E ds) (\<lambda>as. Inr (a # as)))"

definition source_policies :: "sys_env \<Rightarrow> source \<Rightarrow> net_policy list" where
  "source_policies E src =
     (if src_type src = ''network'' then
        if hd (details src) = ''*'' then [(True, [])]
        else [(False, case detail_addresses E (details src) of Inl e \<Rightarrow> [] | Inr as \<Rightarrow> as)]
      else [])"

definition net_policies :: "sys_env \<Rightarrow> config \<Rightarrow> net_policy list" where
  "net_policies E conf =
     (if sources conf = [] then [(False, [])] else concat (map (source_policies E) (sources conf)))"

text \<open>The details that a source needs: a path, or the wildcard; the wildcard of the network, or pairs of
  addresses and ports that the comparator orders.\<close>

definition src_ok :: "sys_env \<Rightarrow> source \<Rightarrow> bool" where
  "src_ok E src \<longleftrightarrow> (src_type src = ''path'' \<longrightarrow> details src \<noteq> []) \<and>
     (src_type src = ''network'' \<longrightarrow> details src \<noteq> [] \<and>
        (hd (details src) = ''*'' \<or>
         (case detail_addresses E (details src) of Inl e \<Rightarrow> False | Inr as \<Rightarrow> strict_weak_on NetworkAddress_cmp as)))"

definition setup_inv :: "sys_env \<Rightarrow> string \<Rightarrow> tool_setup \<Rightarrow> sys_state \<Rightarrow> bool" where
  "setup_inv E nm k st \<longleftrightarrow> obs_ok E k st \<and> fresh_taint nm (taint (snd st))"

lemma set_markings_ok:
  assumes "fresh_taint nm s" "markings_ok nm"
  shows "\<exists>s'. set_markings junk nm s = Inr s' \<and> fresh_taint nm s' \<and> taintGen s' \<noteq> None"
proof (cases "nm = ''1''")
  case True
  with assms(1) show ?thesis
    by (auto simp: set_markings_def fresh_taint_def new_ConstantTaintGenerator_def)
next
  case False
  with assms(2) obtain n where n: "nm \<noteq> ''''" "convertTo_int nm = Inr n" "1 \<le> n" "n \<le> 4096"
    by (auto simp: markings_ok_def)
  with assms(1) have "n \<le> NUMBER_OF_TAINT_MARKS s" by (auto simp: fresh_taint_def)
  with n False assms(1) show ?thesis
    by (auto simp: set_markings_def fresh_taint_def new_TaintGenerator_def)
qed

lemma with_taint_markings_ok:
  assumes "setup_inv E nm k st" "markings_ok nm"
  shows "\<exists>st'. with_taint (set_markings junk nm) st = Inr st' \<and> setup_inv E nm k st' \<and> taintGen (taint (snd st')) \<noteq> None"
proof -
  obtain m w where st: "st = (m, w)" by (cases st)
  with assms set_markings_ok[of nm "taint w" junk] show ?thesis
    by (auto simp: setup_inv_def with_taint_def obs_ok_def)
qed

lemma addObserver_obs:
  assumes "\<forall>n cbs. observers m n = Some cbs \<longrightarrow> list_all (safe_cb E k n) cbs" "safe_cb E k x cb"
  shows "\<forall>n cbs. observers (addObserver x cb m) n = Some cbs \<longrightarrow> list_all (safe_cb E k n) cbs"
  using assms by (auto simp: addObserver_def split: option.splits if_splits)

lemma addObserver_pending [simp]:
  "pendingSyscalls (addObserver k cb m) = pendingSyscalls m"
  "defaultObserver (addObserver k cb m) = defaultObserver m"
  by (simp_all add: addObserver_def)

lemma observers_mono:
  assumes "\<forall>n cbs. observers m n = Some cbs \<longrightarrow> list_all (safe_cb E k n) cbs" "setup_le k k'"
  shows "\<forall>n cbs. observers m n = Some cbs \<longrightarrow> list_all (safe_cb E k' n) cbs"
  using assms by (auto simp: list_all_iff intro: safe_cb_mono)

lemma setup_le_add: "setup_le k (Suc (fst k), snd k)" "setup_le k (fst k, snd k @ ps)"
  by (simp_all add: setup_le_def)

lemma new_PathTaintSource_ok:
  assumes "setup_inv E nm k st"
  shows "\<exists>m w. new_PathTaintSource E b st = (length (pathMonitors (snd st)), m, w) \<and>
    setup_inv E nm (Suc (fst k), snd k) (m, w) \<and>
    length (pathMonitors w) = Suc (length (pathMonitors (snd st))) \<and> taint w = taint (snd st)"
proof -
  obtain m w where st: "st = (m, w)" by (cases st)
  let ?k = "(Suc (fst k), snd k)" and ?n = "length (pathMonitors w)"
  have k: "fst k = ?n" using assms st by (simp add: setup_inv_def obs_ok_def)
  have obs: "\<forall>n cbs. observers m n = Some cbs \<longrightarrow> list_all (safe_cb E ?k n) cbs"
    by (rule observers_mono[OF _ setup_le_add(1)]) (use assms st in \<open>auto simp: setup_inv_def obs_ok_def\<close>)
  have "\<forall>n cbs. observers (path_activate E ?n m) n = Some cbs \<longrightarrow> list_all (safe_cb E ?k n) cbs"
    unfolding path_activate_def by (intro addObserver_obs obs path_callbacks_safe) (simp_all add: k)
  moreover have "pm_ok (registerDefault pathSourceReadDefault (new_PathMonitor b))"
    by (intro pm_ok_ops) (simp add: path_callbacks_def)
  ultimately show ?thesis
    using assms st k by (auto simp: new_PathTaintSource_def Let_def setup_inv_def obs_ok_def path_activate_def)
qed

lemma new_NetworkTaintSource_ok:
  assumes "setup_inv E nm k st" "fst p = b"
  shows "\<exists>m w. new_NetworkTaintSource E b st = (length (networkMonitors (snd st)), m, w) \<and>
    setup_inv E nm (fst k, snd k @ [p]) (m, w) \<and>
    networkMonitors w = networkMonitors (snd st) @ [registerAddressDefault networkReadDefault (new_NetworkMonitor b)] \<and>
    taint w = taint (snd st)"
proof -
  obtain m w where st: "st = (m, w)" by (cases st)
  let ?k = "(fst k, snd k @ [p])" and ?n = "length (networkMonitors w)"
  have k: "length (snd k) = ?n"
    using assms(1) st by (auto simp: setup_inv_def obs_ok_def dest: list_all2_lengthD)
  have obs: "\<forall>n cbs. observers m n = Some cbs \<longrightarrow> list_all (safe_cb E ?k n) cbs"
    by (rule observers_mono[OF _ setup_le_add(2)]) (use assms(1) st in \<open>auto simp: setup_inv_def obs_ok_def\<close>)
  have "\<forall>n cbs. observers (net_activate E ?n m) n = Some cbs \<longrightarrow> list_all (safe_cb E ?k n) cbs"
    unfolding net_activate_def by (intro addObserver_obs obs network_callbacks_safe) (simp_all add: k)
  moreover have "nm_ok p (registerAddressDefault networkReadDefault (new_NetworkMonitor b))"
    using assms(2) by (simp add: nm_ok_def registerAddressDefault_def new_NetworkMonitor_def)
  ultimately show ?thesis
    using assms(1) st
    by (auto simp: new_NetworkTaintSource_def Let_def setup_inv_def obs_ok_def net_activate_def list_all2_appendI)
qed

lemma upd_path_monitor_setup:
  assumes "setup_inv E nm k (m, w)" "i < length (pathMonitors w)" "\<forall>pm. pm_ok pm \<longrightarrow> pm_ok (f pm)"
  shows "\<exists>w'. upd_path_monitor i f w = Inr w' \<and> setup_inv E nm k (m, w') \<and>
    length (pathMonitors w') = length (pathMonitors w) \<and> taint w' = taint w"
  using assms
  by (auto simp: upd_path_monitor_def setup_inv_def obs_ok_def list_all_iff
      dest: set_update_subset_insert[THEN subsetD])

lemma add_paths_ok:
  "setup_inv E nm k (m, w) \<Longrightarrow> i < length (pathMonitors w) \<Longrightarrow>
   \<exists>w'. rfold (\<lambda>p. addPathSource i p ty) ps w = Inr w' \<and> setup_inv E nm k (m, w') \<and> taint w' = taint w"
proof (induction ps arbitrary: w)
  case (Cons p ps)
  have "\<forall>pm. pm_ok pm \<longrightarrow> pm_ok (observePath p (path_read_callback ty) pm)"
    using pm_ok_ops(2)[OF _ path_read_callback_ok] by blast
  from upd_path_monitor_setup[OF Cons.prems this] obtain w1 where "addPathSource i p ty w = Inr w1" "setup_inv E nm k (m, w1)"
      "length (pathMonitors w1) = length (pathMonitors w)" "taint w1 = taint w"
    by (auto simp: addPathSource_def)
  with Cons.prems Cons.IH[of w1] show ?case by auto
qed simp

text \<open>Changing a network monitor within its policy.\<close>

lemma change_network_monitor_setup:
  assumes "setup_inv E nm k (m, w)" "i < length (networkMonitors w)"
    and "nm_ok (snd k ! i) (networkMonitors w ! i) \<Longrightarrow> \<exists>x. f (networkMonitors w ! i) = Inr x \<and> nm_ok (snd k ! i) x"
  shows "\<exists>w'. change_network_monitor i f w = Inr w' \<and> setup_inv E nm k (m, w') \<and>
    length (networkMonitors w') = length (networkMonitors w) \<and> taint w' = taint w"
proof -
  have all: "list_all2 nm_ok (snd k) (networkMonitors w)" using assms(1) by (simp add: setup_inv_def obs_ok_def)
  then obtain x where x: "f (networkMonitors w ! i) = Inr x" "nm_ok (snd k ! i) x"
    using assms(2,3) by (auto simp: list_all2_conv_all_nth)
  have "list_all2 nm_ok ((snd k)[i := snd k ! i]) ((networkMonitors w)[i := x])"
    using all x(2) by (rule list_all2_update_cong)
  then have "list_all2 nm_ok (snd k) ((networkMonitors w)[i := x])" by simp
  with x(1) assms(1,2) show ?thesis
    by (auto simp: change_network_monitor_def upd_network_monitor_def setup_inv_def obs_ok_def)
qed

lemma observeAddress_ok:
  assumes "nm_ok (False, as) nm" "make_address E h p = Inr a" "a \<in> set as" "strict_weak_on NetworkAddress_cmp as"
  shows "\<exists>x. observeAddress E h p cb nm = Inr x \<and> nm_ok (False, as) x"
proof -
  have keys: "fst ` set (addressObservers nm) \<subseteq> set as" using assms(1) by (simp add: nm_ok_def)
  then have "strict_weak_on NetworkAddress_cmp (a # map fst (addressObservers nm))"
    using assms(3) by (intro strict_weak_on_subset[OF assms(4)]) auto
  moreover have "fst ` set (add_to_entry a cb (addressObservers nm)) \<subseteq> set as"
    using set_add_to_entry[of a cb "addressObservers nm"] keys assms(3) by blast
  ultimately show ?thesis
    using assms(1,2) by (simp add: observeAddress_def push_observer_def nm_ok_def)
qed

lemma add_network_ok:
  "setup_inv E nm k (m, w) \<Longrightarrow> i < length (networkMonitors w) \<Longrightarrow> snd k ! i = (False, as) \<Longrightarrow>
   strict_weak_on NetworkAddress_cmp as \<Longrightarrow> detail_addresses E ds = Inr bs \<Longrightarrow> set bs \<subseteq> set as \<Longrightarrow>
   \<exists>w'. add_network_details E i ty ds w = Inr w' \<and> setup_inv E nm k (m, w') \<and> taint w' = taint w"
proof (induction E i ty ds w arbitrary: bs rule: add_network_details.induct)
  case (3 E i ty h p ds w)
  from "3.prems"(5) obtain a cs where a: "make_address E h p = Inr a" "detail_addresses E ds = Inr cs" "bs = a # cs"
    by (auto simp: rbind_eq_Inr)
  then have "a \<in> set as" using "3.prems"(6) by simp
  then have "nm_ok (snd k ! i) (networkMonitors w ! i) \<Longrightarrow>
      \<exists>x. observeAddress E h p (net_read_callback ty) (networkMonitors w ! i) = Inr x \<and> nm_ok (snd k ! i) x"
    using observeAddress_ok[OF _ a(1) _ "3.prems"(4)] "3.prems"(3) by simp
  from change_network_monitor_setup[where f = "observeAddress E h p (net_read_callback ty)", OF "3.prems"(1,2) this]
  obtain w1 where "addNetworkSource E i h p ty w = Inr w1" "setup_inv E nm k (m, w1)"
      "length (networkMonitors w1) = length (networkMonitors w)" "taint w1 = taint w"
    by (auto simp: addNetworkSource_def)
  with "3.IH"[of w1 cs] "3.prems" a show ?case by auto
qed auto

lemma add_source_ok:
  assumes "setup_inv E nm k st" "src_ok E src"
  shows "\<exists>st' n. add_source E src st = Inr st' \<and> setup_inv E nm (n, snd k @ source_policies E src) st' \<and>
    taint (snd st') = taint (snd st)"
proof -
  let ?ty = "source_granularity src"
  consider (path) d ds where "src_type src = ''path''" "details src = d # ds"
    | (wild) ds where "src_type src = ''network''" "details src = ''*'' # ds"
    | (net) d ds as where "src_type src = ''network''" "details src = d # ds" "d \<noteq> ''*''"
        "detail_addresses E (d # ds) = Inr as" "strict_weak_on NetworkAddress_cmp as"
    | (other) "src_type src \<noteq> ''path''" "src_type src \<noteq> ''network''"
    using assms(2) by (cases "details src") (auto simp: src_ok_def split: sum.splits)
  then show ?thesis
  proof cases
    case path
    obtain m w where n: "new_PathTaintSource E (d = ''*'') st = (length (pathMonitors (snd st)), m, w)"
        "setup_inv E nm (Suc (fst k), snd k) (m, w)" "length (pathMonitors w) = Suc (length (pathMonitors (snd st)))"
        "taint w = taint (snd st)"
      using new_PathTaintSource_ok[OF assms(1)] by blast
    let ?i = "length (pathMonitors (snd st))"
    have i: "?i < length (pathMonitors w)" using n(3) by simp
    have all: "\<forall>pm. pm_ok pm \<longrightarrow> pm_ok (registerCallbackForAll (path_read_callback ?ty) pm)"
      using pm_ok_ops(3)[OF _ path_read_callback_ok] by blast
    have "\<exists>st'. add_source E src st = Inr st' \<and> setup_inv E nm (Suc (fst k), snd k) st' \<and> taint (snd st') = taint (snd st)"
      using add_paths_ok[OF n(2) i, of ?ty "d # ds"] upd_path_monitor_setup[OF n(2) i all] n path
      by (cases "d = ''*''") (auto simp: add_source_def Let_def path_addObserverForAll_def)
    moreover have "source_policies E src = []" using path(1) by (simp add: source_policies_def)
    ultimately show ?thesis by auto
  next
    case wild
    obtain m w where n: "new_NetworkTaintSource E True st = (length (networkMonitors (snd st)), m, w)"
        "setup_inv E nm (fst k, snd k @ [(True, [])]) (m, w)" "taint w = taint (snd st)"
        "networkMonitors w = networkMonitors (snd st) @ [registerAddressDefault networkReadDefault (new_NetworkMonitor True)]"
      using new_NetworkTaintSource_ok[OF assms(1), of "(True, [])" True] by auto
    have i: "length (networkMonitors (snd st)) < length (networkMonitors w)" using n(4) by simp
    have "\<exists>w'. net_addObserverForAll (length (networkMonitors (snd st))) ?ty w = Inr w' \<and>
        setup_inv E nm (fst k, snd k @ [(True, [])]) (m, w') \<and> taint w' = taint w"
      unfolding net_addObserverForAll_def
      using change_network_monitor_setup[OF n(2) i, of "\<lambda>nm. Inr (net_registerCallbackForAll (net_read_callback ?ty) nm)"]
      by (auto simp: net_registerCallbackForAll_def nm_ok_def)
    moreover have "source_policies E src = [(True, [])]" using wild by (simp add: source_policies_def)
    ultimately show ?thesis using n wild by (auto simp: add_source_def Let_def)
  next
    case net
    obtain m w where n: "new_NetworkTaintSource E False st = (length (networkMonitors (snd st)), m, w)"
        "setup_inv E nm (fst k, snd k @ [(False, as)]) (m, w)" "taint w = taint (snd st)"
        "networkMonitors w = networkMonitors (snd st) @ [registerAddressDefault networkReadDefault (new_NetworkMonitor False)]"
      using new_NetworkTaintSource_ok[OF assms(1), of "(False, as)" False] by auto
    have i: "length (networkMonitors (snd st)) < length (networkMonitors w)" using n(4) by simp
    have "length (snd k) = length (networkMonitors (snd st))"
      using assms(1) by (cases st) (auto simp: setup_inv_def obs_ok_def dest: list_all2_lengthD)
    then have "snd (fst k, snd k @ [(False, as)]) ! length (networkMonitors (snd st)) = (False, as)"
      by (simp add: nth_append)
    from add_network_ok[OF n(2) i this net(5,4) order_refl, of ?ty] n net show ?thesis
      by (auto simp: add_source_def Let_def source_policies_def)
  next
    case other
    then have "add_source E src st = Inr st" "source_policies E src = []"
      by (simp_all add: add_source_def source_policies_def Let_def)
    with assms(1) show ?thesis by (metis append_Nil2 prod.collapse)
  qed
qed

lemma sources_loop_ok:
  "setup_inv E nm k st \<Longrightarrow> markings_ok nm \<Longrightarrow> list_all (src_ok E) srcs \<Longrightarrow> taintGen (taint (snd st)) \<noteq> None \<or> srcs \<noteq> [] \<Longrightarrow>
   \<exists>st' n. rfold (\<lambda>src st. rbind (with_taint (set_markings junk nm) st) (add_source E src)) srcs st = Inr st' \<and>
     setup_inv E nm (n, snd k @ concat (map (source_policies E) srcs)) st' \<and> taintGen (taint (snd st')) \<noteq> None"
proof (induction srcs arbitrary: k st)
  case Nil
  then show ?case by (metis append_Nil2 concat.simps(1) list.map(1) prod.collapse rfold.simps(1))
next
  case (Cons src srcs)
  from with_taint_markings_ok[OF Cons.prems(1,2)] obtain st1 where 1:
      "with_taint (set_markings junk nm) st = Inr st1" "setup_inv E nm k st1" "taintGen (taint (snd st1)) \<noteq> None" by blast
  from Cons.prems(3) have "src_ok E src" by simp
  from add_source_ok[OF 1(2) this] obtain st2 n where 2: "add_source E src st1 = Inr st2"
      "setup_inv E nm (n, snd k @ source_policies E src) st2" "taint (snd st2) = taint (snd st1)" by blast
  from Cons.IH[OF 2(2) Cons.prems(2)] Cons.prems(3) 1 2 show ?case by simp
qed

lemma set_framework_options_ok:
  assumes "setup_inv E (num_markings conf) (0, []) st" "markings_ok (num_markings conf)" "list_all (src_ok E) (sources conf)"
  shows "\<exists>st' n. set_framework_options E junk conf st = Inr st' \<and>
    setup_inv E (num_markings conf) (n, net_policies E conf) st' \<and> taintGen (taint (snd st')) \<noteq> None"
proof (cases "sources conf = []")
  case True
  obtain m w where 1: "new_PathTaintSource E False st = (length (pathMonitors (snd st)), m, w)"
      "setup_inv E (num_markings conf) (Suc 0, []) (m, w)"
    using new_PathTaintSource_ok[OF assms(1), of False] by auto
  obtain m2 w2 where 2: "new_NetworkTaintSource E False (m, w) = (length (networkMonitors w), m2, w2)"
      "setup_inv E (num_markings conf) (Suc 0, [(False, [])]) (m2, w2)"
    using new_NetworkTaintSource_ok[OF 1(2), of "(False, [])" False] by auto
  from with_taint_markings_ok[OF 2(2) assms(2), of junk] True 1(1) 2(1) show ?thesis
    by (auto simp: set_framework_options_def net_policies_def)
next
  case False
  then show ?thesis
    using sources_loop_ok[OF assms, of junk] by (simp add: set_framework_options_def net_policies_def)
qed

lemma init_globals_ok:
  assumes "fresh_taint nm s" "taintGen s \<noteq> None"
  shows "state_inv (init_globals conf s) \<and> gen_ok (init_globals conf s)"
proof -
  have nm: "num_marks (init_globals conf s) = num_marks s" "num_marks s = word_of_int (NUMBER_OF_TAINT_MARKS s)"
    by (simp_all add: init_globals_def num_marks_def Let_def)
  have bound: "0 < NUMBER_OF_TAINT_MARKS s" "NUMBER_OF_TAINT_MARKS s \<le> 4096"
    using assms(1) by (simp_all add: fresh_taint_def)
  then have "unat (num_marks s) = nat (NUMBER_OF_TAINT_MARKS s)"
    by (simp add: nm(2) unat_eq_nat_uint uint_word_of_int)
  with bound have "nbits_ok (num_marks s)" by (simp add: nbits_ok_def)
  then have "bitset_wf (num_marks s) (bitset_init (num_marks s))" by (rule bitset_init_wf)
  with assms bound show ?thesis
    unfolding state_inv_def nm(1)
    by (auto simp: init_globals_def Let_def fresh_taint_def wf_map_def gen_ok_def stdmap_inv_def)
qed

lemma main_observers_safe:
  "list_all (\<lambda>(n, h). safe_cb E k (SYS E n) h) main_observers"
  unfolding main_observers_def
  using pass_handlers_safe(2)
  by (simp add: erasing_handlers_safe GETTIMEOFDAY_safe file_handlers_safe SOCKETCALL_safe)

lemma add_main_observers:
  "list_all (\<lambda>(n, h). safe_cb E k (SYS E n) h) hs \<Longrightarrow> monitor_ok aok (safe_cb E k) m \<Longrightarrow>
     monitor_ok aok (safe_cb E k) (fold (\<lambda>(n, h). addObserver (SYS E n) h) hs m)"
proof (induction hs arbitrary: m)
  case (Cons nh hs)
  obtain n h where nh: "nh = (n, h)" by (cases nh)
  from Cons.prems nh addObserver_obs[of m E k "SYS E n" h] have "monitor_ok aok (safe_cb E k) (addObserver (SYS E n) h m)"
    unfolding monitor_ok_def by simp
  with Cons nh show ?case by simp
qed simp

text \<open>The settings of a tool that can write nothing to \<open>prof.log\<close> and has written nothing.\<close>

definition silent_cfg :: "src_settings \<Rightarrow> bool" where
  "silent_cfg = (\<lambda>(n, pm, po, wm, ws, ok, log). \<not> ok \<and> log = [])"

lemma init_globals_silent:
  "prof_log s = [] \<Longrightarrow> prof_marks (conf_prof conf) \<Longrightarrow> prof_markop (conf_prof conf) \<Longrightarrow> silent_cfg (src_cfg (init_globals conf s))"
  by (simp add: silent_cfg_def src_cfg_def init_globals_def dead_log_def Let_def)

lemma main_setup_ok:
  assumes "markings_ok (num_markings conf)" "list_all (src_ok E) (sources conf)" "0 \<notin> {SYS E ''open'', SYS E ''socketcall''}"
  shows "\<exists>st c n. main_setup E junk uninit cb conf = Inr st \<and> sys_inv E c (n, net_policies E conf) st \<and>
    (prof_marks (conf_prof conf) \<and> prof_markop (conf_prof conf) \<longrightarrow> silent_cfg c)"
proof -
  let ?w0 = "\<lparr>taint = initial_taint uninit, openFiles = (\<lambda>fd. None), pathMonitors = [], networkMonitors = []\<rparr>"
  have "setup_inv E (num_markings conf) (0, []) (new_SyscallMonitor cb, ?w0)"
    by (simp add: setup_inv_def obs_ok_def new_SyscallMonitor_def fresh_taint_def initial_taint_def)
  from set_framework_options_ok[OF this assms(1,2), of junk] obtain m w n where 1:
      "set_framework_options E junk conf (new_SyscallMonitor cb, ?w0) = Inr (m, w)"
      "setup_inv E (num_markings conf) (n, net_policies E conf) (m, w)" "taintGen (taint w) \<noteq> None" by auto
  let ?k = "(n, net_policies E conf)"
  let ?m = "fold (\<lambda>(n, h). addObserver (SYS E n) h) main_observers (setDefaultObserver UnimplementedSystemCall m)"
  let ?w = "w\<lparr>taint := init_globals conf (taint w)\<rparr>"
  have "monitor_ok (args_ok E (net_policies E conf)) (safe_cb E ?k) (setDefaultObserver UnimplementedSystemCall m)"
    using 1(2) pass_handlers_safe(1) by (auto simp: setup_inv_def obs_ok_def monitor_ok_def setDefaultObserver_def)
  from add_main_observers[OF main_observers_safe this]
  have "monitor_ok (args_ok E (net_policies E conf)) (safe_cb E ?k) ?m" .
  moreover have "tr_inv (src_cfg (init_globals conf (taint w))) ?w"
    using 1(2) init_globals_ok[OF _ 1(3), of "num_markings conf" conf]
    by (simp add: tr_inv_def source_inv_def setup_inv_def obs_ok_def)
  moreover have "covers ?k (monitors ?w)"
    using 1(2) obs_covers[of E ?k m w] by (simp add: setup_inv_def monitors_def)
  moreover have "args_ok E (net_policies E conf) zero_args" using assms(3) by (rule args_ok_zero)
  ultimately have "sys_inv E (src_cfg (init_globals conf (taint w))) ?k (?m, ?w)"
    by (simp add: sys_inv_def)
  moreover have "main_setup E junk uninit cb conf = Inr (?m, ?w)" using 1(1) by (simp add: main_setup_def)
  moreover have "prof_log (taint w) = []" using 1(2) by (simp add: setup_inv_def fresh_taint_def)
  ultimately show ?thesis using init_globals_silent by blast
qed

end
