(* ===== verification/Tool.thy ===== *)
theory Tool
  imports System_Props
begin

text \<open>
  The running tool: every event that Pin delivers to it after \<open>main\<close> has registered its
  callbacks. An executed instruction runs the calls that the data flow instrumentation
  inserted before it (when the configuration asks for data flow propagation); a conditional
  branch and a join point run \<open>PushControl\<close> and \<open>PopControl\<close> (when it asks for control
  flow propagation); a system call runs the monitor; the entry of \<open>main\<close> runs the wrapper
  that taints its arguments; a replaced function of the monitored program runs its
  replacement. The theory shows that no interleaving of these events makes the tool fail.
\<close>

section \<open>Events\<close>

datatype api_call =
    Call_set_trace "32 word"
  | Call_display ADDRINT size_t string
  | Call_tag ADDRINT size_t size_t
  | Call_tag_pointer ADDRINT size_t size_t
  | Call_tag_memory ADDRINT size_t size_t
  | Call_free ADDRINT
  | Call_check ADDRINT ADDRINT

fun run_api :: "api_call \<Rightarrow> api \<Rightarrow> api result" where
  "run_api (Call_set_trace t) a = Inr (SetTrace t a)"
| "run_api (Call_display start sz msg) a = DisplayTagsForByteRange start sz msg a"
| "run_api (Call_tag start sz ident) a = AssignTagToByteRange start sz ident a"
| "run_api (Call_tag_pointer start sz ident) a = AssignPointerTagToByteRange start sz ident a"
| "run_api (Call_tag_memory start sz ident) a = AssignMemoryTagToByteRange start sz ident a"
| "run_api (Call_free start) a = Inr (ClearTagsForByteRange start a)"
| "run_api (Call_check pointer memory) a = Inr (TagsCheck pointer memory a)"

datatype tool_event =
    Executes INS machine
  | At_branch ADDRINT
  | At_join nat "ADDRINT list"
  | Main_entry ADDRINT ADDRINT
  | Syscall sys_event
  | Api api_call

type_synonym tool_state = "sys_state \<times> api"

text \<open>The taint state is shared: it lives in the tracker, and an API call works on it.\<close>

definition on_taint :: "(taint_state \<Rightarrow> taint_state result) \<Rightarrow> tool_state \<Rightarrow> tool_state result" where
  "on_taint f = (\<lambda>(st, a). rbind (with_taint f st) (\<lambda>st'. Inr (st', a)))"

definition on_api :: "(api \<Rightarrow> api result) \<Rightarrow> tool_state \<Rightarrow> tool_state result" where
  "on_api f = (\<lambda>((m, w), a).
     rbind (f (a\<lparr>api_taint := taint w\<rparr>)) (\<lambda>a'. Inr ((m, w\<lparr>taint := api_taint a'\<rparr>), a')))"

text \<open>Translating an instruction whose handler calls \<open>abort()\<close> stops the process.\<close>

definition execute_instruction ::
  "iclass \<Rightarrow> pin_regs \<Rightarrow> INS \<Rightarrow> machine \<Rightarrow> taint_state \<Rightarrow> taint_state result" where
  "execute_instruction xed P ins M s =
     (case Dataflow xed ins of
        (cs, Aborted) \<Rightarrow> Inl (Abort ''instrumentation'')
      | (cs, _) \<Rightarrow> run_inserted P M cs s)"

fun tool_step ::
  "sys_env \<Rightarrow> iclass \<Rightarrow> pin_regs \<Rightarrow> config \<Rightarrow> tool_event \<Rightarrow> tool_state \<Rightarrow> tool_state result" where
  "tool_step E xed P conf (Executes ins M) st =
     (if dataflow (conf_prop conf) then on_taint (execute_instruction xed P ins M) st else Inr st)"
| "tool_step E xed P conf (At_branch addr) st =
     (if controlflow (conf_prop conf) then on_taint (PushControl addr) st else Inr st)"
| "tool_step E xed P conf (At_join n addrs) st =
     (if controlflow (conf_prop conf) then on_taint (PopControl n addrs) st else Inr st)"
| "tool_step E xed P conf (Main_entry argcAddr argvAddr) st =
     on_taint (main_wrapper_func E argcAddr argvAddr) st"
| "tool_step E xed P conf (Syscall ev) (st, a) = rbind (sys_step E ev st) (\<lambda>st'. Inr (st', a))"
| "tool_step E xed P conf (Api c) st = on_api (run_api c) st"

fun tool_event_ok :: "sys_env \<Rightarrow> iclass \<Rightarrow> net_policy list \<Rightarrow> tool_event \<Rightarrow> bool" where
  "tool_event_ok E xed ps (Executes ins M) \<longleftrightarrow> snd (Dataflow xed ins) \<noteq> Aborted"
| "tool_event_ok E xed ps (At_join n addrs) \<longleftrightarrow> n \<le> length addrs"
| "tool_event_ok E xed ps (Syscall ev) \<longleftrightarrow> event_ok E ps ev"
| "tool_event_ok E xed ps _ \<longleftrightarrow> True"

section \<open>Safety of each event\<close>

definition tags_ok :: "int \<Rightarrow> api \<Rightarrow> bool" where
  "tags_ok n a \<longleftrightarrow> (\<forall>name m. tagMap a name = Some m \<longrightarrow> 0 \<le> m \<and> m < n)"

definition tool_inv ::
  "sys_env \<Rightarrow> src_settings \<Rightarrow> tool_setup \<Rightarrow> tool_state \<Rightarrow> bool" where
  "tool_inv E c k = (\<lambda>(st, a). sys_inv E c k st \<and> tags_ok (fst c) a)"

lemma steps_to_source_inv:
  assumes "source_inv c s" "steps_to s r f"
  shows "\<exists>s'. r = Inr s' \<and> source_inv c s'"
proof -
  obtain s' where s': "r = Inr s'" "state_inv s'" "cfg s' = cfg s"
    using steps_toE[OF assms(2)] by metis
  then have "src_cfg s' = src_cfg s" "gen_ok s' = gen_ok s"
    by (simp_all add: cfg_def src_cfg_def gen_ok_def cong: option.case_cong)
  with s' assms(1) show ?thesis by (simp add: source_inv_def)
qed

lemma on_taint_safe:
  assumes "tool_inv E c k st" "\<forall>s. source_inv c s \<longrightarrow> (\<exists>s'. f s = Inr s' \<and> source_inv c s')"
  shows "\<exists>st'. on_taint f st = Inr st' \<and> tool_inv E c k st'"
proof -
  obtain m w a where st: "st = ((m, w), a)" by (metis prod.exhaust)
  with assms(1) have "source_inv c (taint w)" by (simp add: tool_inv_def sys_inv_def tr_inv_def)
  with assms(2) obtain s' where "f (taint w) = Inr s'" "source_inv c s'" by blast
  with assms(1) st show ?thesis
    by (auto simp: on_taint_def with_taint_def tool_inv_def sys_inv_def tr_inv_def monitors_def)
qed

lemma on_taint_refines_safe:
  assumes "tool_inv E c k st" "\<forall>s. state_inv s \<longrightarrow> steps_to s (f s) g"
  shows "\<exists>st'. (if on then on_taint f st else Inr st) = Inr st' \<and> tool_inv E c k st'"
proof (cases on)
  case True
  have "\<forall>s. source_inv c s \<longrightarrow> (\<exists>s'. f s = Inr s' \<and> source_inv c s')"
    using steps_to_source_inv assms(2) by (simp add: source_inv_def) blast
  from on_taint_safe[OF assms(1) this] True show ?thesis by simp
next
  case False
  with assms(1) show ?thesis by (intro exI[of _ st]) simp
qed

lemma execute_instruction_refines:
  assumes "state_inv s" "snd (Dataflow xed ins) \<noteq> Aborted"
  shows "steps_to s (execute_instruction xed P ins M s) (v_run P M (fst (Dataflow xed ins)))"
proof -
  have "execute_instruction xed P ins M s = run_inserted P M (fst (Dataflow xed ins)) s"
    using assms(2) by (auto simp: execute_instruction_def split: prod.split istatus.split)
  moreover have "list_all inserted_ok (fst (Dataflow xed ins))"
    using Dataflow_disc[of xed ins] by (simp add: disc_def)
  ultimately show ?thesis using run_inserted_refines[OF assms(1)] by simp
qed

lemma new_input_safe:
  assumes "source_inv c s"
  shows "\<exists>s'. SetNewTaintForMemory addr sz (-1) s = Inr s' \<and> source_inv c s'"
proof -
  have inv: "state_inv s" "gen_ok s" "src_cfg s = c" using assms by (simp_all add: source_inv_def)
  from inv(2) obtain g where g: "taintGen s = Some g" "gen_inv 0 (NUMBER_OF_TAINT_MARKS s) g"
    by (auto simp: gen_ok_def split: option.splits)
  from nextTaintMark_inv[OF g(2)] obtain m g' where m: "nextTaintMark g = Inr (m, g')"
      "0 \<le> m" "m < NUMBER_OF_TAINT_MARKS s" "gen_inv 0 (NUMBER_OF_TAINT_MARKS s) g'" by auto
  let ?s = "s\<lparr>taintGen := Some g'\<rparr>"
  have "source_inv c ?s"
    using m(4) inv taintGen_upd_inv[OF inv(1)] by (simp add: source_inv_def gen_ok_def)
  moreover have "steps_to ?s (SetNewTaintForMemory addr sz m ?s) (v_put_mem {addr..<addr + sz} {nat m})"
    using m by (intro SetNewTaintForMemory_mark taintGen_upd_inv inv) simp_all
  ultimately show ?thesis
    using steps_to_source_inv SetNewTaintForMemory_fresh[OF inv(1) g(1) m(1-3)] by metis
qed

interpretation inp: safe_step "source_inv c" "\<lambda>i. True" "\<lambda>i. SetNewTaintForMemory (ad i) (le i) (-1)"
  for c ad le
  by unfold_locales (rule new_input_safe)

lemma SetNewTaintStart_safe:
  assumes "source_inv c s"
  shows "\<exists>s'. SetNewTaintStart s = Inr s' \<and> source_inv c s'"
proof -
  obtain g where g: "taintGen s = Some g" "gen_inv 0 (NUMBER_OF_TAINT_MARKS s) g"
    using assms by (auto simp: source_inv_def gen_ok_def split: option.splits)
  then have "gen_inv 0 (NUMBER_OF_TAINT_MARKS s) (setStart (getCurrent g) g)"
    by (cases g) (auto simp: getCurrent_def)
  with g assms taintGen_upd_inv show ?thesis
    by (auto simp: SetNewTaintStart_def source_inv_def gen_ok_def)
qed

lemma main_wrapper_func_safe:
  assumes "source_inv c s"
  shows "\<exists>s'. main_wrapper_func E argcAddr argvAddr s = Inr s' \<and> source_inv c s'"
proof -
  let ?argv = "load32 E argvAddr"
  let ?step = "\<lambda>i. SetNewTaintForMemory (?argv + 4 * of_nat i)
    (of_nat (length (cstring E (load32 E (?argv + 4 * of_nat i))))) (-1)"
  obtain s1 where 1: "SetNewTaintForMemory argcAddr 4 (-1) s = Inr s1" "source_inv c s1"
    using new_input_safe[OF assms] by blast
  have "\<exists>s2. rfold ?step [0..<nat (sint (load32 E argcAddr))] s1 = Inr s2 \<and> source_inv c s2"
    by (rule inp.run_safe[OF 1(2)]) (simp add: list_all_iff)
  with 1(1) SetNewTaintStart_safe show ?thesis
    by (fastforce simp: main_wrapper_func_def Let_def)
qed

lemma clear_run_source_inv: "source_inv c s \<Longrightarrow> source_inv c (snd (clear_run addr finish s))"
proof (induction addr finish s rule: clear_run.induct)
  case (1 addr finish s)
  have "source_inv c (s\<lparr>memTaintMap := (memTaintMap s)(addr := None)\<rparr>)"
    using "1.prems" by (auto simp: source_inv_def state_inv_def wf_map_def num_marks_def)
  with 1 show ?case
    by (subst clear_run.simps) (auto split: option.split)
qed

lemma on_api_safe:
  assumes "tool_inv E c k st"
    and "\<forall>a. source_inv c (api_taint a) \<and> tags_ok (fst c) a \<longrightarrow>
      (\<exists>a'. f a = Inr a' \<and> source_inv c (api_taint a') \<and> tags_ok (fst c) a')"
  shows "\<exists>st'. on_api f st = Inr st' \<and> tool_inv E c k st'"
proof -
  obtain m w a where st: "st = ((m, w), a)" by (metis prod.exhaust)
  with assms(1) have "source_inv c (taint w)" "tags_ok (fst c) (a\<lparr>api_taint := taint w\<rparr>)"
    by (simp_all add: tool_inv_def sys_inv_def tr_inv_def tags_ok_def)
  then obtain a' where "f (a\<lparr>api_taint := taint w\<rparr>) = Inr a'" "source_inv c (api_taint a')"
      "tags_ok (fst c) a'" using spec[OF assms(2), of "a\<lparr>api_taint := taint w\<rparr>"] by auto
  with assms(1) st show ?thesis
    by (auto simp: on_api_def tool_inv_def sys_inv_def tr_inv_def monitors_def)
qed

lemma assign_tag_safe:
  assumes "source_inv c (api_taint a)" "tags_ok (fst c) a"
  shows "\<exists>a'. assign_tag msg start sz ident a = Inr a' \<and> source_inv c (api_taint a') \<and> tags_ok (fst c) a'"
proof -
  have n: "NUMBER_OF_TAINT_MARKS (api_taint a) = fst c"
    using assms(1) by (auto simp: source_inv_def src_cfg_def)
  with assms have "api_inv a" by (simp add: api_inv_def source_inv_def tags_ok_def)
  from assign_tag_ok[OF this, of msg start sz ident] obtain m a' where
    1: "assign_tag msg start sz ident a = Inr a'" "api_inv a'" "src_cfg (api_taint a') = src_cfg (api_taint a)"
    by blast
  then have "NUMBER_OF_TAINT_MARKS (api_taint a') = fst c" using n by (simp add: src_cfg_def)
  with 1 assms(1) show ?thesis by (simp add: source_inv_def api_inv_def tags_ok_def)
qed

lemma run_api_safe:
  assumes "source_inv c (api_taint a)" "tags_ok (fst c) a"
  shows "\<exists>a'. run_api call a = Inr a' \<and> source_inv c (api_taint a') \<and> tags_ok (fst c) a'"
proof (cases call)
  case (Call_display start sz msg)
  have "state_inv (api_taint a)" using assms(1) by (simp add: source_inv_def)
  from DisplayTagsForByteRange_ok[OF this] Call_display assms show ?thesis by (simp add: tags_ok_def)
next
  case (Call_free start)
  with assms clear_run_source_inv[OF assms(1), of start start] show ?thesis
    by (auto simp: ClearTagsForByteRange_def tags_ok_def split: prod.split)
qed (use assms assign_tag_safe[OF assms] in
    \<open>auto simp: SetTrace_def TagsCheck_def tags_ok_def AssignTagToByteRange_def AssignPointerTagToByteRange_def
      AssignMemoryTagToByteRange_def\<close>)

lemma tool_step_safe:
  assumes inv: "tool_inv E c k st" and ok: "tool_event_ok E xed (snd k) ev"
  shows "\<exists>st'. tool_step E xed P conf ev st = Inr st' \<and> tool_inv E c k st'"
proof (cases ev)
  case (Executes ins M)
  with ok have "\<forall>s. state_inv s \<longrightarrow>
      steps_to s (execute_instruction xed P ins M s) (v_run P M (fst (Dataflow xed ins)))"
    by (simp add: execute_instruction_refines)
  from on_taint_refines_safe[OF inv this] show ?thesis unfolding Executes tool_step.simps .
next
  case (At_branch addr)
  have "\<forall>s. state_inv s \<longrightarrow> steps_to s (PushControl addr s) (v_PushControl addr)"
    by (simp add: PushControl_refines)
  from on_taint_refines_safe[OF inv this] show ?thesis unfolding At_branch tool_step.simps .
next
  case (At_join n addrs)
  with ok have "\<forall>s. state_inv s \<longrightarrow> steps_to s (PopControl n addrs s) (v_PopControl (take n addrs))"
    by (simp add: PopControl_refines)
  from on_taint_refines_safe[OF inv this] show ?thesis unfolding At_join tool_step.simps .
next
  case (Main_entry argcAddr argvAddr)
  then show ?thesis using on_taint_safe[OF inv] main_wrapper_func_safe by simp
next
  case (Syscall e)
  obtain st0 a where st: "st = (st0, a)" by (cases st)
  with inv ok Syscall obtain st1 where "sys_step E e st0 = Inr st1" "sys_inv E c k st1"
    using sys_step_safe[of E c k st0 e] by (auto simp: tool_inv_def)
  with inv st Syscall show ?thesis by (auto simp: tool_inv_def)
next
  case (Api call)
  then show ?thesis using on_api_safe[OF inv] run_api_safe by simp
qed

interpretation tool: safe_step "tool_inv E c k" "tool_event_ok E xed (snd k)" "tool_step E xed P conf"
  for E c k xed P conf
  by unfold_locales (rule tool_step_safe)

section \<open>Bounds of the marks\<close>

lemma state_inv_mark_bounds:
  assumes "state_inv s"
  shows "mem_marks s a \<subseteq> {..<nat (NUMBER_OF_TAINT_MARKS s)}" "reg_marks s r \<subseteq> {..<nat (NUMBER_OF_TAINT_MARKS s)}"
  using marks_bound[OF wf_mapD[OF state_invD(4)[OF assms]], of a]
    marks_bound[OF wf_mapD[OF state_invD(3)[OF assms]], of r] unat_num_marks[OF assms]
  by (cases "memTaintMap s a"; cases "regTaintMap s r"; simp add: mem_marks_def reg_marks_def)+

text \<open>The state in which the monitored program starts.\<close>

definition tool_start :: "sys_env \<Rightarrow> gen_fields \<Rightarrow> bitset \<Rightarrow> tracker callback option \<Rightarrow> config \<Rightarrow> tool_state result" where
  "tool_start E junk uninit cb conf =
     rbind (main_setup E junk uninit cb conf) (\<lambda>st.
       Inr (st, \<lparr>api_taint = taint (snd st), tagMap = (\<lambda>name. None), tracing = False, out = ''''\<rparr>))"

lemma tool_start_ok:
  assumes "markings_ok (num_markings conf)" "list_all (src_ok E) (sources conf)" "0 \<notin> {SYS E ''open'', SYS E ''socketcall''}"
  shows "\<exists>st c n. tool_start E junk uninit cb conf = Inr st \<and> tool_inv E c (n, net_policies E conf) st \<and>
    (prof_marks (conf_prof conf) \<and> prof_markop (conf_prof conf) \<longrightarrow> silent_cfg c)"
proof -
  obtain st c n where "main_setup E junk uninit cb conf = Inr st" "sys_inv E c (n, net_policies E conf) st"
    and silent: "prof_marks (conf_prof conf) \<and> prof_markop (conf_prof conf) \<longrightarrow> silent_cfg c"
    using main_setup_ok[OF assms, of junk uninit cb] by blast
  then have "tool_start E junk uninit cb conf =
      Inr (st, \<lparr>api_taint = taint (snd st), tagMap = (\<lambda>name. None), tracing = False, out = ''''\<rparr>)"
    "tool_inv E c (n, net_policies E conf) (st, \<lparr>api_taint = taint (snd st), tagMap = (\<lambda>name. None), tracing = False, out = ''''\<rparr>)"
    by (simp_all add: tool_start_def tool_inv_def tags_ok_def)
  with silent show ?thesis by blast
qed

text \<open>What the fini function writes.\<close>

definition profile_lines :: "nat \<Rightarrow> (string, 32 word) stdmap \<Rightarrow> string" where
  "profile_lines b m = concat (map (\<lambda>(key, n). show_int_base b n @ [CHR 0x09] @ key @ [CHR 0x0A]) m)"

lemma PrintProfilingResult_log:
  "prof_log (PrintProfilingResult s) = prof_log s @ (if prof_ok s then profile_lines (prof_base s) (profilingMap s) else [])"
proof -
  have "prof_log (fold (\<lambda>(key, n) s. plog True (show_int_base (prof_base s) n @ [CHR 0x09] @ key @ [CHR 0x0A]) s) m t) =
      prof_log t @ (if prof_ok t then profile_lines (prof_base t) m else [])" for m t
    by (induction m arbitrary: t) (auto simp: plog_def profile_lines_def)
  then show ?thesis by (simp add: PrintProfilingResult_def)
qed

lemma silent_log:
  assumes "tool_inv E c k st" "silent_cfg c"
  shows "prof_log (PrintProfilingResult (taint (snd (fst st)))) = []"
  using assms
  by (auto simp: tool_inv_def sys_inv_def tr_inv_def source_inv_def silent_cfg_def src_cfg_def dead_log_def
      PrintProfilingResult_log split: if_splits)

text \<open>\<open>main\<close> from the configuration file on: it ends with exit code 1 when the file cannot be
  used. \<open>conf0\<close> is the new configuration object.\<close>

definition tool_main :: "sys_env \<Rightarrow> gen_fields \<Rightarrow> bitset \<Rightarrow> tracker callback option \<Rightarrow> get_string \<Rightarrow> xml option option \<Rightarrow>
    config \<Rightarrow> (config \<times> tool_state) result" where
  "tool_main E junk uninit cb getString doc conf0 =
     rbind (parseConfig getString doc conf0) (\<lambda>(r, conf).
     if r = -1 then Inl (Exit 1)
     else rbind (tool_start E junk uninit cb conf) (\<lambda>st. Inr (conf, st)))"

end
