(* ===== verification/Instrument_Semantics.thy ===== *)
theory Instrument_Semantics
  imports Instrument_Props
begin

text \<open>
  What the inserted calls of an instruction do to the taint of registers and memory. The
  marks of an operand and the assignment of marks to the first operand are stated once;
  the lemmas then give, for the arithmetic, move, stack, exchange and conditional move
  handlers, the registers and the memory after the calls as a function of the state before
  them. The frame lemmas hold for every handler of the dispatch table.
\<close>

section \<open>Names of the dispatch table\<close>

definition entry_names :: "string list" where
  "entry_names = map fst (instrument_entries (\<lambda>n. 0))"

lemma map_fst_entries: "map fst (instrument_entries xed) = entry_names"
  unfolding entry_names_def instrument_entries_defs by simp

lemma distinct_entry_names: "distinct entry_names"
  unfolding entry_names_def instrument_entries_defs list.map fst_conv by code_simp

lemma Dataflow_entry:
  assumes "inj_on xed (set entry_names)" "(n, h) \<in> set (instrument_entries xed)" "INS_Opcode ins = xed n"
  shows "Dataflow xed ins = h ins"
proof -
  have "fst ` set (instrument_entries xed) = set entry_names"
    by (metis list.set_map map_fst_entries)
  with assms(1,2) distinct_entry_names
  have "instrument_functions xed (xed n) = h"
    unfolding instrument_functions_def by (intro table_entry) (simp_all add: map_fst_entries)
  with assms(3) show ?thesis by (simp add: Dataflow_def)
qed

text \<open>The names of the opcodes that the table and \<open>CMOVcc\<close> mention, and a numbering of them
  without collisions.\<close>

definition opcode_names :: "string list" where
  "opcode_names = entry_names @ filter (\<lambda>n. n \<notin> set entry_names) (map fst cmov_checks)"

lemma entry_names_opcodes: "inj_on f (set opcode_names) \<Longrightarrow> inj_on f (set entry_names)"
  by (rule inj_on_subset) (auto simp: opcode_names_def)

definition position :: "string \<Rightarrow> opcode" where
  "position n = of_nat (length (takeWhile (\<lambda>m. m \<noteq> n) opcode_names))"

lemma length_takeWhile_nth: "n \<in> set xs \<Longrightarrow> xs ! length (takeWhile (\<lambda>m. m \<noteq> n) xs) = n"
  by (induction xs) auto

lemma position_inj: "inj_on position (set opcode_names)"
proof (rule inj_onI)
  fix a b
  assume ab: "a \<in> set opcode_names" "b \<in> set opcode_names" "position a = position b"
  have len: "length (takeWhile P opcode_names) < 2 ^ 32" for P
  proof -
    have "length opcode_names \<le> length entry_names + length cmov_checks"
      unfolding opcode_names_def using length_filter_le[of _ "map fst cmov_checks"] by simp
    also have "\<dots> < 2 ^ 32" by (simp add: entry_names_def instrument_entries_defs cmov_checks_def)
    finally show ?thesis using length_takeWhile_le[of P opcode_names] by simp
  qed
  have "length (takeWhile (\<lambda>m. m \<noteq> a) opcode_names) = length (takeWhile (\<lambda>m. m \<noteq> b) opcode_names)"
    using ab(3) len by (simp add: position_def word_unat_eq_iff take_bit_nat_eq_self unsigned_of_nat)
  with ab(1,2) length_takeWhile_nth show "a = b" by metis
qed

section \<open>Operands\<close>

text \<open>The taint of registers, memory and open branches, without the scratch slots.\<close>

definition v_store ::
  "taint_view \<Rightarrow> (REG \<Rightarrow> mark set option) \<times> (ADDRINT \<Rightarrow> mark set option) \<times> (ADDRINT \<Rightarrow> mark set option)" where
  "v_store v = (v_reg v, v_mem v, v_ctl v)"

text \<open>The marks that reading operand \<open>k\<close> gives: those of the register, or those of the bytes
  read and of the registers that address them, or none for an immediate operand.\<close>

definition v_operand :: "pin_regs \<Rightarrow> machine \<Rightarrow> INS \<Rightarrow> nat \<Rightarrow> taint_view \<Rightarrow> mark set" where
  "v_operand P M ins k v =
     (if INS_OperandIsReg ins k then marks_of (v_reg v (INS_OperandReg ins k))
      else if INS_OperandIsMemory ins k then
        v_mem_marks P (memoryread_ea M) (memoryread_size M)
          (INS_OperandMemoryBaseReg ins k) (INS_OperandMemoryIndexReg ins k) v
      else {})"

definition readable :: "INS \<Rightarrow> nat \<Rightarrow> bool" where
  "readable ins k \<longleftrightarrow> INS_OperandIsReg ins k \<or> INS_OperandIsMemory ins k \<and> INS_IsMemoryRead ins"

definition readable_imm :: "INS \<Rightarrow> nat \<Rightarrow> bool" where
  "readable_imm ins k \<longleftrightarrow> readable ins k \<or> \<not> INS_OperandIsMemory ins k \<and> INS_OperandIsImmediate ins k"

definition writable :: "INS \<Rightarrow> nat \<Rightarrow> bool" where
  "writable ins k \<longleftrightarrow> INS_OperandIsReg ins k \<or> INS_OperandIsMemory ins k \<and> INS_IsMemoryWrite ins"

text \<open>Assigning marks to the first operand and to the flags.\<close>

definition v_write_reg :: "REG \<Rightarrow> mark set \<Rightarrow> taint_view \<Rightarrow> taint_view" where
  "v_write_reg r m v = (if r = REG_ESP \<or> r = REG_EBP then v else v_put_regs (r # subregisters r) m v)"

definition v_write_op :: "machine \<Rightarrow> INS \<Rightarrow> mark set \<Rightarrow> taint_view \<Rightarrow> taint_view" where
  "v_write_op M ins m v =
     (if INS_OperandIsReg ins 0 then v_write_reg (INS_OperandReg ins 0) m v
      else v_put_mem {memorywrite_ea M..<memorywrite_ea M + memorywrite_size M} m v)"

definition v_flags :: "mark set \<Rightarrow> taint_view \<Rightarrow> taint_view" where
  "v_flags m v = v_put_regs [REG_EFLAGS] m v"

lemmas operand_defs =
  v_operand_def readable_def readable_imm_def writable_def v_write_op_def v_write_reg_def v_flags_def
  v_store_def

lemma fst_i_call [simp]: "fst (i_call p) = fst p"
  by (cases p rule: i_call.cases) auto

text \<open>Reading and writing commute with filling a slot.\<close>

lemma slot_irrelevant [simp]:
  "v_store (v\<lparr>v_slot := x\<rparr>) = v_store v"
  "v_operand P M ins k (v\<lparr>v_slot := x\<rparr>) = v_operand P M ins k v"
  "ctl_marks (v\<lparr>v_slot := x\<rparr>) = ctl_marks v"
  "v_put_regs rs m (v\<lparr>v_slot := x\<rparr>) = (v_put_regs rs m v)\<lparr>v_slot := x\<rparr>"
  "v_clear_regs rs m (v\<lparr>v_slot := x\<rparr>) = (v_clear_regs rs m v)\<lparr>v_slot := x\<rparr>"
  "v_put_mem A m (v\<lparr>v_slot := x\<rparr>) = (v_put_mem A m v)\<lparr>v_slot := x\<rparr>"
  "v_mem_marks P a n b i (v\<lparr>v_slot := x\<rparr>) = v_mem_marks P a n b i v"
  by (simp_all add: v_store_def v_operand_def v_mem_marks_def ctl_marks_def v_put_regs_def v_clear_regs_def v_put_mem_def
      cong: if_cong)

lemma slot_irrelevant_write [simp]:
  "v_write_reg r m (v\<lparr>v_slot := x\<rparr>) = (v_write_reg r m v)\<lparr>v_slot := x\<rparr>"
  "v_write_op M ins m (v\<lparr>v_slot := x\<rparr>) = (v_write_op M ins m v)\<lparr>v_slot := x\<rparr>"
  "v_flags m (v\<lparr>v_slot := x\<rparr>) = (v_flags m v)\<lparr>v_slot := x\<rparr>"
  by (simp_all add: v_write_reg_def v_write_op_def v_flags_def)

lemma slots_after_write [simp]:
  "v_slot (v_put_regs rs m v) = v_slot v" "v_slot (v_clear_regs rs m v) = v_slot v"
  "v_slot (v_put_mem A m v) = v_slot v" "v_slot (v_write_reg r m v) = v_slot v"
  "v_slot (v_write_op M ins m v) = v_slot v" "v_slot (v_flags m v) = v_slot v"
  by (simp_all add: v_put_regs_def v_clear_regs_def v_put_mem_def v_write_reg_def v_write_op_def v_flags_def)

lemma ctl_after_write [simp]:
  "ctl_marks (v_put_regs rs m v) = ctl_marks v" "ctl_marks (v_clear_regs rs m v) = ctl_marks v"
  "ctl_marks (v_put_mem A m v) = ctl_marks v" "ctl_marks (v_write_reg r m v) = ctl_marks v"
  "ctl_marks (v_write_op M ins m v) = ctl_marks v" "ctl_marks (v_flags m v) = ctl_marks v"
  by (simp_all add: v_put_regs_def v_clear_regs_def v_put_mem_def v_write_reg_def v_write_op_def v_flags_def ctl_marks_def)

section \<open>The effect of a statement\<close>

text \<open>\<open>does P M p f\<close>: the statement \<open>p\<close> inserts unconditional calls only, does not leave the
  handler, and its calls together change the view as \<open>f\<close>.\<close>

definition does :: "pin_regs \<Rightarrow> machine \<Rightarrow> instrumentation \<Rightarrow> (taint_view \<Rightarrow> taint_view) \<Rightarrow> bool" where
  "does P M p f \<longleftrightarrow> (\<exists>cs. p = (map InsertCall cs, Go) \<and> (\<forall>v. fold (v_call P M) cs v = f v))"

definition v_fill :: "slot \<Rightarrow> (taint_view \<Rightarrow> mark set) \<Rightarrow> taint_view \<Rightarrow> taint_view" where
  "v_fill x g v = v\<lparr>v_slot := (v_slot v)(x := g v)\<rparr>"

abbreviation v_args :: "slot list \<Rightarrow> taint_view \<Rightarrow> mark set" where
  "v_args args v \<equiv> \<Union> (v_slot v ` set args) \<union> ctl_marks v"

lemma run_plain: "fold (v_inserted P M) (map InsertCall cs) (fl, v) = (fl, fold (v_call P M) cs v)"
  by (induction cs arbitrary: v) auto

lemma does_run: "does P M p f \<Longrightarrow> v_run P M (fst p) v = f v"
  by (auto simp: does_def v_run_def run_plain)

lemma does_status: "does P M p f \<Longrightarrow> snd p = Go"
  by (auto simp: does_def)

lemma does_single: "does P M (insert_call c) (v_call P M c)"
  unfolding does_def insert_call_def by (intro exI[of _ "[c]"]) simp

lemma does_then: "does P M p f \<Longrightarrow> does P M q g \<Longrightarrow> does P M (i_then p q) (\<lambda>v. g (f v))"
  by (auto simp: does_def) (metis map_append fold_append comp_apply)

lemma does_seq:
  "does P M (i_seq []) (\<lambda>v. v)"
  "does P M p f \<Longrightarrow> does P M (i_seq ps) g \<Longrightarrow> does P M (i_seq (p # ps)) (\<lambda>v. g (f v))"
  using does_then[of P M p f "i_seq ps" g] by (simp_all add: i_seq_def i_skip_def does_def)

lemma does_load_reg: "does P M (load_reg ins r x) (v_fill x (\<lambda>v. marks_of (v_reg v r)))"
  using does_single[of P M "Call_TaintForRegister r x (INS_Opcode ins)"]
  by (simp add: load_reg_def v_load_reg_def[abs_def] v_fill_def[abs_def])

lemma does_load_read:
  "does P M (load_read ins ea b i x) (v_fill x (v_mem_marks P (read_address M ea) (memoryread_size M) b i))"
  using does_single[of P M "Call_TaintForMemory ea b i x (INS_Opcode ins) True"]
  by (simp add: load_read_def v_load_mem_def[abs_def] v_fill_def[abs_def])

lemma does_clear_set: "does P M (clear_set ins x) (v_fill x (\<lambda>v. {}))"
  using does_single[of P M "Call_ClearTaintSet x (INS_Opcode ins)"]
  by (simp add: clear_set_def v_clear_slot_def[abs_def] v_fill_def[abs_def])

lemma does_load_rm: "readable ins k \<Longrightarrow> does P M (load_rm ins k x) (v_fill x (v_operand P M ins k))"
  using does_load_reg[of P M ins "INS_OperandReg ins k" x]
    does_load_read[of P M ins MEMORYREAD_EA "INS_OperandMemoryBaseReg ins k" "INS_OperandMemoryIndexReg ins k" x]
  by (auto simp: readable_def load_rm_def load_op_reg_def load_op_mem_def v_operand_def[abs_def])

lemma does_load_rmi: "readable_imm ins k \<Longrightarrow> does P M (load_rmi ins k x) (v_fill x (v_operand P M ins k))"
proof (cases "readable ins k")
  case True
  moreover have "load_rmi ins k x = load_rm ins k x"
    using True by (auto simp: readable_def load_rmi_def load_rm_def)
  ultimately show ?thesis by (simp add: does_load_rm)
next
  case False
  moreover assume "readable_imm ins k"
  ultimately show ?thesis
    using does_clear_set[of P M ins x] by (auto simp: readable_imm_def readable_def load_rmi_def v_operand_def[abs_def])
qed

lemma does_set_reg:
  "n = length args \<Longrightarrow> does P M (set_reg ins r prof n args) (\<lambda>v. v_write_reg r (v_args args v) v)"
  using does_single[of P M "Call_SetTaintForRegister r (INS_Opcode ins) prof n args"]
  by (simp add: set_reg_def v_SetTaintForRegister_def[abs_def] v_write_reg_def)

lemma does_set_mem:
  "n = length args \<Longrightarrow> does P M (set_mem ins prof n args)
     (\<lambda>v. v_put_mem {memorywrite_ea M..<memorywrite_ea M + memorywrite_size M} (v_args args v) v)"
  using does_single[of P M "Call_SetTaintForMemory (INS_Opcode ins) prof n args"]
  by (simp add: set_mem_def v_SetTaintForMemory_def[abs_def])

lemma does_set_rm:
  "writable ins 0 \<Longrightarrow> n = length args \<Longrightarrow>
     does P M (set_rm ins 0 n args) (\<lambda>v. v_write_op M ins (v_args args v) v)"
  using does_set_reg[of n args P M ins "INS_OperandReg ins 0" True] does_set_mem[of n args P M ins True]
  by (auto simp: writable_def set_rm_def set_op_mem_def v_write_op_def)

lemma does_flags:
  "n = length args \<Longrightarrow> does P M (set_reg ins REG_EFLAGS prof n args) (\<lambda>v. v_flags (v_args args v) v)"
  using does_set_reg[of n args P M ins REG_EFLAGS prof] by (simp add: v_write_reg_def v_flags_def)

lemma does_clear_reg:
  "does P M (clear_reg ins r prof) (\<lambda>v. v_clear_regs (r # subregisters r) (ctl_marks v) v)"
  using does_single[of P M "Call_ClearTaintForRegister r (INS_Opcode ins) prof"]
  by (simp add: clear_reg_def v_ClearTaintForRegister_def[abs_def])

lemmas does_rules =
  does_seq does_flags does_load_reg does_load_read does_clear_set does_load_rm does_load_rmi does_set_rm
  does_set_mem does_clear_reg

section \<open>Handlers\<close>

lemma does_store: "does P M p f \<Longrightarrow> v_store (f v) = w \<Longrightarrow> v_store (v_run P M (fst p) v) = w"
  by (simp add: does_run)

lemma Instrument_ADD_view:
  assumes "readable ins 0" "readable_imm ins 1" "writable ins 0"
    and "m = v_operand P M ins 0 v \<union> v_operand P M ins 1 v \<union> ctl_marks v"
  shows "v_store (v_run P M (fst (Instrument_ADD ins)) v) = v_store (v_flags m (v_write_op M ins m v))"
  unfolding Instrument_ADD_def
  by (rule does_store, (rule does_rules assms(1-3) | (simp add: v_fill_def assms(4); fail))+)

lemma Instrument_ADC_view:
  assumes "readable ins 0" "readable_imm ins 1" "writable ins 0"
    and "m = v_operand P M ins 0 v \<union> v_operand P M ins 1 v \<union> marks_of (v_reg v REG_EFLAGS) \<union> ctl_marks v"
  shows "v_store (v_run P M (fst (Instrument_ADC ins)) v) = v_store (v_flags m (v_write_op M ins m v))"
  unfolding Instrument_ADC_def
  by (rule does_store, (rule does_rules assms(1-3) | (simp add: v_fill_def assms(4) Un_ac; fail))+)

lemma Instrument_CMP_view:
  assumes "readable ins 0" "readable_imm ins 1"
  shows "v_store (v_run P M (fst (Instrument_CMP ins)) v) =
    v_store (v_flags (v_operand P M ins 0 v \<union> v_operand P M ins 1 v \<union> ctl_marks v) v)"
  unfolding Instrument_CMP_def
  by (rule does_store, (rule does_rules assms | (simp add: v_fill_def; fail))+)

lemma does_mov_dest:
  assumes "writable ins 0"
  shows "\<exists>g. does P M (mov_dest ins) g \<and> (\<forall>v. v_store (g v) =
    v_store (v_write_op M ins (v_slot v Src \<union> ctl_marks v \<union>
      (if INS_OperandIsReg ins 0 then {}
       else marks_of (v_reg v (INS_OperandMemoryBaseReg ins 0)) \<union> marks_of (v_reg v (INS_OperandMemoryIndexReg ins 0)))) v))"
proof (cases "INS_OperandIsReg ins 0")
  case True
  then have "mov_dest ins = set_reg ins (INS_OperandReg ins 0) True 1 [Src]" by (simp add: mov_dest_def)
  with does_set_reg[of 1 "[Src]" P M ins "INS_OperandReg ins 0" True] True show ?thesis
    by (auto simp: v_write_op_def)
next
  case False
  with assms have "mov_dest ins = i_seq [i_seq [load_reg ins (INS_OperandMemoryBaseReg ins 0) Base,
      load_reg ins (INS_OperandMemoryIndexReg ins 0) Idx], set_mem ins True 3 [Src, Base, Idx]]"
    by (simp add: writable_def mov_dest_def load_address_regs_def set_op_mem_def)
  moreover have "does P M \<dots> (\<lambda>v. (\<lambda>v. v_put_mem {memorywrite_ea M..<memorywrite_ea M + memorywrite_size M}
      (v_args [Src, Base, Idx] v) v)
      (v_fill Idx (\<lambda>v. marks_of (v_reg v (INS_OperandMemoryIndexReg ins 0)))
        (v_fill Base (\<lambda>v. marks_of (v_reg v (INS_OperandMemoryBaseReg ins 0))) v)))"
    by (intro does_rules) simp
  ultimately show ?thesis using False
    by (intro exI conjI allI, simp) (simp add: v_fill_def v_write_op_def Un_ac)
qed

lemma Instrument_MOV_view:
  assumes "readable_imm ins 1" "writable ins 0"
    and "m = v_operand P M ins 1 v \<union> ctl_marks v \<union>
      (if INS_OperandIsReg ins 0 then {}
       else marks_of (v_reg v (INS_OperandMemoryBaseReg ins 0)) \<union> marks_of (v_reg v (INS_OperandMemoryIndexReg ins 0)))"
  shows "v_store (v_run P M (fst (Instrument_MOV ins)) v) = v_store (v_write_op M ins m v)"
proof -
  from does_mov_dest[OF assms(2)] obtain g where g: "does P M (mov_dest ins) g"
      "\<forall>v. v_store (g v) = v_store (v_write_op M ins (v_slot v Src \<union> ctl_marks v \<union>
      (if INS_OperandIsReg ins 0 then {}
       else marks_of (v_reg v (INS_OperandMemoryBaseReg ins 0)) \<union> marks_of (v_reg v (INS_OperandMemoryIndexReg ins 0)))) v)"
    by blast
  show ?thesis
    unfolding Instrument_MOV_def
    by (rule does_store, (rule does_rules assms(1) g(1) | (simp add: v_fill_def g(2) assms(3); fail))+)
qed

lemma Instrument_PUSH_view:
  assumes "readable_imm ins 0" "INS_IsMemoryWrite ins"
  shows "v_store (v_run P M (fst (Instrument_PUSH ins)) v) =
    v_store (v_put_mem {memorywrite_ea M..<memorywrite_ea M + memorywrite_size M}
      (v_operand P M ins 0 v \<union> ctl_marks v) v)"
proof -
  have "Instrument_PUSH ins = i_seq [load_rmi ins 0 Src, set_mem ins True 1 [Src]]"
    using assms(2) by (simp add: Instrument_PUSH_def set_op_mem_def)
  then show ?thesis
    by (simp only:) (rule does_store, (rule does_rules assms(1) | (simp add: v_fill_def; fail))+)
qed

lemma Instrument_POP_reg_view:
  assumes "INS_IsMemoryRead ins" "INS_OperandIsReg ins 0"
  shows "v_store (v_run P M (fst (Instrument_POP ins)) v) =
    v_store (v_write_reg (INS_OperandReg ins 0)
      (v_mem_marks P (memoryread_ea M) (memoryread_size M) REG_INVALID REG_INVALID v \<union> ctl_marks v) v)"
proof -
  have "Instrument_POP ins = i_seq [load_read ins MEMORYREAD_EA REG_INVALID REG_INVALID Src,
      set_reg ins (INS_OperandReg ins 0) True 1 [Src]]"
    using assms by (simp add: Instrument_POP_def mov_dest_def)
  then show ?thesis
    by (simp only:) (rule does_store, (rule does_rules does_set_reg | (simp add: v_fill_def; fail))+)
qed

lemma Instrument_XOR_same_view:
  assumes "INS_OperandIsReg ins 0" "INS_OperandIsReg ins 1" "INS_OperandReg ins 0 = r" "INS_OperandReg ins 1 = r"
  shows "v_store (v_run P M (fst (Instrument_XOR ins)) v) =
    v_store (v_flags (marks_of (v_reg v r) \<union> ctl_marks v) (v_clear_regs (r # subregisters r) (ctl_marks v) v))"
proof -
  have r: "readable ins 0" "readable_imm ins 1" using assms by (simp_all add: readable_def readable_imm_def)
  have o: "v_operand P M ins 0 w = marks_of (v_reg w r)" "v_operand P M ins 1 w = marks_of (v_reg w r)" for w
    using assms by (simp_all add: v_operand_def)
  have "Instrument_XOR ins = i_seq [load_rm ins 0 Dest, load_rmi ins 1 Src, clear_reg ins r True,
      set_reg ins REG_EFLAGS False 2 [Dest, Src]]"
    using assms by (simp add: Instrument_XOR_def)
  then show ?thesis
    by (simp only:) (rule does_store,
      (rule does_rules r | (simp add: v_fill_def o[unfolded One_nat_def]; fail))+)
qed

lemma Instrument_XCHG_reg_view:
  assumes "INS_OperandIsReg ins 0" "INS_OperandIsReg ins 1" "INS_OperandReg ins 0 = r" "INS_OperandReg ins 1 = q"
  shows "v_store (v_run P M (fst (Instrument_XCHG ins)) v) =
    v_store (v_write_reg q (marks_of (v_reg v r) \<union> ctl_marks v)
      (v_write_reg r (marks_of (v_reg v q) \<union> ctl_marks v) v))"
proof -
  have "Instrument_XCHG ins = i_seq [load_reg ins r Dest, load_reg ins q Src, set_reg ins r True 1 [Src],
      set_reg ins q True 1 [Dest]]"
    using assms by (simp add: Instrument_XCHG_def load_rm_def load_op_reg_def set_rm_def)
  then show ?thesis
    by (simp only:) (rule does_store, (rule does_seq does_load_reg does_set_reg | (simp add: v_fill_def; fail))+)
qed

lemma Instrument_LEA_view:
  "v_store (v_run P M (fst (Instrument_LEA ins)) v) =
    v_store (v_write_reg (INS_OperandReg ins 0)
      (marks_of (v_reg v (INS_OperandMemoryBaseReg ins 1)) \<union> marks_of (v_reg v (INS_OperandMemoryIndexReg ins 1)) \<union>
       ctl_marks v) v)"
  unfolding Instrument_LEA_def
  by (rule does_store, (rule does_seq does_load_reg does_set_reg | (simp add: v_fill_def; fail))+)

text \<open>A conditional move: the condition is evaluated on the flags register.\<close>

lemma Instrument_CMOVcc_view:
  assumes "readable ins 1" "cmov_check xed (INS_Opcode ins) = Some f"
  shows "v_store (v_run P M (fst (Instrument_CMOVcc xed ins)) v) =
    v_store (if f (reg_value M REG_EFLAGS)
      then v_write_reg (INS_OperandReg ins 0) (v_operand P M ins 1 v \<union> ctl_marks v) v else v)"
proof -
  obtain cs where cs: "load_rm ins 1 Src = (map InsertCall cs, Go)"
      "\<forall>v. fold (v_call P M) cs v = v_fill Src (v_operand P M ins 1) v"
    using does_load_rm[OF assms(1), of P M Src] by (auto simp: does_def)
  have "fst (Instrument_CMOVcc xed ins) = map InsertCall cs @ [InsertIfCall (Check_reg f REG_EFLAGS),
      InsertThenCall (Call_SetTaintForRegister (INS_OperandReg ins 0) (INS_Opcode ins) True 1 [Src])]"
    by (simp add: Instrument_CMOVcc_def assms(2) cs(1)[unfolded One_nat_def] i_seq_def i_skip_def)
  then show ?thesis
    by (simp add: v_run_def run_plain cs(2) v_fill_def v_SetTaintForRegister_def v_write_reg_def)
qed

section \<open>Frame\<close>

lemma v_call_frame:
  assumes "call_ok c"
  shows "v_ctl (v_call P M c v) = v_ctl v"
    "a \<notin> {memorywrite_ea M..<memorywrite_ea M + memorywrite_size M} \<Longrightarrow> v_mem (v_call P M c v) a = v_mem v a"
    "r = REG_ESP \<or> r = REG_EBP \<Longrightarrow> v_reg v r = None \<Longrightarrow> v_reg (v_call P M c v) r = None"
proof -
  have sub: "REG_ESP \<notin> set (subregisters x)" "REG_EBP \<notin> set (subregisters x)" for x
    by (cases x; simp)+
  show "v_ctl (v_call P M c v) = v_ctl v" by (cases c) (simp_all add: view_op_defs)
  show "v_mem (v_call P M c v) a = v_mem v a"
    if "a \<notin> {memorywrite_ea M..<memorywrite_ea M + memorywrite_size M}"
    using that by (cases c) (auto simp: view_op_defs)
  show "v_reg (v_call P M c v) r = None" if "r = REG_ESP \<or> r = REG_EBP" "v_reg v r = None"
    using that sub by (cases c) (auto simp: view_op_defs)
qed

lemma v_run_frame:
  assumes "list_all inserted_ok cs"
  shows "v_ctl (v_run P M cs v) = v_ctl v"
    "a \<notin> {memorywrite_ea M..<memorywrite_ea M + memorywrite_size M} \<Longrightarrow> v_mem (v_run P M cs v) a = v_mem v a"
    "r = REG_ESP \<or> r = REG_EBP \<Longrightarrow> v_reg v r = None \<Longrightarrow> v_reg (v_run P M cs v) r = None"
proof -
  let ?A = "{memorywrite_ea M..<memorywrite_ea M + memorywrite_size M}"
  have step: "v_ctl (snd (v_inserted P M i st)) = v_ctl (snd st) \<and>
      (a \<notin> ?A \<longrightarrow> v_mem (snd (v_inserted P M i st)) a = v_mem (snd st) a) \<and>
      (r = REG_ESP \<or> r = REG_EBP \<longrightarrow> v_reg (snd st) r = None \<longrightarrow> v_reg (snd (v_inserted P M i st)) r = None)"
    if "inserted_ok i" for i st
    using that v_call_frame by (cases "(P, M, i, st)" rule: v_inserted.cases) simp_all
  have "list_all inserted_ok cs \<Longrightarrow> v_ctl (snd (fold (v_inserted P M) cs st)) = v_ctl (snd st) \<and>
      (a \<notin> ?A \<longrightarrow> v_mem (snd (fold (v_inserted P M) cs st)) a = v_mem (snd st) a) \<and>
      (r = REG_ESP \<or> r = REG_EBP \<longrightarrow> v_reg (snd st) r = None \<longrightarrow>
        v_reg (snd (fold (v_inserted P M) cs st)) r = None)" for st
    by (induction cs arbitrary: st) (use step in auto)
  from this[OF assms, of "(False, v)"]
  show "v_ctl (v_run P M cs v) = v_ctl v" "a \<notin> ?A \<Longrightarrow> v_mem (v_run P M cs v) a = v_mem v a"
    "r = REG_ESP \<or> r = REG_EBP \<Longrightarrow> v_reg v r = None \<Longrightarrow> v_reg (v_run P M cs v) r = None"
    by (simp_all add: v_run_def)
qed

lemma Dataflow_calls_ok: "list_all inserted_ok (fst (Dataflow xed ins))"
  using Dataflow_disc[of xed ins] by (simp add: disc_def)

section \<open>From views to states\<close>

lemma run_store:
  assumes "state_inv s" "disc {} p" "v_store (v_run P M (fst p) (tview s)) = w"
  shows "\<exists>s'. run_inserted P M (fst p) s = Inr s' \<and> state_inv s' \<and> v_store (tview s') = w"
  using run_inserted_refines[OF assms(1), of "fst p" P M] assms(2,3)
  by (auto simp: disc_def steps_to_def)

section \<open>The conditions of the conditional moves\<close>

lemma find_entry:
  "inj_on f (fst ` set es) \<Longrightarrow> distinct (map fst es) \<Longrightarrow> (n, h) \<in> set es \<Longrightarrow>
     find (\<lambda>(m, h). f m = f n) es = Some (n, h)"
proof (induction es)
  case (Cons e es)
  obtain m g where e: "e = (m, g)" by (cases e)
  show ?case
  proof (cases "m = n")
    case True
    with Cons.prems e have "(n, h) = e" by (auto simp: rev_image_eqI)
    with e show ?thesis by simp
  next
    case False
    with Cons.prems(3) e have n: "(n, h) \<in> set es" by auto
    then have "n \<in> fst ` set (e # es)" "m \<in> fst ` set (e # es)" using e by (auto simp: rev_image_eqI)
    with False Cons.prems(1) have "f m \<noteq> f n" by (meson inj_on_def)
    moreover have "inj_on f (fst ` set es)" "distinct (map fst es)"
      using Cons.prems by (auto intro: inj_on_subset)
    ultimately show ?thesis using Cons.IH n e by simp
  qed
qed simp

lemma cmov_names: "distinct (map fst cmov_checks)" "fst ` set cmov_checks \<subseteq> set opcode_names"
  by (simp add: cmov_checks_def) (auto simp: opcode_names_def)

lemma cmov_dispatch:
  assumes "inj_on xed (set opcode_names)" "(n, f) \<in> set cmov_checks" "INS_Opcode ins = xed n"
  shows "cmov_check xed (INS_Opcode ins) = Some f"
    "(n, Instrument_CMOVcc xed) \<in> set (instrument_entries xed) \<Longrightarrow> Dataflow xed ins = Instrument_CMOVcc xed ins"
proof -
  have "inj_on xed (fst ` set cmov_checks)" using assms(1) cmov_names(2) by (rule inj_on_subset)
  from find_entry[OF this cmov_names(1) assms(2)] assms(3)
  show "cmov_check xed (INS_Opcode ins) = Some f" by (simp add: cmov_check_def)
  show "(n, Instrument_CMOVcc xed) \<in> set (instrument_entries xed) \<Longrightarrow> Dataflow xed ins = Instrument_CMOVcc xed ins"
    using Dataflow_entry[OF entry_names_opcodes[OF assms(1)] _ assms(3)] by blast
qed

lemma mask_test:
  assumes "k < 32"
  shows "(fl AND 2 ^ k) = (0 :: ADDRINT) \<longleftrightarrow> \<not> bit fl k" "0 < k \<Longrightarrow> (fl AND 2 ^ k) \<noteq> (1 :: ADDRINT)"
proof -
  have b: "bit (fl AND 2 ^ k :: ADDRINT) j \<longleftrightarrow> j = k \<and> bit fl k" for j
    using assms by (auto simp: bit_and_iff bit_exp_iff)
  show "(fl AND 2 ^ k) = (0 :: ADDRINT) \<longleftrightarrow> \<not> bit fl k"
    using b by (metis bit_eqI bit_0_eq bot_apply bot_bool_def)
  show "(fl AND 2 ^ k) \<noteq> (1 :: ADDRINT)" if "0 < k"
  proof
    assume "(fl AND 2 ^ k) = (1 :: ADDRINT)"
    then have "bit (fl AND 2 ^ k :: ADDRINT) 0" by simp
    with b[of 0] that show False by simp
  qed
qed

lemmas mask_tests =
  mask_test[of 1, simplified] mask_test[of 2, simplified] mask_test[of 6, simplified]
  mask_test[of 7, simplified] mask_test[of 11, simplified]

lemma cmov_checks_exact:
  "CheckCMOVNZ fl \<longleftrightarrow> \<not> bit fl 6" "CheckCMOVNO fl \<longleftrightarrow> \<not> bit fl 11"
  "CheckCMOVNP fl \<longleftrightarrow> \<not> bit fl 2" "CheckCMOVNS fl \<longleftrightarrow> \<not> bit fl 7"
  by (simp_all add: cmov_defs mask_defs mask_tests)

lemma cmov_checks_dead:
  "\<not> CheckCMOVZ fl" "\<not> CheckCMOVS fl" "\<not> CheckCMOVP fl" "\<not> CheckCMOVO fl" "\<not> CheckCMOVB fl" "\<not> CheckCMOVBE fl"
  by (simp_all add: cmov_defs mask_defs mask_tests)

end
