(* ===== verification/Profiling.thy ===== *)
theory Profiling
  imports Taint_Refine
begin

text \<open>
  What the writers of taint do to the profile of mark operations: the counters
  \<open>profilingMap\<close> and the text \<open>prof_stream\<close> of the operation in progress.
\<close>

definition prof_keep :: "taint_state \<Rightarrow> taint_state \<Rightarrow> bool" where
  "prof_keep s s' \<longleftrightarrow> profilingMap s' = profilingMap s \<and> prof_stream s' = prof_stream s \<and>
     profiling_markop s' = profiling_markop s"

lemma prof_keep_refl [simp]: "prof_keep s s"
  by (simp add: prof_keep_def)

lemma prof_keep_trans: "prof_keep s s1 \<Longrightarrow> prof_keep s1 s2 \<Longrightarrow> prof_keep s s2"
  by (simp add: prof_keep_def)

lemma prof_keep_plog [simp]:
  "prof_keep s (plog on txt s1) \<longleftrightarrow> prof_keep s s1" "prof_keep s (plog_dec on n s1) \<longleftrightarrow> prof_keep s s1"
  "prof_keep (plog on txt s) s1 \<longleftrightarrow> prof_keep s s1"
  "prof_keep s (plog_hex on n s1) \<longleftrightarrow> prof_keep s s1" "prof_keep s (log_opcode on opcode s1) \<longleftrightarrow> prof_keep s s1"
  by (simp_all add: prof_keep_def plog_def plog_dec_def plog_hex_def log_opcode_def)

lemma plog_bits_keep: "plog_bits on pre b s = Inr s' \<Longrightarrow> prof_keep s s'"
  by (auto simp: plog_bits_def rbind_eq_Inr prof_keep_def plog_def split: if_splits)

lemma union_args_keep: "union_args on n args (sep, tmp, s) = Inr (sep', tmp', s') \<Longrightarrow> prof_keep s s'"
  by (induction on n args "(sep, tmp, s)" arbitrary: sep tmp s rule: union_args.induct)
    (auto simp: rbind_eq_Inr dest: plog_bits_keep intro: prof_keep_trans)

lemma union_args_control:
  "union_args on n args (sep, tmp, s) = Inr (sep', tmp', s') \<Longrightarrow> controlTaintMap s' = controlTaintMap s"
  by (induction on n args "(sep, tmp, s)" arbitrary: sep tmp s rule: union_args.induct)
    (auto simp: rbind_eq_Inr plog_bits_def plog_def split: if_splits)

lemma fold_log_register_keep: "fold (log_register P on) rs (sep, s) = (sep', s') \<Longrightarrow> prof_keep s s'"
proof (induction rs arbitrary: sep s)
  case (Cons r rs)
  from Cons.prems have "prof_keep (plog on (sep @ REG_StringShort P r) s) s'"
    by (intro Cons.IH[of "next_sep on sep"]) (simp add: log_register_def)
  then show ?case by (rule prof_keep_trans[rotated]) simp
qed simp

lemma put_register_keep: "put_register b r s = Inr s' \<Longrightarrow> prof_keep s s'"
  by (auto simp: put_register_def rbind_eq_Inr prof_keep_def)

lemma put_registers_keep: "rfold (put_register b) rs s = Inr s' \<Longrightarrow> prof_keep s s'"
  by (induction rs arbitrary: s) (auto simp: rbind_eq_Inr dest: put_register_keep intro: prof_keep_trans)

lemma put_bytes_keep: "rfold (put_byte on b) as (sep, s) = Inr (sep', s') \<Longrightarrow> prof_keep s s'"
proof (induction as arbitrary: sep s)
  case (Cons a as)
  then obtain sep1 s1 where 1: "put_byte on b a (sep, s) = Inr (sep1, s1)"
      "rfold (put_byte on b) as (sep1, s1) = Inr (sep', s')" by (auto simp: rbind_eq_Inr)
  then have "prof_keep s s1"
    by (auto simp: put_byte_def log_address_def rbind_eq_Inr prof_keep_def plog_hex_def plog_def split: if_splits)
  with Cons.IH[OF 1(2)] show ?case by (rule prof_keep_trans[rotated])
qed simp

text \<open>The text that the open branches add to the stream.\<close>

definition ctl_text :: "taint_state \<Rightarrow> string" where
  "ctl_text s = concat (map (\<lambda>(a, b). mark_string (unat (num_marks s)) (marks b)) (controlTaintMap s))"

lemma union_control_stream:
  assumes "rfold (union_control to_profile) es (sep, acc, s) = Inr (sep', acc', s')"
    and "list_all (\<lambda>(a, b). bitset_wf nb b) es"
  shows "profilingMap s' = profilingMap s \<and> profiling_markop s' = profiling_markop s \<and>
    prof_stream s' = prof_stream s @ (if profiling_markop s \<and> to_profile
      then concat (map (\<lambda>(a, b). mark_string (unat nb) (marks b)) es) else [])"
  using assms
proof (induction es arbitrary: sep acc s)
  case (Cons e es)
  obtain a b where e: "e = (a, b)" by (cases e)
  with Cons.prems(2) have b: "bitset_str b = Inr (mark_string (unat nb) (marks b))" by (simp add: bitset_str_ok)
  from Cons.prems(1) e obtain s1 s2 sep2 acc2 where
    1: "plog_bits (profiling_marks s \<and> to_profile) (sep @ ''cf='') b s = Inr s1"
      "pstream_bits (profiling_markop s1 \<and> to_profile) b s1 = Inr s2"
      "rfold (union_control to_profile) es (sep2, acc2, s2) = Inr (sep', acc', s')"
    by (auto simp: union_control_def rbind_eq_Inr)
  have k: "prof_keep s s1" using 1(1) by (rule plog_bits_keep)
  have "profilingMap s2 = profilingMap s \<and> profiling_markop s2 = profiling_markop s \<and>
    prof_stream s2 = prof_stream s @ (if profiling_markop s \<and> to_profile then mark_string (unat nb) (marks b) else [])"
    using 1(2) k by (auto simp: pstream_bits_def b prof_keep_def split: if_splits)
  with Cons.IH[OF 1(3)] Cons.prems(2) e show ?case by simp
qed simp

text \<open>One operation counted under its key, all other counters kept, and the text reset.\<close>

definition counted :: "string \<Rightarrow> taint_state \<Rightarrow> taint_state \<Rightarrow> bool" where
  "counted key s s' \<longleftrightarrow>
     map_find (profilingMap s') = (map_find (profilingMap s))
       (key \<mapsto> (case map_find (profilingMap s) key of Some n \<Rightarrow> n + 1 | None \<Rightarrow> 1)) \<and>
     stdmap_inv (profilingMap s') \<and> prof_stream s' = ''''"

lemma count_markop_counted:
  assumes "stdmap_inv (profilingMap s)"
  shows "counted (prof_stream s @ show_dec (unat opcode)) s (count_markop True opcode s)"
  using assms by (simp add: counted_def count_markop_def Let_def sm.find_put sm.inv_put)

text \<open>An operation that is counted when it is profiled, and leaves the profile alone otherwise.\<close>

definition accounted :: "bool \<Rightarrow> string \<Rightarrow> taint_state \<Rightarrow> taint_state \<Rightarrow> bool" where
  "accounted on key s s' \<longleftrightarrow>
     (if on then counted key s s' else profilingMap s' = profilingMap s \<and> prof_stream s' = prof_stream s)"

lemma accounted_keep: "accounted on key s s1 \<Longrightarrow> prof_keep s1 s2 \<Longrightarrow> accounted on key s s2"
  by (cases on) (simp_all add: accounted_def counted_def prof_keep_def)

lemma prefix_accounted:
  assumes inv: "state_inv s" and args: "union_args o1 n args (sep, tmp, log_opcode o2 opcode s) = Inr (sep2, tmp2, s2)"
    and ctl: "control_taint to_profile sep2 s2 = Inr (c, s3)"
  shows "accounted (profiling_markop s \<and> to_profile) (prof_stream s @ ctl_text s @ show_dec (unat opcode)) s
    (count_markop (profiling_markop s3 \<and> to_profile) opcode s3)"
proof -
  have k: "prof_keep s s2" using union_args_keep[OF args] by (rule prof_keep_trans[rotated]) simp
  have c: "controlTaintMap s2 = controlTaintMap s"
    using union_args_control[OF args] by (simp add: log_opcode_def plog_def plog_dec_def)
  from ctl obtain sep3 where
    "rfold (union_control to_profile) (controlTaintMap s) (sep2, bitset_init (num_marks s2), s2) = Inr (sep3, c, s3)"
    by (auto simp: control_taint_def rbind_eq_Inr c)
  from union_control_stream[OF this control_entries_wf[OF inv]] k
  have s3: "profilingMap s3 = profilingMap s" "profiling_markop s3 = profiling_markop s"
      "prof_stream s3 = prof_stream s @ (if profiling_markop s \<and> to_profile then ctl_text s else [])"
    by (auto simp: prof_keep_def ctl_text_def)
  show ?thesis
    using count_markop_counted[of s3 opcode] state_invD(8)[OF inv] s3
    by (auto simp: accounted_def counted_def) (simp_all add: count_markop_def)
qed

lemma SetTaintForRegister_accounted:
  assumes inv: "state_inv s" and dst: "dst \<noteq> REG_ESP" "dst \<noteq> REG_EBP"
    and run: "SetTaintForRegister P dst opcode to_profile n args s = Inr s'"
  shows "accounted (profiling_markop s \<and> to_profile) (prof_stream s @ ctl_text s @ show_dec (unat opcode)) s s'"
proof -
  let ?o = "profiling_marks s \<and> to_profile"
  from run dst obtain sep2 tmp2 s2 c s3 tmp3 s7 where
    1: "union_args ?o n args (''marks:'', bitset_init (num_marks (log_opcode ?o opcode s)), log_opcode ?o opcode s) =
        Inr (sep2, tmp2, s2)" "control_taint to_profile sep2 s2 = Inr (c, s3)"
    and 2: "let (sep6, s6) = fold (log_register P ?o) (subregisters dst) (''registers:'', plog ?o ''u#'' (plog ?o ''#''
        (count_markop (profiling_markop s3 \<and> to_profile) opcode s3))) in
      rfold (put_register tmp3) (subregisters dst) s6 = Inr s7 \<and>
      put_register tmp3 dst (plog ?o [CHR 0x0A] (plog ?o (sep6 @ REG_StringShort P dst) s7)) = Inr s'"
    by (auto simp: SetTaintForRegister_def Let_def rbind_eq_Inr case_prod_beta)
  obtain sep6 s6 where 3: "fold (log_register P ?o) (subregisters dst) (''registers:'', plog ?o ''u#'' (plog ?o ''#''
        (count_markop (profiling_markop s3 \<and> to_profile) opcode s3))) = (sep6, s6)" by fastforce
  have "prof_keep (count_markop (profiling_markop s3 \<and> to_profile) opcode s3) s6"
    using fold_log_register_keep[OF 3] by (rule prof_keep_trans[rotated]) simp
  moreover have "prof_keep s6 s'"
    using 2 unfolding 3 Let_def by (auto dest!: put_registers_keep put_register_keep intro: prof_keep_trans)
  ultimately show ?thesis using accounted_keep[OF prefix_accounted[OF inv 1]] prof_keep_trans by blast
qed

lemma SetTaintForMemory_accounted:
  assumes inv: "state_inv s" and run: "SetTaintForMemory start sz opcode to_profile n args s = Inr s'"
  shows "accounted (profiling_markop s \<and> to_profile) (prof_stream s @ ctl_text s @ show_dec (unat opcode)) s s'"
proof -
  let ?o = "profiling_marks s \<and> to_profile"
  define s8 where "s8 s3 = (let s4 = count_markop (profiling_markop s3 \<and> to_profile) opcode s3; s5 = plog ?o ''u#'' (plog ?o ''#'' s4);
      a = profiling_marks s5 in plog_hex a sz (plog a ''sizeh:'' (plog_dec a sz (plog a ''sized:''
        (plog_hex a start (plog a ''start:'' s5))))))" for s3
  from run obtain sep2 tmp2 s2 c s3 tmp3 sep9 s9 where
    1: "union_args ?o n args (''marks:'', bitset_init (num_marks s), log_opcode ?o opcode s) = Inr (sep2, tmp2, s2)"
      "control_taint to_profile sep2 s2 = Inr (c, s3)"
    and 2: "rfold (put_byte ?o tmp3) (addr_range start (start + sz)) (''memory:'', s8 s3) = Inr (sep9, s9)"
      "s' = plog ?o [CHR 0x0A] s9"
    by (auto simp: SetTaintForMemory_def Let_def rbind_eq_Inr s8_def)
  have "prof_keep (count_markop (profiling_markop s3 \<and> to_profile) opcode s3) (s8 s3)" by (simp add: s8_def Let_def)
  with put_bytes_keep[OF 2(1)] have "prof_keep (count_markop (profiling_markop s3 \<and> to_profile) opcode s3) s'"
    using 2(2) by (auto intro: prof_keep_trans)
  with prefix_accounted[OF inv 1] show ?thesis by (rule accounted_keep)
qed

text \<open>A register that is read adds its marks to the text, whether the instruction is profiled or not.\<close>

lemma TaintForRegister_stream:
  assumes inv: "state_inv s" and run: "TaintForRegister r x opcode s = Inr s'"
  shows "profilingMap s' = profilingMap s \<and> prof_stream s' = prof_stream s @
    (if profiling_markop s then mark_string (unat (num_marks s)) (reg_marks s r) else [])"
proof -
  obtain b where b: "(case regTaintMap s r of Some b \<Rightarrow> bitset_set_bits (slots s x) b | None \<Rightarrow> bitset_reset (slots s x)) = Inr b"
      "pstream_bits (profiling_markop s) b (set_slot x b s) = Inr s'"
    using run by (auto simp: TaintForRegister_def rbind_eq_Inr)
  have "bitset_wf (num_marks s) b \<and> marks b = reg_marks s r"
  proof (cases "regTaintMap s r")
    case None
    with b(1) bitset_reset_ok[OF state_invD(6)[OF inv]] bitset_init_wf[OF nbits_ok_num_marks[OF inv]] show ?thesis
      by (auto simp: reg_marks_def marks_bitset_init[OF nbits_ok_num_marks[OF inv]])
  next
    case (Some y)
    note wf_mapD[OF state_invD(3)[OF inv] Some]
    with Some b(1) bitset_set_bits_ok[OF state_invD(6)[OF inv] this] show ?thesis by (simp add: reg_marks_def)
  qed
  then show ?thesis using b(2) by (auto simp: pstream_bits_def bitset_str_ok set_slot_def)
qed

end
