(* ===== verification/Trace_Log.thy ===== *)
theory Trace_Log
  imports Instrument_Props
begin

text \<open>
  The log that the analysis routines of \<open>dytan.cpp\<close> write while the flag \<open>tracing\<close> is set (the code
  under the macro \<open>TRACE\<close>).

  The state of the log is its text and the base in which it prints integers: \<open>std::hex\<close> and
  \<open>std::dec\<close> change the base of all later integers. What a routine prints is a function of the
  taint state before and after it, because each prints either before its first or after its last
  change of the registers, bytes and branches it names; the text is produced in the order of the
  code. The lemmas show that the log never makes a routine fail and never changes the taint.
\<close>

record trace_log =
  log_text :: string
  log_base :: nat

definition tlog :: "string \<Rightarrow> trace_log \<Rightarrow> trace_log" where
  "tlog txt l = l\<lparr>log_text := log_text l @ txt\<rparr>"

text \<open>\<open>log << std::hex << a\<close> and \<open>log << i\<close>.\<close>

definition tlog_hex :: "32 word \<Rightarrow> trace_log \<Rightarrow> trace_log" where
  "tlog_hex a l = (tlog (show_hex a) l)\<lparr>log_base := 16\<rparr>"

definition tlog_int :: "32 word \<Rightarrow> trace_log \<Rightarrow> trace_log" where
  "tlog_int i l = tlog (show_int_base (log_base l) i) l"

definition newline :: string where
  "newline = [CHR 0x0A]"

definition tab :: string where
  "tab = [CHR 0x09]"

section \<open>The marks of a set\<close>

definition log_mark :: "bitset \<Rightarrow> nat \<Rightarrow> string \<times> trace_log \<Rightarrow> (string \<times> trace_log) result" where
  "log_mark bs i = (\<lambda>(sep, l).
     rbind (bitset_test_bit bs (of_nat i)) (\<lambda>b.
     Inr (if b then ('', '', tlog_int (of_nat i) (tlog sep l)) else (sep, l))))"

definition log_marks :: "bitset \<Rightarrow> trace_log \<Rightarrow> trace_log result" where
  "log_marks bs l =
     rbind (rfold (log_mark bs) [0..<nat (sint (nbits bs))] ('''', l)) (\<lambda>(sep, l'). Inr l')"

definition log_set :: "string \<Rightarrow> bitset \<Rightarrow> string \<Rightarrow> trace_log \<Rightarrow> trace_log result" where
  "log_set pre bs post l = rbind (log_marks bs (tlog pre l)) (\<lambda>l'. Inr (tlog post l'))"

definition log_range :: "ADDRINT \<Rightarrow> ADDRINT \<Rightarrow> trace_log \<Rightarrow> trace_log" where
  "log_range start sz l = tlog_hex (start + sz - 1) (tlog ''-'' (tlog_hex start l))"

section \<open>What each routine prints\<close>

text \<open>The second argument is the pointer to the string with the disassembly: the code prints the
  pointer, not the string.\<close>

definition Print :: "ADDRINT \<Rightarrow> ADDRINT \<Rightarrow> string \<Rightarrow> trace_log \<Rightarrow> trace_log" where
  "Print address disas routine l =
     tlog (''] '' @ newline) (tlog routine (tlog '' ['' (tlog (''0x'' @ show_hex disas) (tlog '': '' (tlog_hex address l)))))"

definition trace_TaintForRegister :: "pin_regs \<Rightarrow> REG \<Rightarrow> bitset \<Rightarrow> trace_log \<Rightarrow> trace_log result" where
  "trace_TaintForRegister P reg bs l =
     (if REG_valid P reg then log_set (tab @ ''-'' @ REG_StringShort P reg @ ''['') bs ('']'' @ newline) l else Inr l)"

text \<open>The set after the loop over the bytes.\<close>

definition bytes_set :: "slot \<Rightarrow> ADDRINT \<Rightarrow> ADDRINT \<Rightarrow> taint_state \<Rightarrow> bitset result" where
  "bytes_set x start sz s =
     rbind (bitset_reset (slots s x)) (\<lambda>b.
     rbind (rfold (union_byte False x) (addr_range start (start + sz)) ('''', 0, set_slot x b s))
       (\<lambda>(sep, count, s'). Inr (slots s' x)))"

text \<open>The name printed for the index register is that of the base register.\<close>

definition trace_address_reg :: "pin_regs \<Rightarrow> REG \<Rightarrow> REG \<Rightarrow> taint_state \<Rightarrow> trace_log \<Rightarrow> trace_log result" where
  "trace_address_reg P baseReg reg s l =
     (if REG_valid P reg then
        (case regTaintMap s reg of
           None \<Rightarrow> Inr l
         | Some b \<Rightarrow> log_set ('', '' @ REG_StringShort P baseReg @ ''['') b ('']'' @ newline) l)
      else Inr l)"

definition trace_TaintForMemory ::
  "pin_regs \<Rightarrow> ADDRINT \<Rightarrow> ADDRINT \<Rightarrow> REG \<Rightarrow> REG \<Rightarrow> slot \<Rightarrow> taint_state \<Rightarrow> trace_log \<Rightarrow> trace_log result" where
  "trace_TaintForMemory P start sz baseReg indexReg x s l =
     rbind (bytes_set x start sz s) (\<lambda>bs.
     rbind (log_set ''['' bs ('']'' @ newline) (log_range start sz (tlog (tab @ ''-'') l))) (\<lambda>l1.
     rbind (trace_address_reg P baseReg baseReg s l1) (trace_address_reg P baseReg indexReg s)))"

definition trace_control :: "taint_state \<Rightarrow> trace_log \<Rightarrow> trace_log result" where
  "trace_control s l = rbind (control_taint False '''' s) (\<lambda>(controlTaint, s'). log_set '''' controlTaint ('']'' @ newline) l)"

definition trace_SetTaintForRegister ::
  "pin_regs \<Rightarrow> REG \<Rightarrow> taint_state \<Rightarrow> taint_state \<Rightarrow> trace_log \<Rightarrow> trace_log result" where
  "trace_SetTaintForRegister P dst s s' l =
     (if dst = REG_ESP \<or> dst = REG_EBP then Inr l
      else
        (case regTaintMap s' dst of
           None \<Rightarrow> Inl Undefined
         | Some b \<Rightarrow>
             rbind (log_set ('', '' @ REG_StringShort P dst @ ''['') b ''] <- cf['' l) (trace_control s)))"

definition trace_ClearTaintForRegister :: "pin_regs \<Rightarrow> REG \<Rightarrow> taint_state \<Rightarrow> trace_log \<Rightarrow> trace_log result" where
  "trace_ClearTaintForRegister P reg s l = trace_control s (tlog (tab @ REG_StringShort P reg @ ''  <- cf['') l)"

definition trace_SetTaintForMemory ::
  "ADDRINT \<Rightarrow> ADDRINT \<Rightarrow> nat \<Rightarrow> slot list \<Rightarrow> taint_state \<Rightarrow> trace_log \<Rightarrow> trace_log result" where
  "trace_SetTaintForMemory start sz numOfArgs args s l =
     rbind (union_args False numOfArgs args ('''', bitset_init (num_marks s), s)) (\<lambda>(sep, tmp, s1).
     rbind (control_taint False sep s1) (\<lambda>(controlTaint, s2).
     rbind (bitset_union tmp controlTaint) (\<lambda>tmp'.
     rbind (log_set '' <- cf['' tmp' ''] <- cf['' (log_range start sz (tlog tab l))) (trace_control s))))"

definition trace_ClearTaintForMemory :: "ADDRINT \<Rightarrow> ADDRINT \<Rightarrow> taint_state \<Rightarrow> trace_log \<Rightarrow> trace_log result" where
  "trace_ClearTaintForMemory start sz s l = trace_control s (tlog '' <- cf['' (log_range start sz (tlog tab l)))"

text \<open>The open branches, in the order of their addresses.\<close>

definition trace_branches :: "string \<Rightarrow> taint_state \<Rightarrow> trace_log \<Rightarrow> trace_log result" where
  "trace_branches pre s =
     rfold (\<lambda>(a, b) l. log_set '' - ['' b ('']'' @ newline) (tlog_hex a (tlog pre l))) (controlTaintMap s)"

definition flags_empty :: "taint_state \<Rightarrow> bool result" where
  "flags_empty s = (case regTaintMap s REG_EFLAGS of None \<Rightarrow> Inr True | Some fl \<Rightarrow> bitset_is_empty fl)"

definition trace_PushControl :: "ADDRINT \<Rightarrow> taint_state \<Rightarrow> taint_state \<Rightarrow> trace_log \<Rightarrow> trace_log result" where
  "trace_PushControl addr s s' l =
     (let l1 = tlog newline (tlog_hex addr (tlog (tab @ ''push control: '') l)) in
      rbind (flags_empty s) (\<lambda>e. if e then Inr l1 else trace_branches (tab @ tab @ ''-'') s' l1))"

text \<open>The loop of \<open>PopControl\<close>; the first component tells whether it has returned.\<close>

fun trace_pops :: "nat \<Rightarrow> ADDRINT list \<Rightarrow> string \<Rightarrow> taint_state \<Rightarrow> trace_log \<Rightarrow> (bool \<times> trace_log) result" where
  "trace_pops 0 addrs sep s l = Inr (False, l)"
| "trace_pops (Suc n) [] sep s l = Inl Undefined"
| "trace_pops (Suc n) (addr # addrs) sep s l =
     (let l1 = tlog newline (tlog_hex addr (tlog sep l)) in
      case map_find (controlTaintMap s) addr of
        None \<Rightarrow> Inr (True, l1)
      | Some b \<Rightarrow> trace_pops n addrs '', '' (s\<lparr>controlTaintMap := map_erase (controlTaintMap s) addr\<rparr>) l1)"

definition trace_PopControl :: "nat \<Rightarrow> ADDRINT list \<Rightarrow> taint_state \<Rightarrow> taint_state \<Rightarrow> trace_log \<Rightarrow> trace_log result" where
  "trace_PopControl n addrs s s' l =
     rbind (trace_pops n addrs '''' s (tlog (tab @ ''pop control: '') l)) (\<lambda>(returned, l1).
     if returned then Inr l1 else trace_branches (tab @ tab) s' (tlog newline l1))"

section \<open>The routines with their log\<close>

fun trace_call ::
  "pin_regs \<Rightarrow> machine \<Rightarrow> analysis_call \<Rightarrow> taint_state \<Rightarrow> taint_state \<Rightarrow> trace_log \<Rightarrow> trace_log result" where
  "trace_call P M (Call_TaintForRegister reg x opc) s s' l = trace_TaintForRegister P reg (slots s' x) l"
| "trace_call P M (Call_TaintForMemory ea b i x opc prof) s s' l =
     trace_TaintForMemory P (read_address M ea) (memoryread_size M) b i x s l"
| "trace_call P M (Call_ClearTaintSet x opc) s s' l = Inr l"
| "trace_call P M (Call_SetTaintForRegister reg opc prof n args) s s' l = trace_SetTaintForRegister P reg s s' l"
| "trace_call P M (Call_SetTaintForMemory opc prof n args) s s' l =
     trace_SetTaintForMemory (memorywrite_ea M) (memorywrite_size M) n args s l"
| "trace_call P M (Call_ClearTaintForRegister reg opc prof) s s' l = trace_ClearTaintForRegister P reg s l"
| "trace_call P M (Call_ClearTaintForMemory opc prof) s s' l =
     trace_ClearTaintForMemory (memorywrite_ea M) (memorywrite_size M) s l"

text \<open>A routine and, where \<open>tracing\<close> is set, its output.\<close>

definition traced ::
  "bool \<Rightarrow> (taint_state \<Rightarrow> taint_state result) \<Rightarrow> (taint_state \<Rightarrow> taint_state \<Rightarrow> trace_log \<Rightarrow> trace_log result) \<Rightarrow>
     taint_state \<times> trace_log \<Rightarrow> (taint_state \<times> trace_log) result" where
  "traced tracing routine trace = (\<lambda>(s, l).
     rbind (routine s) (\<lambda>s'. rbind (if tracing then trace s s' l else Inr l) (\<lambda>l'. Inr (s', l'))))"

fun traced_inserted ::
  "bool \<Rightarrow> pin_regs \<Rightarrow> machine \<Rightarrow> inserted \<Rightarrow> bool \<times> taint_state \<times> trace_log \<Rightarrow>
     (bool \<times> taint_state \<times> trace_log) result" where
  "traced_inserted tracing P M (InsertCall c) (fl, sl) =
     rbind (traced tracing (exec_call P M c) (trace_call P M c) sl) (\<lambda>sl'. Inr (fl, sl'))"
| "traced_inserted tracing P M (InsertIfCall k) (fl, sl) = Inr (eval_check M k, sl)"
| "traced_inserted tracing P M (InsertThenCall c) (fl, sl) =
     (if fl then rbind (traced tracing (exec_call P M c) (trace_call P M c) sl) (\<lambda>sl'. Inr (fl, sl'))
      else Inr (fl, sl))"

definition traced_run ::
  "bool \<Rightarrow> pin_regs \<Rightarrow> machine \<Rightarrow> inserted list \<Rightarrow> taint_state \<times> trace_log \<Rightarrow> (taint_state \<times> trace_log) result" where
  "traced_run tracing P M cs sl =
     rbind (rfold (traced_inserted tracing P M) cs (False, sl)) (\<lambda>(fl, sl'). Inr sl')"

definition traced_PushControl ::
  "bool \<Rightarrow> ADDRINT \<Rightarrow> taint_state \<times> trace_log \<Rightarrow> (taint_state \<times> trace_log) result" where
  "traced_PushControl tracing addr = traced tracing (PushControl addr) (trace_PushControl addr)"

definition traced_PopControl ::
  "bool \<Rightarrow> nat \<Rightarrow> ADDRINT list \<Rightarrow> taint_state \<times> trace_log \<Rightarrow> (taint_state \<times> trace_log) result" where
  "traced_PopControl tracing n addrs = traced tracing (PopControl n addrs) (trace_PopControl n addrs)"

section \<open>The text of a set\<close>

fun sep_items :: "string \<Rightarrow> nat \<Rightarrow> nat list \<Rightarrow> string" where
  "sep_items sep ib [] = ''''"
| "sep_items sep ib (m # ms) = sep @ show_int_base ib (of_nat m) @ sep_items '', '' ib ms"

definition set_text :: "nat \<Rightarrow> bitset \<Rightarrow> string" where
  "set_text ib bs = sep_items '''' ib (filter (\<lambda>i. i \<in> marks bs) [0..<nat (sint (nbits bs))])"

lemma log_base_tlog [simp]: "log_base (tlog txt l) = log_base l"
  by (simp add: tlog_def)

lemma tlog_tlog: "tlog b (tlog a l) = tlog (a @ b) l"
  by (simp add: tlog_def)

lemma tlog_Nil [simp]: "tlog '''' l = l"
  by (simp add: tlog_def)

lemma log_mark_fold:
  "bitset_wf nb bs \<Longrightarrow> list_all (\<lambda>i. i < unat nb) is \<Longrightarrow>
   \<exists>sep'. rfold (log_mark bs) is (sep, l) = Inr (sep', tlog (sep_items sep (log_base l) (filter (\<lambda>i. i \<in> marks bs) is)) l)"
proof (induction "is" arbitrary: sep l)
  case (Cons i js)
  then have "i < 2 ^ 32" using unsigned_less[of nb, where ?'a = nat] by simp
  then have i: "unat (of_nat i :: 32 word) = i" "(of_nat i :: 32 word) < nb"
    using Cons.prems(2) by (simp_all add: unat_of_nat word_less_nat_alt)
  have t: "bitset_test_bit bs (of_nat i) = Inr (i \<in> marks bs)"
    using bitset_test_bit_ok[OF Cons.prems(1) i(2)] i(1) by simp
  show ?case
  proof (cases "i \<in> marks bs")
    case True
    with Cons.IH[OF Cons.prems(1), of "'', ''" "tlog_int (of_nat i) (tlog sep l)"] Cons.prems(2) t show ?thesis
      by (auto simp: log_mark_def tlog_int_def tlog_tlog)
  next
    case False
    with Cons.IH[OF Cons.prems(1), of sep l] Cons.prems(2) t show ?thesis by (simp add: log_mark_def)
  qed
qed simp


lemma sint_le_unat: "nat (sint (w::32 word)) \<le> unat w"
proof -
  have s: "sint w = signed_take_bit 31 (uint w)" by (subst sint_uint) simp
  have "- (2 ^ 31) \<le> (0::int)" by simp
  then have "- (2 ^ 31) \<le> uint w" by (rule order_trans) (rule unsigned_greater_eq)
  then have "sint w \<le> uint w"
    unfolding s by (simp only: signed_take_bit_int_less_eq_self_iff)
  then have "nat (sint w) \<le> nat (uint w)" by (rule nat_mono)
  also have "nat (uint w) = unat w" by (rule unat_eq_nat_uint[symmetric])
  finally show ?thesis .
qed

lemma log_set_items: "bitset_wf nb bs \<Longrightarrow> log_marks bs l = Inr (tlog (set_text (log_base l) bs) l)"
proof -
  assume wf: "bitset_wf nb bs"
  then have "list_all (\<lambda>i. i < unat nb) [0..<nat (sint (nbits bs))]"
    using sint_le_unat[of nb] by (auto simp: list_all_iff bitset_wf_def)
  from log_mark_fold[OF wf this, of "''''" l] show ?thesis
    by (auto simp: log_marks_def set_text_def)
qed

lemma log_set_text:
  "bitset_wf nb bs \<Longrightarrow> log_set pre bs post l = Inr (tlog (pre @ set_text (log_base l) bs @ post) l)"
  by (simp add: log_set_def log_set_items tlog_tlog)


section \<open>The log changes nothing\<close>

text \<open>Output that does not fail and only appends to the log.\<close>

definition logs :: "trace_log \<Rightarrow> trace_log result \<Rightarrow> bool" where
  "logs l r \<longleftrightarrow> (\<exists>l' txt. r = Inr l' \<and> log_text l' = log_text l @ txt)"

named_theorems logs_intros

lemma logs_refl [logs_intros]: "logs l (Inr l)"
  by (simp add: logs_def)

lemma logs_tlog [logs_intros]: "logs l (Inr l') \<Longrightarrow> logs l (Inr (tlog txt l'))"
  by (auto simp: logs_def tlog_def)

lemma logs_tlog_hex [logs_intros]: "logs l (Inr l') \<Longrightarrow> logs l (Inr (tlog_hex a l'))"
  by (auto simp: logs_def tlog_hex_def tlog_def)

lemma logs_range [logs_intros]: "logs l (Inr l') \<Longrightarrow> logs l (Inr (log_range start sz l'))"
  unfolding log_range_def by (intro logs_tlog_hex logs_tlog)

lemma logs_bind [logs_intros]: "logs l r \<Longrightarrow> (\<And>l'. r = Inr l' \<Longrightarrow> logs l (Inr l') \<Longrightarrow> logs l (f l')) \<Longrightarrow> logs l (rbind r f)"
  by (auto simp: logs_def)

lemma logs_set: "bitset_wf nb bs \<Longrightarrow> logs l (Inr l') \<Longrightarrow> logs l (log_set pre bs post l')"
  by (simp add: log_set_text logs_tlog)

lemma logs_if [logs_intros]: "(c \<Longrightarrow> logs l a) \<Longrightarrow> (\<not> c \<Longrightarrow> logs l b) \<Longrightarrow> logs l (if c then a else b)"
  by simp

lemma Print_logs: "logs l (Inr (Print address disas routine l))"
  unfolding Print_def by (intro logs_intros)

lemma trace_TaintForRegister_logs: "bitset_wf nb bs \<Longrightarrow> logs l (trace_TaintForRegister P reg bs l)"
  unfolding trace_TaintForRegister_def by (intro logs_intros logs_set)

lemma trace_address_reg_logs:
  "state_inv s \<Longrightarrow> logs l (Inr l') \<Longrightarrow> logs l (trace_address_reg P baseReg reg s l')"
  unfolding trace_address_reg_def
  using wf_mapD[OF state_invD(3)] by (auto intro: logs_set split: option.split)

lemma trace_TaintForMemory_logs:
  assumes inv: "state_inv s"
  shows "logs l (trace_TaintForMemory P start sz baseReg indexReg x s l)"
proof -
  obtain b where b: "bitset_reset (slots s x) = Inr b" "slot_upd x {} s (set_slot x b s)"
    using reset_slot_upd[OF inv] by blast
  note inv1 = slot_upd_inv[OF b(2) inv]
  from union_bytes_ok[OF inv1, of False x "addr_range start (start + sz)" "''''" 0]
  obtain sep count s' where s': "rfold (union_byte False x) (addr_range start (start + sz)) ('''', 0, set_slot x b s) =
      Inr (sep, count, s')" "state_inv s'"
    using slot_upd_inv inv1 by blast
  then have bs: "bytes_set x start sz s = Inr (slots s' x)" by (simp add: bytes_set_def b(1))
  show ?thesis
    unfolding trace_TaintForMemory_def bs rbind.simps
    by (intro logs_intros trace_address_reg_logs[OF inv] logs_set[OF state_invD(6)[OF s'(2)]])
qed

lemma trace_control_logs:
  assumes "state_inv s" "logs l (Inr l')"
  shows "logs l (trace_control s l')"
  using control_taint_ok[OF assms(1), of False "''''"] assms(2)
  by (auto simp: trace_control_def intro: logs_set)


lemma SetTaintForRegister_defined:
  "SetTaintForRegister P dst opc prof n args s = Inr s' \<Longrightarrow> \<not> (dst = REG_ESP \<or> dst = REG_EBP) \<Longrightarrow>
   \<exists>b. regTaintMap s' dst = Some b"
  by (auto simp: SetTaintForRegister_def rbind_eq_Inr put_register_def Let_def case_prod_unfold split: if_splits)

lemma trace_SetTaintForRegister_logs:
  assumes "state_inv s" "state_inv s'" "SetTaintForRegister P dst opc prof n args s = Inr s'"
  shows "logs l (trace_SetTaintForRegister P dst s s' l)"
proof (cases "dst = REG_ESP \<or> dst = REG_EBP")
  case False
  then obtain b where b: "regTaintMap s' dst = Some b"
    using SetTaintForRegister_defined[OF assms(3)] by blast
  note wf = wf_mapD[OF state_invD(3)[OF assms(2)] b]
  show ?thesis
    unfolding trace_SetTaintForRegister_def b option.case
    by (intro logs_intros trace_control_logs[OF assms(1)] logs_set[OF wf])
qed (simp add: trace_SetTaintForRegister_def logs_refl)

lemma trace_SetTaintForMemory_logs:
  assumes inv: "state_inv s" and n: "n \<le> length args"
  shows "logs l (trace_SetTaintForMemory start sz n args s l)"
proof -
  obtain sep tmp s1 where 1: "union_args False n args ('''', bitset_init (num_marks s), s) = Inr (sep, tmp, s1)"
      "prof_step s s1" "bitset_wf (num_marks s) tmp"
    using union_args_ok[OF inv n bitset_init_wf[OF nbits_ok_num_marks[OF inv]], of False "''''"] by blast
  note inv1 = prof_step_inv[OF 1(2) inv]
  obtain c s2 where 2: "control_taint False sep s1 = Inr (c, s2)" "bitset_wf (num_marks s) c"
    using control_taint_ok[OF inv1, of False sep] prof_step_fields(11)[OF 1(2)] by auto
  obtain r where r: "bitset_union tmp c = Inr r" "bitset_wf (num_marks s) r"
    using bitset_union_ok[OF 1(3) 2(2)] by blast
  show ?thesis
    unfolding trace_SetTaintForMemory_def 1(1) 2(1) r(1) rbind.simps prod.case
    by (intro logs_intros trace_control_logs[OF inv] logs_set[OF r(2)])
qed

text \<open>The traced routine succeeds where the routine does, with the same taint.\<close>

definition same_taint :: "trace_log \<Rightarrow> taint_state \<Rightarrow> (taint_state \<times> trace_log) result \<Rightarrow> bool" where
  "same_taint l s' r \<longleftrightarrow> (\<exists>l' txt. r = Inr (s', l') \<and> log_text l' = log_text l @ txt)"

lemma traced_same:
  "routine s = Inr s' \<Longrightarrow> logs l (trace s s' l) \<Longrightarrow> same_taint l s' (traced tracing routine trace (s, l))"
  by (auto simp: traced_def logs_def same_taint_def)

lemma trace_call_logs:
  assumes inv: "state_inv s" and ok: "call_ok c" and run: "exec_call P M c s = Inr s'"
  shows "logs l (trace_call P M c s s' l)"
proof -
  have inv': "state_inv s'" using exec_call_refines[OF inv ok, of P M] run by (simp add: steps_to_def)
  show ?thesis
  proof (cases c)
    case (Call_TaintForRegister reg x opc)
    then show ?thesis using trace_TaintForRegister_logs[OF state_invD(6)[OF inv']] by simp
  next
    case (Call_SetTaintForRegister reg opc prof n args)
    with run show ?thesis using trace_SetTaintForRegister_logs[OF inv inv'] by simp
  next
    case (Call_SetTaintForMemory opc prof n args)
    with ok show ?thesis using trace_SetTaintForMemory_logs[OF inv] by simp
  qed (simp_all add: trace_TaintForMemory_logs[OF inv] logs_refl trace_ClearTaintForRegister_def
      trace_ClearTaintForMemory_def trace_control_logs[OF inv] logs_intros)
qed


lemma traced_inserted_step:
  assumes st: "ex_inv c (fl, s)" and ok: "inserted_ok i" and run: "exec_inserted P M i (fl, s) = Inr (fl', s')"
  shows "\<exists>l' txt. traced_inserted tracing P M i (fl, s, l) = Inr (fl', s', l') \<and> log_text l' = log_text l @ txt"
proof -
  have inv: "state_inv s" using st by (simp add: ex_inv_def)
  have call: "\<exists>l' txt. traced tracing (exec_call P M a) (trace_call P M a) (s, l) = Inr (t, l') \<and>
      log_text l' = log_text l @ txt"
    if "call_ok a" "exec_call P M a s = Inr t" for a t
    using traced_same[where trace = "trace_call P M a" and routine = "exec_call P M a", OF that(2) trace_call_logs[OF inv that]]
    by (simp add: same_taint_def)
  show ?thesis
  proof (cases i)
    case (InsertCall a)
    with ok run call[of a s'] show ?thesis by (auto simp: rbind_eq_Inr)
  next
    case (InsertIfCall k)
    with run show ?thesis by simp
  next
    case (InsertThenCall a)
    with ok run call[of a s'] show ?thesis by (cases fl) (auto simp: rbind_eq_Inr)
  qed
qed

lemma traced_fold:
  "ex_inv c (fl, s) \<Longrightarrow> list_all inserted_ok cs \<Longrightarrow> rfold (exec_inserted P M) cs (fl, s) = Inr (fl', s') \<Longrightarrow>
   \<exists>l' txt. rfold (traced_inserted tracing P M) cs (fl, s, l) = Inr (fl', s', l') \<and> log_text l' = log_text l @ txt"
proof (induction cs arbitrary: fl s l)
  case (Cons i cs)
  then obtain fl1 s1 where 1: "exec_inserted P M i (fl, s) = Inr (fl1, s1)"
      "rfold (exec_inserted P M) cs (fl1, s1) = Inr (fl', s')"
    by (auto simp: rbind_eq_Inr)
  from Cons.prems(2) have ok: "inserted_ok i" by simp
  have inv: "ex_inv c (fl1, s1)"
    using exec_inserted_step[OF Cons.prems(1) ok, of P M] 1(1) by auto
  obtain l1 tx where "traced_inserted tracing P M i (fl, s, l) = Inr (fl1, s1, l1)" "log_text l1 = log_text l @ tx"
    using traced_inserted_step[OF Cons.prems(1) ok 1(1)] by blast
  with Cons.IH[OF inv _ 1(2), of l1] Cons.prems(2) show ?case by auto
qed simp

lemma traced_run_same:
  assumes inv: "state_inv s" and ok: "list_all inserted_ok cs" and run: "run_inserted P M cs s = Inr s'"
  shows "\<exists>l' txt. traced_run tracing P M cs (s, l) = Inr (s', l') \<and> log_text l' = log_text l @ txt"
proof -
  from run obtain fl where "rfold (exec_inserted P M) cs (False, s) = Inr (fl, s')"
    by (auto simp: run_inserted_def rbind_eq_Inr)
  moreover have "ex_inv (cfg s) (False, s)" using inv by (simp add: ex_inv_def)
  ultimately show ?thesis
    using traced_fold[OF _ ok, of "cfg s" False s P M fl s' tracing l] by (auto simp: traced_run_def)
qed

section \<open>The log of the open branches\<close>

lemma trace_branches_logs:
  assumes "list_all (\<lambda>(a, b). bitset_wf nb b) (controlTaintMap s)" "logs l (Inr l')"
  shows "logs l (trace_branches pre s l')"
proof -
  have "list_all (\<lambda>(a, b). bitset_wf nb b) es \<Longrightarrow> logs l (Inr k) \<Longrightarrow>
      logs l (rfold (\<lambda>(a, b) l. log_set '' - ['' b ('']'' @ newline) (tlog_hex a (tlog pre l))) es k)" for es k
  proof (induction es arbitrary: k)
    case (Cons e es)
    obtain a b where e: "e = (a, b)" and b: "bitset_wf nb b" using Cons.prems(1) by (cases e) auto
    have "logs l (Inr (tlog tx (tlog_hex a (tlog pre k))))" for tx using Cons.prems(2) by (intro logs_intros)
    with Cons show ?case by (simp add: e log_set_text[OF b])
  qed simp
  with assms show ?thesis by (simp add: trace_branches_def)
qed

lemma PushControl_traced:
  assumes inv: "state_inv s"
  shows "\<exists>s'. PushControl addr s = Inr s' \<and> state_inv s' \<and> same_taint l s' (traced_PushControl tracing addr (s, l))"
proof -
  obtain s' where s': "PushControl addr s = Inr s'" "state_inv s'"
    using PushControl_refines[OF inv] by (auto elim: steps_toE)
  obtain e where e: "flags_empty s = Inr e"
    using bitset_is_empty_ok[OF wf_mapD[OF state_invD(3)[OF inv]]]
    by (cases "regTaintMap s REG_EFLAGS") (auto simp: flags_empty_def)
  have "logs l (trace_PushControl addr s s' l)"
    unfolding trace_PushControl_def Let_def e rbind.simps
    by (intro logs_intros trace_branches_logs[OF control_entries_wf[OF s'(2)]])
  with s' show ?thesis by (auto simp: traced_PushControl_def intro: traced_same)
qed

lemma trace_pops_logs:
  "n \<le> length addrs \<Longrightarrow> logs l (Inr l') \<Longrightarrow>
   \<exists>returned l1. trace_pops n addrs sep s l' = Inr (returned, l1) \<and> logs l (Inr l1)"
proof (induction n addrs sep s l' rule: trace_pops.induct)
  case (3 n addr addrs sep s l')
  have "logs l (Inr (tlog newline (tlog_hex addr (tlog sep l'))))" using "3.prems"(2) by (intro logs_intros)
  with 3 show ?case by (auto simp: Let_def split: option.split)
qed auto

lemma PopControl_traced:
  assumes inv: "state_inv s" and n: "n \<le> length addrs"
  shows "\<exists>s'. PopControl n addrs s = Inr s' \<and> state_inv s' \<and> same_taint l s' (traced_PopControl tracing n addrs (s, l))"
proof -
  obtain s' where s': "PopControl n addrs s = Inr s'" "state_inv s'"
    using PopControl_refines[OF inv n] by (auto elim: steps_toE)
  obtain returned l1 where p: "trace_pops n addrs '''' s (tlog (tab @ ''pop control: '') l) = Inr (returned, l1)"
      "logs l (Inr l1)"
    using trace_pops_logs[OF n logs_tlog[OF logs_refl]] by blast
  have "logs l (trace_PopControl n addrs s s' l)"
    unfolding trace_PopControl_def p(1) rbind.simps prod.case
    by (intro logs_intros trace_branches_logs[OF control_entries_wf[OF s'(2)]] p(2))
  with s' show ?thesis by (auto simp: traced_PopControl_def intro: traced_same)
qed


text \<open>No manipulator resets the base, so every mark printed after the first address is in base 16.\<close>

lemma hex_is_sticky:
  assumes "bitset_wf nb bs"
  shows "log_marks bs (tlog_hex a l) = Inr (tlog (set_text 16 bs) (tlog_hex a l))"
    and "show_int_base 16 10 = ''a''"
proof -
  have "log_base (tlog_hex a l) = 16" by (simp add: tlog_hex_def)
  then show "log_marks bs (tlog_hex a l) = Inr (tlog (set_text 16 bs) (tlog_hex a l))"
    using log_set_items[OF assms, of "tlog_hex a l"] by simp
  show "show_int_base 16 10 = ''a''"
    by (simp add: show_int_base_def show_hex_def show_base.simps) (simp add: digit_char_def)
qed

end
