(* ===== verification/Block_Builder.thy ===== *)
theory Block_Builder
  imports Post_Dominance
begin

text \<open>
  What the second pass over a routine establishes: whatever the instructions are, as long as
  their addresses are distinct and none of them is a flag address, the predecessor edges only
  lead to blocks that start at an instruction, different such blocks have different starting
  addresses, and the return block is nobody's predecessor. This is what the third pass needs.
\<close>

definition flags :: "ADDRINT set" where
  "flags = {0, 1, 2, 4, 5}"

definition placed :: "block \<Rightarrow> ADDRINT set \<Rightarrow> heap \<Rightarrow> block \<Rightarrow> bool" where
  "placed ret D h p \<longleftrightarrow> p < length h \<and> p \<noteq> ret \<and> startingAddress (h ! p) \<in> D"

definition graph_ok :: "block \<Rightarrow> ADDRINT set \<Rightarrow> routine_graph \<Rightarrow> bool" where
  "graph_ok ret D g \<longleftrightarrow> D \<inter> flags = {} \<and> ret < length (blocks g) \<and> startingAddress (blocks g ! ret) = 2 \<and>
     addressMap g 2 = Some ret \<and> (\<forall>a p. addressMap g a = Some p \<longrightarrow> p < length (blocks g) \<and> (p = ret \<longrightarrow> a = 2)) \<and>
     fresh_blocks (blocks g) \<and> (\<forall>b < length (blocks g). startingAddress (blocks g ! b) \<in> flags \<union> D) \<and>
     inj_on (\<lambda>b. startingAddress (blocks g ! b)) {b. placed ret D (blocks g) b} \<and>
     (\<forall>b < length (blocks g). \<forall>p \<in> set (predecessors (blocks g ! b)). placed ret D (blocks g) p)"

lemma graph_okD:
  assumes "graph_ok ret D g"
  shows "D \<inter> flags = {}" "ret < length (blocks g)" "startingAddress (blocks g ! ret) = 2" "addressMap g 2 = Some ret"
    "addressMap g a = Some p \<Longrightarrow> p < length (blocks g)" "addressMap g a = Some ret \<Longrightarrow> a = 2" "fresh_blocks (blocks g)"
    "b < length (blocks g) \<Longrightarrow> startingAddress (blocks g ! b) \<in> flags \<union> D"
    "inj_on (\<lambda>b. startingAddress (blocks g ! b)) {b. placed ret D (blocks g) b}"
    "b < length (blocks g) \<Longrightarrow> p \<in> set (predecessors (blocks g ! b)) \<Longrightarrow> placed ret D (blocks g) p"
  using assms by (auto simp: graph_ok_def)

text \<open>The heap of a graph grows and the blocks keep their starting addresses.\<close>

definition grows :: "routine_graph \<Rightarrow> routine_graph \<Rightarrow> bool" where
  "grows g g' \<longleftrightarrow> length (blocks g) \<le> length (blocks g') \<and>
     (\<forall>b < length (blocks g). startingAddress (blocks g' ! b) = startingAddress (blocks g ! b))"

lemma grows_refl [simp]: "grows g g"
  by (simp add: grows_def)

lemma grows_trans: "grows g g1 \<Longrightarrow> grows g1 g2 \<Longrightarrow> grows g g2"
  by (simp add: grows_def)

lemma placed_grows: "placed ret D (blocks g) p \<Longrightarrow> grows g g' \<Longrightarrow> placed ret D (blocks g') p"
  by (auto simp: placed_def grows_def)

lemma grows_length: "grows g g' \<Longrightarrow> p < length (blocks g) \<Longrightarrow> p < length (blocks g')"
  by (auto simp: grows_def)

section \<open>The steps of the builder\<close>

lemma upd_block_ok:
  assumes g: "graph_ok ret D g"
    and f: "\<And>b. startingAddress (f b) = startingAddress b" "\<And>b. PostDominator (f b) = PostDominator b"
      "\<And>b. isPostDominated (f b) = isPostDominated b" "\<And>b. postDominated (f b) = postDominated b"
      "\<And>b. set (predecessors (f b)) \<subseteq> set (predecessors b) \<union> A" "\<forall>p \<in> A. placed ret D (blocks g) p"
  shows "graph_ok ret D (upd_block q f g)" "grows g (upd_block q f g)"
proof -
  let ?h = "upd q f (blocks g)"
  have s: "startingAddress (?h ! b) = startingAddress (blocks g ! b)" if "b < length (blocks g)" for b
    using that f(1) by (simp add: nth_upd)
  show "grows g (upd_block q f g)" using s by (simp add: grows_def upd_block_def)
  have p: "placed ret D ?h b = placed ret D (blocks g) b" for b using s by (auto simp: placed_def)
  have "placed ret D (blocks g) x" if "b < length (blocks g)" "x \<in> set (predecessors (?h ! b))" for b x
    using that f(5)[of "blocks g ! b"] f(6) graph_okD(10)[OF g that(1), of x] by (auto simp: nth_upd split: if_splits)
  moreover have "inj_on (\<lambda>b. startingAddress (?h ! b)) {b. placed ret D (blocks g) b}"
    using graph_okD(9)[OF g] by (rule inj_on_cong[THEN iffD1, rotated]) (simp add: s placed_def)
  moreover have "fresh_blocks ?h" using graph_okD(7)[OF g] f(2-4) by (simp add: fresh_blocks_def nth_upd)
  ultimately show "graph_ok ret D (upd_block q f g)"
    using g s by (simp add: graph_ok_def upd_block_def p)
qed

lemma set_ptr_insert [simp]: "set (ptr_insert p ps) = insert p (set ps)"
  by (auto simp: ptr_insert_def)

lemma link_ok:
  assumes g: "graph_ok ret D g" and p: "placed ret D (blocks g) p"
  shows "graph_ok ret D (link p q g)" "grows g (link p q g)"
    "graph_ok ret D (link_via p c q g)" "grows g (link_via p c q g)"
proof -
  have 1: "graph_ok ret D (upd_block q (insertPreds p) g)" "grows g (upd_block q (insertPreds p) g)"
    using p by (intro upd_block_ok[OF g, where A = "{p}"]; simp add: insertPreds_def)+
  have 2: "graph_ok ret D (upd_block r (insertSuccs q) (upd_block q (insertPreds p) g))"
      "grows (upd_block q (insertPreds p) g) (upd_block r (insertSuccs q) (upd_block q (insertPreds p) g))" for r
    by (intro upd_block_ok[OF 1(1), where A = "{}"]; simp add: insertSuccs_def)+
  show "graph_ok ret D (link p q g)" "graph_ok ret D (link_via p c q g)" using 2(1) by (simp_all add: link_def link_via_def)
  show "grows g (link p q g)" "grows g (link_via p c q g)"
    using grows_trans[OF 1(2) 2(2)] by (simp_all add: link_def link_via_def)
qed

lemma new_BasicBlock_sel [simp]:
  "startingAddress (new_BasicBlock u) = 0" "predecessors (new_BasicBlock u) = []" "postDominated (new_BasicBlock u) = []"
  "isPostDominated (new_BasicBlock u) = 0" "PostDominator (new_BasicBlock u) = junk_PostDominator u"
  by (simp_all add: new_BasicBlock_def)

lemma new_block_ok:
  assumes g: "graph_ok ret D g" and u: "\<forall>i. junk_PostDominator (u i) = None"
  shows "graph_ok ret D (snd (new_block u g))" "grows g (snd (new_block u g))"
    "fst (new_block u g) < length (blocks (snd (new_block u g)))" "fst (new_block u g) \<noteq> ret"
    "addressMap (snd (new_block u g)) = addressMap g"
proof -
  let ?h = "blocks g @ [new_BasicBlock (u (length (blocks g)))]"
  have n: "?h ! b = blocks g ! b" if "b < length (blocks g)" for b using that by (simp add: nth_append)
  have l: "?h ! length (blocks g) = new_BasicBlock (u (length (blocks g)))" by simp
  show "grows g (snd (new_block u g))" using n by (simp add: grows_def new_block_def)
  show "fst (new_block u g) < length (blocks (snd (new_block u g)))" "fst (new_block u g) \<noteq> ret"
      "addressMap (snd (new_block u g)) = addressMap g"
    using graph_okD(2)[OF g] by (simp_all add: new_block_def)
  have p: "placed ret D ?h b = placed ret D (blocks g) b" for b
    using graph_okD(1)[OF g] by (auto simp: placed_def nth_append flags_def less_Suc_eq)
  have "inj_on (\<lambda>b. startingAddress (?h ! b)) {b. placed ret D (blocks g) b}"
    using graph_okD(9)[OF g] by (rule inj_on_cong[THEN iffD1, rotated]) (simp add: n placed_def)
  moreover have "fresh_blocks ?h"
    using graph_okD(7)[OF g] u by (auto simp: fresh_blocks_def nth_append less_Suc_eq)
  moreover have "startingAddress (?h ! b) \<in> flags \<union> D" "\<forall>p \<in> set (predecessors (?h ! b)). placed ret D (blocks g) p"
    if "b < Suc (length (blocks g))" for b
  proof -
    have "(startingAddress (?h ! b) \<in> flags \<union> D) \<and> (\<forall>p \<in> set (predecessors (?h ! b)). placed ret D (blocks g) p)"
    proof (cases "b < length (blocks g)")
      case True
      then show ?thesis using graph_okD(8,10)[OF g True] unfolding n[OF True] by blast
    next
      case False
      then have "b = length (blocks g)" using that by simp
      then show ?thesis unfolding \<open>b = length (blocks g)\<close> l by (simp add: flags_def)
    qed
    then show "startingAddress (?h ! b) \<in> flags \<union> D" "\<forall>p \<in> set (predecessors (?h ! b)). placed ret D (blocks g) p" by blast+
  qed
  ultimately show "graph_ok ret D (snd (new_block u g))"
    using g n by (auto simp: graph_ok_def new_block_def p less_SucI simp del: nth_append)
qed

lemma map_address_ok:
  assumes "graph_ok ret D g" "p < length (blocks g)" "p \<noteq> ret" "a \<noteq> 2"
  shows "graph_ok ret D (map_address a p g)" "grows g (map_address a p g)" "blocks (map_address a p g) = blocks g"
  using assms by (auto simp: graph_ok_def map_address_def grows_def)

lemma add_block_ok [simp]:
  "graph_ok ret D (add_block p g) = graph_ok ret D g" "grows g' (add_block p g) = grows g' g" "blocks (add_block p g) = blocks g"
  "addressMap (add_block p g) = addressMap g"
  by (simp_all add: graph_ok_def add_block_def grows_def)

lemma Get_BasicBlock_At_ok:
  assumes g: "graph_ok ret D g" and u: "\<forall>i. junk_PostDominator (u i) = None" and get: "Get_BasicBlock_At u a g = (p, g1)"
  shows "graph_ok ret D g1" "grows g g1" "p < length (blocks g1)" "p = ret \<longleftrightarrow> a = 2"
proof -
  have "graph_ok ret D g1 \<and> grows g g1 \<and> p < length (blocks g1) \<and> (p = ret \<longleftrightarrow> a = 2)"
  proof (cases "addressMap g a")
    case None
    then have a: "a \<noteq> 2" using graph_okD(4)[OF g] by auto
    obtain q g0 where n: "new_block u g = (q, g0)" by (cases "new_block u g")
    note b = new_block_ok[OF g u, unfolded n, simplified]
    have "p = q" "g1 = add_block q (map_address a q g0)" using get None n by (auto simp: Get_BasicBlock_At_def)
    with map_address_ok[OF b(1,3,4) a] b grows_trans[OF b(2)] a show ?thesis by simp
  next
    case (Some q)
    then have "p = q" "g1 = g" using get by (auto simp: Get_BasicBlock_At_def)
    moreover have "q < length (blocks g)" "q = ret \<longrightarrow> a = 2" using g Some by (auto simp: graph_ok_def)
    moreover have "a = 2 \<longrightarrow> q = ret" using graph_okD(4)[OF g] Some by auto
    ultimately show ?thesis using g by auto
  qed
  then show "graph_ok ret D g1" "grows g g1" "p < length (blocks g1)" "p = ret \<longleftrightarrow> a = 2" by blast+
qed

lemma setStarting_ok:
  assumes g: "graph_ok ret D g" and p: "p < length (blocks g)" "p \<noteq> ret" and a: "a \<notin> D" "a \<notin> flags"
  shows "graph_ok ret (insert a D) (upd_block p (setStarting a) g)"
    "placed ret (insert a D) (blocks (upd_block p (setStarting a) g)) p"
proof -
  let ?h = "upd p (setStarting a) (blocks g)"
  have s: "startingAddress (?h ! b) = (if b = p then a else startingAddress (blocks g ! b))" "predecessors (?h ! b) = predecessors (blocks g ! b)"
    if "b < length (blocks g)" for b
    using that by (simp_all add: nth_upd setStarting_def)
  show "placed ret (insert a D) (blocks (upd_block p (setStarting a) g)) p" using s p by (simp add: placed_def upd_block_def)
  have pl: "placed ret (insert a D) ?h b \<longleftrightarrow> b = p \<or> placed ret D (blocks g) b" for b
    using p a s graph_okD(8)[OF g, of b] by (auto simp: placed_def)
  have "inj_on (\<lambda>b. startingAddress (?h ! b)) {b. placed ret (insert a D) ?h b}"
  proof (rule inj_onI)
    fix x y assume "x \<in> {b. placed ret (insert a D) ?h b}" "y \<in> {b. placed ret (insert a D) ?h b}"
      and e: "startingAddress (?h ! x) = startingAddress (?h ! y)"
    then have xy: "x = p \<or> placed ret D (blocks g) x" "y = p \<or> placed ret D (blocks g) y" by (simp_all add: pl)
    have ne: "startingAddress (?h ! b) \<noteq> a" "startingAddress (?h ! b) = startingAddress (blocks g ! b)"
      if "placed ret D (blocks g) b" "b \<noteq> p" for b
      using that a s(1)[of b] by (auto simp: placed_def)
    have sp: "startingAddress (?h ! p) = a" using s(1)[OF p(1)] by simp
    show "x = y"
    proof (cases "x = p \<or> y = p")
      case True
      then show ?thesis using xy e ne(1) sp by metis
    next
      case False
      then show ?thesis using xy e ne(2) inj_onD[OF graph_okD(9)[OF g], of x y] by auto
    qed
  qed
  moreover have "fresh_blocks ?h" using graph_okD(7)[OF g] by (simp add: fresh_blocks_def nth_upd setStarting_def)
  moreover have "placed ret (insert a D) ?h x" if "b < length (blocks g)" "x \<in> set (predecessors (?h ! b))" for b x
    using that graph_okD(10)[OF g that(1)] s(2) pl by auto
  ultimately show "graph_ok ret (insert a D) (upd_block p (setStarting a) g)"
    using g s p a by (simp add: graph_ok_def upd_block_def)
qed

lemma setFlag_ok:
  assumes g: "graph_ok ret D g" and p: "p < length (blocks g)" "p \<noteq> ret" "startingAddress (blocks g ! p) \<notin> D" and a: "a \<in> flags"
  shows "graph_ok ret D (upd_block p (setStarting a) g)"
proof -
  let ?h = "upd p (setStarting a) (blocks g)"
  have D: "a \<notin> D" using a graph_okD(1)[OF g] by auto
  have s: "startingAddress (?h ! b) = (if b = p then a else startingAddress (blocks g ! b))" "predecessors (?h ! b) = predecessors (blocks g ! b)"
    if "b < length (blocks g)" for b
    using that by (simp_all add: nth_upd setStarting_def)
  have pl: "placed ret D ?h b \<longleftrightarrow> placed ret D (blocks g) b" for b
    using p D s(1)[of b] by (auto simp: placed_def split: if_splits)
  have "startingAddress (?h ! b) = startingAddress (blocks g ! b)" if "placed ret D (blocks g) b" for b
    using that p(3) s(1)[of b] by (auto simp: placed_def)
  then have "inj_on (\<lambda>b. startingAddress (?h ! b)) {b. placed ret D (blocks g) b}"
    using graph_okD(9)[OF g] by (auto simp: inj_on_def)
  moreover have "fresh_blocks ?h" using graph_okD(7)[OF g] by (simp add: fresh_blocks_def nth_upd setStarting_def)
  ultimately show ?thesis using g s p a by (simp add: graph_ok_def upd_block_def pl)
qed

lemma setEnding_ok:
  assumes "graph_ok ret D g"
  shows "graph_ok ret D (upd_block p (setEnding a) g)" "grows g (upd_block p (setEnding a) g)"
  by (intro upd_block_ok[OF assms, where A = "{}"]; simp add: setEnding_def)+

lemma special_block_ok:
  assumes g: "graph_ok ret D g" and u: "\<forall>i. junk_PostDominator (u i) = None" and a: "a \<in> flags"
    and sp: "special_block u a g = (p, g1)"
  shows "graph_ok ret D g1" "grows g g1" "p < length (blocks g1)"
proof -
  obtain g0 where n: "new_block u g = (p, g0)" and g1: "g1 = upd_block p (setEnding a) (upd_block p (setStarting a) g0)"
    using sp by (auto simp: special_block_def split: prod.splits)
  note b = new_block_ok[OF g u, unfolded n, simplified]
  have p: "p = length (blocks g)" "blocks g0 = blocks g @ [new_BasicBlock (u p)]" using n by (auto simp: new_block_def)
  have "startingAddress (blocks g0 ! p) \<notin> D" using p graph_okD(1)[OF g] by (auto simp: flags_def)
  from setFlag_ok[OF b(1,3,4) this a] have f: "graph_ok ret D (upd_block p (setStarting a) g0)" .
  show "graph_ok ret D g1" unfolding g1 by (rule setEnding_ok(1)[OF f])
  show "p < length (blocks g1)" using b(3) by (simp add: g1 upd_block_def)
  show "grows g g1" using p by (auto simp: grows_def g1 upd_block_def nth_upd setEnding_def nth_append)
qed

lemma flags_mem [simp]: "0 \<in> flags" "1 \<in> flags" "2 \<in> flags" "4 \<in> flags" "5 \<in> flags"
  by (simp_all add: flags_def)

lemma get_link_ok:
  assumes g: "graph_ok ret D g" and u: "\<forall>i. junk_PostDominator (u i) = None" and c: "placed ret D (blocks g) c"
    and get: "Get_BasicBlock_At u a g = (q, g1)"
  shows "graph_ok ret D (link c q g1)" "graph_ok ret D (link_via c x q g1)" "grows g (link c q g1)"
proof -
  note k = Get_BasicBlock_At_ok[OF g u get]
  note l = link_ok[OF k(1) placed_grows[OF c k(2)]]
  show "graph_ok ret D (link c q g1)" "graph_ok ret D (link_via c x q g1)" by (rule l)+
  show "grows g (link c q g1)" using k(2) l(2) by (rule grows_trans)
qed

lemma case_pair_Inr: "(case x of (a, b) \<Rightarrow> Inr (f a b)) = Inr y \<longleftrightarrow> (\<exists>a b. x = (a, b) \<and> y = f a b)"
  by (cases x) auto

lemma BranchIns_ok:
  assumes g: "graph_ok ret D g" and u: "\<forall>i. junk_PostDominator (u i) = None" and c: "placed ret D (blocks g) c"
    and a: "INS_Address ins \<noteq> 2" and run: "BranchIns u nm ins rest c g = Inr g'"
  shows "graph_ok ret D g'"
proof -
  define g1 where "g1 = map_address (INS_Address ins) c (upd_block c (setEnding (INS_Address ins)) g)"
  have e: "graph_ok ret D (upd_block c (setEnding (INS_Address ins)) g)" "grows g (upd_block c (setEnding (INS_Address ins)) g)"
    using setEnding_ok[OF g] by simp_all
  have c0: "placed ret D (blocks (upd_block c (setEnding (INS_Address ins)) g)) c" using placed_grows[OF c e(2)] .
  then have l: "c < length (blocks (upd_block c (setEnding (INS_Address ins)) g))" "c \<noteq> ret" by (simp_all add: placed_def)
  have g1: "graph_ok ret D g1" "placed ret D (blocks g1) c"
    using map_address_ok[OF e(1) l a] c0 by (simp_all add: g1_def)
  obtain target others where br: "branches g1 (INS_Address ins) = target # others"
    using run by (cases "branches g1 (INS_Address ins)") (simp_all add: BranchIns_def Let_def g1_def[symmetric])
  note run' = run[unfolded BranchIns_def Let_def g1_def[symmetric] br list.case]
  consider (call) "target = 1" | (ret) "target = 2" | (icall) "target = 4" | (ibr) "target = 5"
    | (jump) "target \<notin> {1, 2, 4, 5}" by blast
  then show ?thesis
  proof cases
    case call
    obtain x g2 where x: "special_block u 1 g1 = (x, g2)" by (cases "special_block u 1 g1")
    note s = special_block_ok[OF g1(1) u _ x, simplified]
    define g3 where "g3 = (case nm (INS_DirectBranchOrCallTargetAddress ins) of
        Some nm \<Rightarrow> upd_block x (setRoutineCalled nm) g2 | None \<Rightarrow> g2)"
    have "graph_ok ret D g3 \<and> grows g2 g3"
    proof (cases "nm (INS_DirectBranchOrCallTargetAddress ins)")
      case (Some y)
      have "graph_ok ret D (upd_block x (setRoutineCalled y) g2)" "grows g2 (upd_block x (setRoutineCalled y) g2)"
        by (intro upd_block_ok[OF s(1), where A = "{}"]; simp add: setRoutineCalled_def)+
      then show ?thesis by (simp add: g3_def Some)
    qed (simp add: g3_def s(1))
    then have g3: "graph_ok ret D g3" "placed ret D (blocks g3) c"
      using placed_grows[OF placed_grows[OF g1(2) s(2)]] by blast+
    note g4 = link_ok(1,2)[OF g3]
    obtain y where y: "next_address rest = Inr y" "(case Get_BasicBlock_At u y (link c x g3) of (q, g5) \<Rightarrow> Inr (link_via c x q g5)) = (Inr g' :: routine_graph result)"
      using run' call unfolding x by (auto simp: rbind_eq_Inr g3_def[symmetric])
    obtain q g5 where q: "Get_BasicBlock_At u y (link c x g3) = (q, g5)" by (cases "Get_BasicBlock_At u y (link c x g3)")
    show ?thesis using get_link_ok(2)[OF g4(1) u placed_grows[OF g3(2) g4(2)] q] y(2) q by auto
  next
    case ret
    then show ?thesis using run' graph_okD(4)[OF g1(1)] link_ok(1)[OF g1] by auto
  next
    case icall
    obtain x g2 where x: "special_block u 4 g1 = (x, g2)" by (cases "special_block u 4 g1")
    note s = special_block_ok[OF g1(1) u _ x, simplified]
    have g3: "graph_ok ret D (add_block x g2)" "placed ret D (blocks (add_block x g2)) c"
      using s(1) placed_grows[OF g1(2) s(2)] by simp_all
    note g4 = link_ok(1,2)[OF g3]
    obtain y where y: "next_address rest = Inr y" "(case Get_BasicBlock_At u y (link c x (add_block x g2)) of (q, g5) \<Rightarrow> Inr (link_via c x q g5)) = (Inr g' :: routine_graph result)"
      using run' icall x by (auto simp: rbind_eq_Inr)
    obtain q g5 where q: "Get_BasicBlock_At u y (link c x (add_block x g2)) = (q, g5)"
      by (cases "Get_BasicBlock_At u y (link c x (add_block x g2))")
    show ?thesis using get_link_ok(2)[OF g4(1) u placed_grows[OF g3(2) g4(2)] q] y(2) q by auto
  next
    case ibr
    obtain x g2 where x: "special_block u 5 g1 = (x, g2)" by (cases "special_block u 5 g1")
    note s = special_block_ok[OF g1(1) u _ x, simplified]
    have "graph_ok ret D (add_block x g2)" "placed ret D (blocks (add_block x g2)) c"
      using s(1) placed_grows[OF g1(2) s(2)] by simp_all
    from link_ok(1)[OF this] show ?thesis using run' ibr x by auto
  next
    case jump
    obtain t g2 where t: "Get_BasicBlock_At u target g1 = (t, g2)" by (cases "Get_BasicBlock_At u target g1")
    note k = get_link_ok[OF g1(1) u g1(2) t]
    have c3: "placed ret D (blocks (link c t g2)) c" using placed_grows[OF g1(2) k(3)] .
    have "g' = link c t g2 \<or> (\<exists>y q g4. Get_BasicBlock_At u y (link c t g2) = (q, g4) \<and> g' = link c q g4)"
      using run' jump unfolding t by (cases others) (auto simp: rbind_eq_Inr case_pair_Inr split: if_splits)
    then show ?thesis using k(1) get_link_ok(1)[OF k(1) u c3] by auto
  qed
qed


text \<open>Blocks are added and changed, but the branches and targets of the first pass stay, and the
  only failure is the address after the last instruction.\<close>

lemma branches_frame [simp]:
  "branches (upd_block p f g) = branches g" "branches (map_address a p g) = branches g" "branches (add_block p g) = branches g"
  "branches (link p q g) = branches g" "branches (link_via p c q g) = branches g"
  by (simp_all add: upd_block_def map_address_def add_block_def link_def link_via_def)

lemma branches_new [simp]: "Get_BasicBlock_At u a g = (p, g1) \<Longrightarrow> branches g1 = branches g"
  "special_block u a g = (p, g1) \<Longrightarrow> branches g1 = branches g"
  by (auto simp: Get_BasicBlock_At_def special_block_def new_block_def split: option.splits)

lemma BranchIns_branches: "BranchIns u nm ins rest c g = Inr g' \<Longrightarrow> branches g' = branches g"
  unfolding BranchIns_def Let_def
  by (auto simp: rbind_eq_Inr case_pair_Inr dest!: branches_new split: list.splits if_splits prod.splits option.splits)
    (metis branches_frame(4))

lemma case_pair_not_Inl [simp]: "(case x of (a, b) \<Rightarrow> Inr (f a b)) \<noteq> Inl e"
  by (cases x) simp

lemma BranchIns_error:
  assumes run: "BranchIns u nm ins rest c g = Inl e" and g: "graph_ok ret D g" and a: "INS_Address ins \<noteq> 2"
    and c: "placed ret D (blocks g) c" and b: "branches g (INS_Address ins) \<noteq> []" and u: "\<forall>i. junk_PostDominator (u i) = None"
  shows "rest = [] \<and> hd (branches g (INS_Address ins)) \<noteq> 2"
proof -
  define g1 where "g1 = map_address (INS_Address ins) c (upd_block c (setEnding (INS_Address ins)) g)"
  have g1: "addressMap g1 2 = Some ret" "branches g1 = branches g" "length (blocks g1) = length (blocks g)" "graph_ok ret D g1"
    using graph_okD(4)[OF g] a c map_address_ok(1)[OF setEnding_ok(1)[OF g], of c]
    by (simp_all add: g1_def map_address_def upd_block_def placed_def)
  have n: "next_address rest = Inl e \<Longrightarrow> rest = []" by (auto simp: next_address_def split: list.splits)
  obtain target others where br: "branches g (INS_Address ins) = target # others" using b by (cases "branches g (INS_Address ins)") auto
  have d: "deref (blocks (link c t g2)) c \<noteq> Inl e" if "Get_BasicBlock_At u target g1 = (t, g2)" for t g2
    using Get_BasicBlock_At_ok(2)[OF g1(4) u that] c g1(3) by (simp add: deref_def link_def upd_block_def grows_def placed_def)
  show ?thesis
    using run d unfolding BranchIns_def Let_def g1_def[symmetric] g1(1,2) br list.case
    by (auto simp: rbind_eq_Inl dest: n split: if_splits prod.splits list.splits)
qed

section \<open>The loop\<close>

lemma enter_ok:
  assumes g: "graph_ok ret D g" and u: "\<forall>i. junk_PostDominator (u i) = None" and a: "a \<notin> D" "a \<notin> flags"
    and get: "Get_BasicBlock_At u a g = (p, g1)" and c: "\<forall>c. cur = Some c \<longrightarrow> placed ret D (blocks g) c"
    and g2: "g2 = (case cur of None \<Rightarrow> g1 | Some c \<Rightarrow> link c p g1)"
  shows "graph_ok ret (insert a D) (upd_block p (setStarting a) g2)"
    "placed ret (insert a D) (blocks (upd_block p (setStarting a) g2)) p"
proof -
  note k = Get_BasicBlock_At_ok[OF g u get]
  have p: "p \<noteq> ret" using k(4) a(2) by (auto simp: flags_def)
  have "graph_ok ret D g2 \<and> p < length (blocks g2)"
  proof (cases cur)
    case (Some c)
    note l = link_ok(1,2)[OF k(1) placed_grows[OF _ k(2)]]
    show ?thesis using Some c l[of c p] grows_length[OF _ k(3)] by (simp add: g2)
  qed (simp add: g2 k)
  then show "graph_ok ret (insert a D) (upd_block p (setStarting a) g2)"
    "placed ret (insert a D) (blocks (upd_block p (setStarting a) g2)) p"
    using setStarting_ok[OF _ _ p a] by blast+
qed

lemma build_loop_ok:
  assumes "graph_ok ret D g" "\<forall>c. cur = Some c \<longrightarrow> placed ret D (blocks g) c" "\<forall>i. junk_PostDominator (u i) = None"
    "distinct (map INS_Address instrs)" "INS_Address ` set instrs \<inter> (D \<union> flags) = {}" "branches g = B"
  shows "case build_loop u nm pv instrs cur g of
      Inl e \<Rightarrow> instrs \<noteq> [] \<and> B (INS_Address (last instrs)) \<noteq> [] \<and> hd (B (INS_Address (last instrs))) \<noteq> 2
    | Inr (pv', cur', g') \<Rightarrow> \<exists>D'. graph_ok ret D' g'"
  using assms
proof (induction instrs arbitrary: pv cur g D)
  case (Cons ins rest)
  let ?a = "INS_Address ins" and ?post = "\<lambda>is r. case r of
      Inl (e :: error) \<Rightarrow> is \<noteq> [] \<and> B (INS_Address (last is)) \<noteq> [] \<and> hd (B (INS_Address (last is))) \<noteq> 2
    | Inr (pv' :: rtn_ins, cur' :: block option, g') \<Rightarrow> \<exists>D'. graph_ok ret D' g'"
  note g = Cons.prems(1) and u = Cons.prems(3)
  have a: "?a \<notin> D" "?a \<notin> flags" "?a \<noteq> 2" using Cons.prems(5) by (auto simp: flags_def)
  have rest: "distinct (map INS_Address rest)" "INS_Address ` set rest \<inter> (insert ?a D \<union> flags) = {}"
      "INS_Address ` set rest \<inter> (D \<union> flags) = {}"
    using Cons.prems(4,5) by auto
  have longer: "?post (ins # rest) r" if "?post rest r" for r using that by (auto split: sum.splits)
  have go: "?post (ins # rest) (if B ?a \<noteq> [] then rbind (BranchIns u nm ins rest p g2) (build_loop u nm ins rest None)
        else build_loop u nm ins rest (Some p) g2)"
    if ok: "graph_ok ret E g2" "placed ret E (blocks g2) p" and E: "E = insert ?a D \<or> E = D" and B: "branches g2 = B" for p g2 E
  proof (cases "B ?a = []")
    case True
    then show ?thesis using longer[OF Cons.IH[of E g2 "Some p" ins]] ok rest u E B by auto
  next
    case False
    show ?thesis
    proof (cases "BranchIns u nm ins rest p g2")
      case (Inl e)
      then show ?thesis using BranchIns_error[OF Inl ok(1) a(3) ok(2)] B False u by auto
    next
      case (Inr g3)
      show ?thesis
        using longer[OF Cons.IH[OF BranchIns_ok[OF ok(1) u ok(2) a(3) Inr], of None ins]] BranchIns_branches[OF Inr] rest u E B Inr False
        by auto
    qed
  qed
  show ?case
  proof (cases cur)
    case None
    obtain p g1 where p: "Get_BasicBlock_At u ?a g = (p, g1)" by (cases "Get_BasicBlock_At u ?a g")
    note e = enter_ok[OF g u a(1,2) p, of None g1, simplified]
    show ?thesis using go[OF e] None p Cons.prems(6) by (simp add: Let_def)
  next
    case (Some c)
    then have c: "placed ret D (blocks g) c" using Cons.prems(2) by simp
    then have m: "graph_ok ret D (map_address ?a c g)" "placed ret D (blocks (map_address ?a c g)) c"
      using map_address_ok[OF g, of c] a(3) by (auto simp: placed_def)
    let ?g0 = "upd_block c (setEnding (INS_Address pv)) g"
    note s = setEnding_ok[OF g, of c "INS_Address pv"]
    obtain p g1 where p: "Get_BasicBlock_At u ?a ?g0 = (p, g1)" by (cases "Get_BasicBlock_At u ?a ?g0")
    note e = enter_ok[OF s(1) u a(1,2) p, of "Some c" "link c p g1", simplified, OF placed_grows[OF c s(2)]]
    consider "targets g ?a \<noteq> []" | "targets g ?a = []" "B ?a \<noteq> []" | "targets g ?a = []" "B ?a = []" by blast
    then show ?thesis
    proof cases
      case 1
      then show ?thesis using go[OF e] Some p Cons.prems(6) by (simp add: Let_def)
    next
      case 2
      then show ?thesis using go[OF g c] Some Cons.prems(6) by (simp add: Let_def)
    next
      case 3
      then show ?thesis using go[OF m] Some Cons.prems(6) by (simp add: Let_def)
    qed
  qed
qed auto

section \<open>The whole builder\<close>

lemma mapper_frame [simp]: "blocks (mapper i g) = blocks g" "addressMap (mapper i g) = addressMap g"
  by (simp_all add: mapper_def Let_def add_fall_through_def add_branch_def add_target_def)

lemma fold_mapper_frame [simp]: "blocks (fold mapper rtn g) = blocks g" "addressMap (fold mapper rtn g) = addressMap g"
  by (induction rtn arbitrary: g) simp_all

text \<open>The head of the routine is block 0 and the return block is block 1.\<close>

lemma entry_ok:
  assumes g: "blocks g = []" "addressMap g = (\<lambda>a. None)" and u: "\<forall>i. junk_PostDominator (u i) = None" and a: "a \<notin> flags"
    and head: "Get_BasicBlock_At u a g = (p, g1)"
    and ret: "special_block u 2 (map_address a p (upd_block p (setStarting a) (upd_block p setAsEntryNode g1))) = (r, g3)"
  shows "p = 0" "r = 1" "graph_ok 1 {a} (add_block r (add_block p (map_address 2 r g3)))"
    "placed 1 {a} (blocks (add_block r (add_block p (map_address 2 r g3)))) 0"
proof -
  have p: "p = 0" "g1 = add_block 0 (map_address a 0 (g\<lparr>blocks := [new_BasicBlock (u 0)]\<rparr>))"
    using head g by (auto simp: Get_BasicBlock_At_def new_block_def)
  let ?b0 = "setStarting a (setAsEntryNode (new_BasicBlock (u 0)))" and ?b1 = "setEnding 2 (setStarting 2 (new_BasicBlock (u 1)))"
  have r: "r = 1" "blocks g3 = [?b0, ?b1]" "addressMap g3 = [a \<mapsto> 0]"
    using ret g by (auto simp: p special_block_def new_block_def upd_block_def map_address_def add_block_def upd_def)
  show "p = 0" "r = 1" by (fact p r)+
  have b: "blocks (add_block r (add_block p (map_address 2 r g3))) = [?b0, ?b1]"
      "addressMap (add_block r (add_block p (map_address 2 r g3))) = [a \<mapsto> 0, 2 \<mapsto> 1]"
    using r by (simp_all add: map_address_def)
  have s: "startingAddress ?b0 = a" "startingAddress ?b1 = 2" "predecessors ?b0 = []" "predecessors ?b1 = []"
    by (simp_all add: setStarting_def setAsEntryNode_def setEnding_def)
  have f: "fresh_blocks [?b0, ?b1]"
    using u by (auto simp: fresh_blocks_def less_Suc_eq setStarting_def setAsEntryNode_def setEnding_def)
  have pl: "placed 1 {a} [?b0, ?b1] q \<longleftrightarrow> q = 0" for q by (auto simp: placed_def less_Suc_eq s)
  show "placed 1 {a} (blocks (add_block r (add_block p (map_address 2 r g3)))) 0" by (simp only: b pl)
  show "graph_ok 1 {a} (add_block r (add_block p (map_address 2 r g3)))"
    unfolding graph_ok_def b pl using a f s by (auto simp: less_Suc_eq flags_def split: if_splits)
qed

text \<open>What the first pass records of the branches of an instruction does not depend on the others.\<close>

lemma add_other:
  "a \<noteq> addr \<Longrightarrow> branches (add_branch addr t g) a = branches g a" "branches (add_target t addr g) = branches g"
  "a \<noteq> INS_Address i \<Longrightarrow> branches (add_fall_through i g) a = branches g a"
  by (simp_all add: add_fall_through_def add_branch_def add_target_def)

lemma mapper_other: "a \<noteq> INS_Address i \<Longrightarrow> branches (mapper i g) a = branches g a"
  by (simp add: mapper_def Let_def add_other)

lemma fold_mapper_other: "a \<notin> INS_Address ` set rtn \<Longrightarrow> branches (fold mapper rtn g) a = branches g a"
  by (induction rtn arbitrary: g) (simp_all add: mapper_other)

lemma mapper_plain:
  "\<not> INS_IsBranch i \<Longrightarrow> \<not> INS_IsCall i \<Longrightarrow> branches g (INS_Address i) = [] \<Longrightarrow>
   branches (mapper i g) (INS_Address i) = (if INS_IsRet i then [2] else [])"
  by (simp add: mapper_def add_branch_def addr_insert_def)

lemma last_branches:
  assumes "rtn \<noteq> []" "distinct (map INS_Address rtn)" "\<not> INS_IsBranch (last rtn)" "\<not> INS_IsCall (last rtn)"
  shows "branches (fold mapper rtn empty_graph) (INS_Address (last rtn)) = (if INS_IsRet (last rtn) then [2] else [])"
proof -
  obtain xs x where x: "rtn = xs @ [x]" using assms(1) by (cases rtn rule: rev_cases) auto
  then have "branches (fold mapper xs empty_graph) (INS_Address x) = []"
    using assms(2) by (subst fold_mapper_other) (auto simp: empty_graph_def)
  with x assms(3,4) show ?thesis by (simp add: mapper_plain)
qed

text \<open>The second pass succeeds on a routine whose last instruction is neither a call nor a branch.\<close>

lemma BlockBuilder_ok:
  assumes u: "\<forall>i. junk_PostDominator (u i) = None" and rtn: "rtn \<noteq> []"
    and d: "distinct (map INS_Address rtn)" "INS_Address ` set rtn \<inter> flags = {}"
    and fin: "\<not> INS_IsBranch (last rtn)" "\<not> INS_IsCall (last rtn)"
  obtains g D where "BlockBuilder u nm rtn (fold mapper rtn empty_graph) = Inr g"
    "EntranceNode g = Some 0" "ReturnNode g = Some 1" "graph_ok 1 D g"
proof -
  obtain i rest where rtn: "rtn = i # rest" using rtn by (cases rtn) auto
  let ?a = "INS_Address i" and ?g = "fold mapper rtn empty_graph"
  have e: "blocks ?g = []" "addressMap ?g = (\<lambda>a. None)" by (simp_all add: empty_graph_def)
  have a: "?a \<notin> flags" using d rtn by auto
  obtain p g1 where p: "Get_BasicBlock_At u ?a ?g = (p, g1)" by (cases "Get_BasicBlock_At u ?a ?g")
  let ?g2 = "map_address ?a p (upd_block p (setStarting ?a) (upd_block p setAsEntryNode g1))"
  obtain r g3 where r: "special_block u 2 ?g2 = (r, g3)" by (cases "special_block u 2 ?g2")
  note k = entry_ok[OF e u a p r]
  let ?g4 = "add_block r (add_block p (map_address 2 r g3))"
  have br: "branches ?g4 = branches ?g" using branches_new(1)[OF p] branches_new(2)[OF r] by simp
  have "rest \<noteq> [] \<Longrightarrow> last rtn = last rest" by (simp add: rtn)
  moreover have "branches ?g (INS_Address (last rtn)) = [] \<or> branches ?g (INS_Address (last rtn)) = [2]"
    using last_branches[OF _ d(1) fin] rtn by (metis list.distinct(1))
  ultimately have end_ok: "rest = [] \<or> branches ?g (INS_Address (last rest)) = [] \<or> hd (branches ?g (INS_Address (last rest))) = 2"
    by (metis list.sel(1))
  have "case build_loop u nm i rest (Some p) ?g4 of
      Inl e \<Rightarrow> rest \<noteq> [] \<and> branches ?g (INS_Address (last rest)) \<noteq> [] \<and> hd (branches ?g (INS_Address (last rest))) \<noteq> 2
    | Inr (pv', cur', g') \<Rightarrow> \<exists>D'. graph_ok 1 D' g'"
    using d k(4) by (intro build_loop_ok[OF k(3) _ u _ _ br]) (auto simp: rtn k(1))
  then obtain pv cur g5 D where l: "build_loop u nm i rest (Some p) ?g4 = Inr (pv, cur, g5)" and g5: "graph_ok 1 D g5"
    using end_ok by (auto split: sum.splits)
  let ?g6 = "case cur of Some c \<Rightarrow> upd_block c (setEnding (INS_Address pv)) g5 | None \<Rightarrow> g5"
  have "graph_ok 1 D ?g6" using setEnding_ok(1)[OF g5] g5 by (auto split: option.split)
  then have "graph_ok 1 D (?g6\<lparr>EntranceNode := Some p, ReturnNode := Some r\<rparr>)" by (auto simp: graph_ok_def)
  moreover have "BlockBuilder u nm rtn ?g = Inr (?g6\<lparr>EntranceNode := Some p, ReturnNode := Some r\<rparr>)"
    using p r l by (simp add: BlockBuilder_def Let_def rtn)
  ultimately show thesis using k(1,2) by (intro that) simp_all
qed

text \<open>Every instruction is mapped to a block.\<close>

definition mapped :: "routine_graph \<Rightarrow> ADDRINT set" where
  "mapped g = dom (addressMap g)"

lemma mapped_frame [simp]:
  "mapped (upd_block p f g) = mapped g" "mapped (link p q g) = mapped g" "mapped (link_via p c q g) = mapped g"
  "mapped (map_address a p g) = insert a (mapped g)" "mapped (add_block p g) = mapped g"
  "mapped (g\<lparr>EntranceNode := x\<rparr>) = mapped g" "mapped (g\<lparr>ReturnNode := x\<rparr>) = mapped g"
  by (simp_all add: mapped_def upd_block_def map_address_def add_block_def link_def link_via_def)

lemma mapped_new: "Get_BasicBlock_At u a g = (p, g1) \<Longrightarrow> mapped g1 = insert a (mapped g)"
  "special_block u a g = (p, g1) \<Longrightarrow> mapped g1 = mapped g"
  by (auto simp: Get_BasicBlock_At_def special_block_def new_block_def mapped_def map_address_def add_block_def upd_block_def
      split: option.splits)

lemma BranchIns_mapped: "BranchIns u nm ins rest c g = Inr g' \<Longrightarrow> insert (INS_Address ins) (mapped g) \<subseteq> mapped g'"
  unfolding BranchIns_def Let_def
  by (auto simp: rbind_eq_Inr case_pair_Inr dest!: mapped_new split: list.splits if_splits prod.splits option.splits)
    (metis mapped_frame(2) insert_iff)+

lemma build_loop_mapped:
  "build_loop u nm pv instrs cur g = Inr (pv', cur', g') \<Longrightarrow> INS_Address ` set instrs \<union> mapped g \<subseteq> mapped g'"
proof (induction instrs arbitrary: pv cur g)
  case (Cons ins rest)
  let ?a = "INS_Address ins"
  have step: ?case if "insert ?a (mapped g) \<subseteq> mapped g2" "build_loop u nm ins rest cur2 g2 = Inr (pv', cur', g')" for g2 cur2
    using Cons.IH[OF that(2)] that(1) by auto
  have go: ?case if m: "mapped g \<subseteq> mapped g2" "branches g ?a = [] \<Longrightarrow> ?a \<in> mapped g2"
      and run: "(if branches g ?a \<noteq> [] then rbind (BranchIns u nm ins rest p g2) (build_loop u nm ins rest None)
        else build_loop u nm ins rest (Some p) g2) = Inr (pv', cur', g')" for p g2
  proof (cases "branches g ?a = []")
    case True
    show ?thesis by (rule step[of g2 "Some p"]) (use m True run in auto)
  next
    case False
    then obtain g3 where g3: "BranchIns u nm ins rest p g2 = Inr g3" "build_loop u nm ins rest None g3 = Inr (pv', cur', g')"
      using run by (auto simp: rbind_eq_Inr)
    show ?thesis by (rule step[OF _ g3(2)]) (use m BranchIns_mapped[OF g3(1)] in auto)
  qed
  show ?case
  proof (cases cur)
    case None
    obtain p g1 where p: "Get_BasicBlock_At u ?a g = (p, g1)" by (cases "Get_BasicBlock_At u ?a g")
    show ?thesis
      by (rule go[of "upd_block p (setStarting ?a) g1" p]) (use mapped_new(1)[OF p] Cons.prems None p in \<open>auto simp: Let_def\<close>)
  next
    case (Some c)
    let ?g0 = "upd_block c (setEnding (INS_Address pv)) g"
    obtain p g1 where p: "Get_BasicBlock_At u ?a ?g0 = (p, g1)" by (cases "Get_BasicBlock_At u ?a ?g0")
    show ?thesis
    proof (cases "targets g ?a = []")
      case True
      show ?thesis
        by (rule go[of "if branches g ?a = [] then map_address ?a c g else g" c])
          (use Cons.prems Some True in \<open>auto simp: Let_def\<close>)
    next
      case False
      show ?thesis
        by (rule go[of "upd_block p (setStarting ?a) (link c p g1)" p])
          (use mapped_new(1)[OF p] Cons.prems Some False p in \<open>auto simp: Let_def\<close>)
    qed
  qed
qed simp

lemma BlockBuilder_mapped:
  assumes "BlockBuilder u nm rtn g = Inr g'"
  shows "INS_Address ` set rtn \<subseteq> mapped g'"
proof -
  obtain i rest pv cur g4 g5 p where rtn: "rtn = i # rest" "build_loop u nm i rest (Some p) g4 = Inr (pv, cur, g5)"
      and d: "INS_Address i \<in> mapped g4" "mapped g' = mapped g5"
    using assms
    by (auto simp: BlockBuilder_def Let_def rbind_eq_Inr dest!: mapped_new split: list.splits prod.splits option.splits)
  from build_loop_mapped[OF rtn(2)] d show ?thesis by (auto simp: rtn(1))
qed

lemma graph_ok_preds:
  assumes g: "graph_ok ret D g"
  shows "preds_ok ret (insert ret {b. placed ret D (blocks g) b}) (blocks g)"
proof -
  have r: "startingAddress (blocks g ! ret) \<notin> D" using graph_okD(1,3)[OF g] by (auto simp: flags_def)
  have "inj_on (\<lambda>b. startingAddress (blocks g ! b)) (insert ret {b. placed ret D (blocks g) b})"
    unfolding inj_on_insert using graph_okD(9)[OF g] r by (intro conjI, simp) (auto simp: placed_def)
  moreover have "placed ret D (blocks g) p" if "b < length (blocks g)" "p \<in> set (predecessors (blocks g ! b))" for b p
    using graph_okD(10)[OF g that] .
  moreover have "p < length (blocks g)" "p \<noteq> ret" if "placed ret D (blocks g) p" for p using that by (auto simp: placed_def)
  ultimately show ?thesis
    using graph_okD(2,3)[OF g] unfolding preds_ok_def by (intro conjI) (blast | fastforce)+
qed

text \<open>The third pass ends, never follows a null pointer, and leaves a tree of post-dominators over all
  blocks that can reach the return block.\<close>

lemma flow_edges_same: "same_shape h h' \<Longrightarrow> flow_edges h' = flow_edges h"
  by (auto simp: flow_edges_def same_shape_def)

lemma initializeRoutineInfo_ok:
  assumes "\<forall>i. junk_PostDominator (u i) = None" "rtn \<noteq> []"
    "distinct (map INS_Address rtn)" "INS_Address ` set rtn \<inter> flags = {}" "\<not> INS_IsBranch (last rtn)" "\<not> INS_IsCall (last rtn)"
  obtains g where "initializeRoutineInfo ptr u nm rtn = Inr g" "EntranceNode g = Some 0" "ReturnNode g = Some 1"
    "INS_Address ` set rtn \<subseteq> dom (addressMap g)" "\<forall>a p. addressMap g a = Some p \<longrightarrow> p < length (blocks g) \<and> (p = 1 \<longrightarrow> a = 2)"
    "acyclic (post_dominator_edges (blocks g))" "post_dominator_edges (blocks g) \<subseteq> (flow_edges (blocks g))\<^sup>+"
    "\<forall>b. (b, 1) \<in> (flow_edges (blocks g))\<^sup>* \<longleftrightarrow> (b, 1) \<in> (post_dominator_edges (blocks g))\<^sup>*"
    "\<forall>b < length (blocks g). PostDominator (blocks g ! b) \<noteq> None \<longleftrightarrow> b \<noteq> 1 \<and> (b, 1) \<in> (flow_edges (blocks g))\<^sup>*"
proof -
  obtain g D where g: "BlockBuilder u nm rtn (fold mapper rtn empty_graph) = Inr g"
      "EntranceNode g = Some 0" "ReturnNode g = Some 1" "graph_ok 1 D g"
    using BlockBuilder_ok[OF assms] .
  obtain h' where h': "buildPostDominanceTree ptr (length (blocks g)) (length (blocks g)) 1 [] (blocks g) = Inr h'"
      and rest: "same_shape (blocks g) h'" "acyclic (post_dominator_edges h')" "post_dominator_edges h' \<subseteq> (flow_edges (blocks g))\<^sup>+"
      "\<forall>b. (b, 1) \<in> (flow_edges (blocks g))\<^sup>* \<longleftrightarrow> (b, 1) \<in> (post_dominator_edges h')\<^sup>*"
      "\<forall>b < length (blocks g). PostDominator (h' ! b) \<noteq> None \<longleftrightarrow> b \<noteq> 1 \<and> (b, 1) \<in> (flow_edges (blocks g))\<^sup>*"
    using post_dominance_tree[OF graph_ok_preds[OF g(4)] graph_okD(7)[OF g(4)], of ptr] by blast
  have "initializeRoutineInfo ptr u nm rtn = Inr (g\<lparr>blocks := h'\<rparr>)"
    using g h' by (simp add: initializeRoutineInfo_def)
  moreover have "length h' = length (blocks g)" using rest(1) by (simp add: same_shape_def)
  moreover have "p < length (blocks g) \<and> (p = 1 \<longrightarrow> a = 2)" if "addressMap g a = Some p" for a p
    using g(4) that by (auto simp: graph_ok_def)
  moreover have "INS_Address ` set rtn \<subseteq> dom (addressMap g)" using BlockBuilder_mapped[OF g(1)] by (simp add: mapped_def)
  ultimately show thesis using rest g(2,3) flow_edges_same[OF rest(1)] by (intro that[of "g\<lparr>blocks := h'\<rparr>"]) simp_all
qed

end
