(* ===== verification/Control_Flow.thy ===== *)
theory Control_Flow
  imports Block_Builder
begin

text \<open>
  What \<open>Controlflow\<close> of \<open>dytan.cpp\<close> inserts: the reference placement of the calls that open and
  close branches, given the address of the post-dominator of every conditional branch, and the
  proof that \<open>Controlflow\<close> computes it from the graph of the routine.
\<close>

definition cond_branches :: "rtn_ins list \<Rightarrow> ADDRINT list" where
  "cond_branches rtn = map INS_Address (filter INS_IsCondBr rtn)"

definition joined_at :: "(ADDRINT \<Rightarrow> ADDRINT) \<Rightarrow> rtn_ins list \<Rightarrow> ADDRINT \<Rightarrow> ADDRINT list" where
  "joined_at d rtn a = sort (remdups (filter (\<lambda>b. d b = a) (cond_branches rtn)))"

definition place_pop :: "(ADDRINT \<Rightarrow> ADDRINT) \<Rightarrow> rtn_ins list \<Rightarrow> ADDRINT \<Rightarrow> control_call list" where
  "place_pop d rtn a =
     (if joined_at d rtn a = [] then [] else [Pop_at a (length (joined_at d rtn a)) (joined_at d rtn a)])"

definition place_branches :: "(ADDRINT \<Rightarrow> ADDRINT) \<Rightarrow> rtn_ins list \<Rightarrow> control_call list" where
  "place_branches d rtn = map Push_at (cond_branches rtn) @ concat (map (place_pop d rtn) (map INS_Address rtn))"

text \<open>The post-dominator of a branch, and whether the return block can be reached from it.\<close>

definition post_dominator_of :: "routine_graph \<Rightarrow> ADDRINT \<Rightarrow> ADDRINT" where
  "post_dominator_of g a = startingAddress (blocks g ! the (PostDominator (blocks g ! the (addressMap g a))))"

definition can_return :: "routine_graph \<Rightarrow> ADDRINT \<Rightarrow> bool" where
  "can_return g a \<longleftrightarrow> (the (addressMap g a), the (ReturnNode g)) \<in> (flow_edges (blocks g))\<^sup>*"

section \<open>The loop over the branches\<close>

lemma addr_insert_sorted: "sorted s \<Longrightarrow> distinct s \<Longrightarrow> sorted (addr_insert a s) \<and> distinct (addr_insert a s)"
  by (simp add: addr_insert_def sorted_insort distinct_insort)

lemma set_addr_insert [simp]: "set (addr_insert a s) = insert a (set s)"
  by (auto simp: addr_insert_def set_insort_key)

lemma addr_insert_nonempty [simp]: "addr_insert a s \<noteq> []"
  by (auto simp: addr_insert_def insort_not_Nil)

text \<open>The table of joins after the instructions \<open>seen\<close>.\<close>

definition joins :: "(ADDRINT \<Rightarrow> ADDRINT) \<Rightarrow> rtn_ins list \<Rightarrow> controls \<Rightarrow> bool" where
  "joins d seen m \<longleftrightarrow> stdmap_inv m \<and>
     (\<forall>a. map_find m a = (if joined_at d seen a = [] then None else Some (joined_at d seen a)))"

lemma sorted_same_set: "sorted xs \<Longrightarrow> distinct xs \<Longrightarrow> set xs = set ys \<Longrightarrow> sort (remdups ys) = xs"
  by (metis sorted_distinct_set_unique sorted_sort distinct_sort distinct_remdups set_sort set_remdups)

lemma joined_at_snoc:
  "joined_at d (seen @ [i]) a =
     (if INS_IsCondBr i \<and> d (INS_Address i) = a then addr_insert (INS_Address i) (joined_at d seen a) else joined_at d seen a)"
proof -
  have s: "sorted (joined_at d seen a)" "distinct (joined_at d seen a)" by (simp_all add: joined_at_def)
  show ?thesis
  proof (cases "INS_IsCondBr i \<and> d (INS_Address i) = a")
    case True
    have "joined_at d (seen @ [i]) a = addr_insert (INS_Address i) (joined_at d seen a)"
      unfolding joined_at_def[of d "seen @ [i]"] using addr_insert_sorted[OF s] True
      by (intro sorted_same_set) (auto simp: joined_at_def cond_branches_def)
    with True show ?thesis by simp
  next
    case False
    then show ?thesis by (auto simp: joined_at_def cond_branches_def)
  qed
qed

lemma push_branch_ok:
  assumes "joins d seen m" "INS_IsCondBr i \<Longrightarrow> branch_block g (INS_Address i) = Inr (d (INS_Address i))"
  shows "\<exists>m'. push_branch g i (m, calls) = Inr (m', calls @ (if INS_IsCondBr i then [Push_at (INS_Address i)] else [])) \<and>
    joins d (seen @ [i]) m'"
proof (cases "INS_IsCondBr i")
  case True
  let ?a = "d (INS_Address i)"
  let ?m = "map_put m ?a (addr_insert (INS_Address i) (joined_at d seen ?a))"
  have "push_branch g i (m, calls) = Inr (?m, calls @ [Push_at (INS_Address i)])"
    using assms True by (simp add: push_branch_def Let_def joins_def)
  moreover have "joins d (seen @ [i]) ?m"
    using assms(1) True by (simp add: joins_def joined_at_snoc sm.find_put sm.inv_put addr_insert_nonempty)
  ultimately show ?thesis using True by auto
next
  case False
  then show ?thesis using assms(1) by (simp add: push_branch_def joins_def joined_at_snoc)
qed

lemma push_branches_ok:
  assumes "joins d seen m" "\<forall>i \<in> set rtn. INS_IsCondBr i \<longrightarrow> branch_block g (INS_Address i) = Inr (d (INS_Address i))"
  shows "\<exists>m'. rfold (push_branch g) rtn (m, calls) = Inr (m', calls @ map Push_at (cond_branches rtn)) \<and> joins d (seen @ rtn) m'"
  using assms
proof (induction rtn arbitrary: m calls seen)
  case (Cons i rtn)
  obtain m1 where m1: "push_branch g i (m, calls) = Inr (m1, calls @ (if INS_IsCondBr i then [Push_at (INS_Address i)] else []))"
      "joins d (seen @ [i]) m1"
    using push_branch_ok[OF Cons.prems(1), of i g calls] Cons.prems(2) by auto
  then show ?case
    using Cons.IH[OF m1(2), of "calls @ (if INS_IsCondBr i then [Push_at (INS_Address i)] else [])"] Cons.prems(2)
    by (auto simp: cond_branches_def)
qed (simp add: cond_branches_def)

lemma push_branch_error: "INS_IsCondBr i \<Longrightarrow> branch_block g (INS_Address i) = Inl e \<Longrightarrow> push_branch g i x = Inl e"
  by (cases x) (simp add: push_branch_def Let_def)

lemma push_branch_total: "INS_IsCondBr i \<longrightarrow> (\<exists>a. branch_block g (INS_Address i) = Inr a) \<Longrightarrow> \<exists>y. push_branch g i x = Inr y"
  by (cases x) (auto simp: push_branch_def Let_def)

lemma push_branches_error:
  assumes "i \<in> set rtn" "INS_IsCondBr i" "branch_block g (INS_Address i) = Inl Undefined"
    and "\<And>j e. j \<in> set rtn \<Longrightarrow> branch_block g (INS_Address j) = Inl e \<Longrightarrow> e = Undefined"
  shows "rfold (push_branch g) rtn x = Inl Undefined"
  using assms
proof (induction rtn arbitrary: x)
  case (Cons j rtn)
  show ?case
  proof (cases "INS_IsCondBr j \<and> (\<exists>e. branch_block g (INS_Address j) = Inl e)")
    case True
    then obtain e where "INS_IsCondBr j" "branch_block g (INS_Address j) = Inl e" by blast
    moreover from this have "e = Undefined" by (intro Cons.prems(4)[of j]) simp_all
    ultimately show ?thesis by (simp add: push_branch_error)
  next
    case False
    then obtain y where y: "push_branch g j x = Inr y"
      using push_branch_total[of j g x] by (cases "branch_block g (INS_Address j)") auto
    have "i \<in> set rtn" using Cons.prems(1-3) False by auto
    moreover have "e = Undefined" if "k \<in> set rtn" "branch_block g (INS_Address k) = Inl e" for k e
      using Cons.prems(4)[of k e] that by simp
    ultimately have "rfold (push_branch g) rtn y = Inl Undefined" using Cons.prems(2,3) by (intro Cons.IH)
    with y show ?thesis by simp
  qed
qed simp

lemma Controlflow_spec:
  assumes "initializeRoutineInfo ptr u nm rtn = Inr g"
    and "\<forall>i \<in> set rtn. INS_IsCondBr i \<longrightarrow> branch_block g (INS_Address i) = Inr (d (INS_Address i))"
  shows "Controlflow ptr u nm False rtn = Inr (place_branches d rtn)"
proof -
  have "joins d [] []" by (simp add: joins_def joined_at_def cond_branches_def stdmap_inv_def)
  from push_branches_ok[OF this assms(2), of "[]"] obtain m where
    m: "rfold (push_branch g) rtn ([], []) = Inr (m, map Push_at (cond_branches rtn))" "joins d rtn m" by auto
  have "pop_branches m = (\<lambda>i. place_pop d rtn (INS_Address i))"
    using m(2) by (simp add: pop_branches_def place_pop_def joins_def fun_eq_iff)
  then show ?thesis using m(1) assms(1) by (simp add: Controlflow_def place_branches_def comp_def)
qed

section \<open>What the graph of a routine gives\<close>

lemma flow_edges_bound: "(b, a) \<in> (flow_edges h)\<^sup>+ \<Longrightarrow> a < length h"
  by (erule tranclE) (auto simp: flow_edges_def)

text \<open>For an instruction of a routine, the look-up of the post-dominator succeeds exactly when the
  return block can be reached; otherwise a null pointer is followed.\<close>

lemma branch_block_cases:
  assumes p: "addressMap g a = Some p" "p < length (blocks g)" "p \<noteq> 1" and r: "ReturnNode g = Some 1"
    and e: "post_dominator_edges (blocks g) \<subseteq> (flow_edges (blocks g))\<^sup>+"
    and t: "\<forall>b < length (blocks g). PostDominator (blocks g ! b) \<noteq> None \<longleftrightarrow> b \<noteq> 1 \<and> (b, 1) \<in> (flow_edges (blocks g))\<^sup>*"
  shows "branch_block g a = (if can_return g a then Inr (post_dominator_of g a) else Inl Undefined)"
proof (cases "PostDominator (blocks g ! p)")
  case None
  then have "\<not> can_return g a" using p r t[rule_format, of p] by (simp add: can_return_def)
  with None p show ?thesis by (simp add: branch_block_def deref_def)
next
  case (Some q)
  then have c: "can_return g a" using p r t[rule_format, of p] by (simp add: can_return_def)
  have "(p, q) \<in> post_dominator_edges (blocks g)" using Some p(2) by (simp add: post_dominator_edges_def)
  then have "q < length (blocks g)" using e flow_edges_bound by blast
  with Some p c show ?thesis by (simp add: branch_block_def deref_def post_dominator_of_def)
qed

lemma Controlflow_cases:
  assumes "initializeRoutineInfo ptr u nm rtn = Inr g"
    and "\<forall>i \<in> set rtn. branch_block g (INS_Address i) =
      (if can_return g (INS_Address i) then Inr (post_dominator_of g (INS_Address i)) else Inl Undefined)"
  shows "Controlflow ptr u nm False rtn =
    (if \<forall>a \<in> set (cond_branches rtn). can_return g a then Inr (place_branches (post_dominator_of g) rtn) else Inl Undefined)"
proof (cases "\<forall>a \<in> set (cond_branches rtn). can_return g a")
  case True
  then have "\<forall>i \<in> set rtn. INS_IsCondBr i \<longrightarrow> branch_block g (INS_Address i) = Inr (post_dominator_of g (INS_Address i))"
    using assms(2) by (auto simp: cond_branches_def)
  from Controlflow_spec[OF assms(1) this] True show ?thesis by simp
next
  case False
  then obtain i where i: "i \<in> set rtn" "INS_IsCondBr i" "\<not> can_return g (INS_Address i)" by (auto simp: cond_branches_def)
  have "rfold (push_branch g) rtn ([], []) = Inl Undefined"
    using i assms(2) by (intro push_branches_error[of i]) (auto split: if_splits)
  with False assms(1) show ?thesis by (simp add: Controlflow_def)
qed

lemma Controlflow_ok:
  assumes "\<forall>i. junk_PostDominator (u i) = None" "rtn \<noteq> []"
    "distinct (map INS_Address rtn)" "INS_Address ` set rtn \<inter> flags = {}" "\<not> INS_IsBranch (last rtn)" "\<not> INS_IsCall (last rtn)"
  obtains g where "initializeRoutineInfo ptr u nm rtn = Inr g"
    "Controlflow ptr u nm False rtn =
      (if \<forall>a \<in> set (cond_branches rtn). can_return g a then Inr (place_branches (post_dominator_of g) rtn) else Inl Undefined)"
proof -
  obtain g where g: "initializeRoutineInfo ptr u nm rtn = Inr g" "EntranceNode g = Some 0" "ReturnNode g = Some 1"
    "INS_Address ` set rtn \<subseteq> dom (addressMap g)" "\<forall>a p. addressMap g a = Some p \<longrightarrow> p < length (blocks g) \<and> (p = 1 \<longrightarrow> a = 2)"
    "acyclic (post_dominator_edges (blocks g))" "post_dominator_edges (blocks g) \<subseteq> (flow_edges (blocks g))\<^sup>+"
    "\<forall>b. (b, 1) \<in> (flow_edges (blocks g))\<^sup>* \<longleftrightarrow> (b, 1) \<in> (post_dominator_edges (blocks g))\<^sup>*"
    "\<forall>b < length (blocks g). PostDominator (blocks g ! b) \<noteq> None \<longleftrightarrow> b \<noteq> 1 \<and> (b, 1) \<in> (flow_edges (blocks g))\<^sup>*"
    using initializeRoutineInfo_ok[OF assms] .
  have "branch_block g (INS_Address i) = (if can_return g (INS_Address i) then Inr (post_dominator_of g (INS_Address i)) else Inl Undefined)"
    if i: "i \<in> set rtn" for i
  proof -
    have a: "INS_Address i \<noteq> 2" using assms(4) i by (auto simp: flags_def)
    obtain p where p: "addressMap g (INS_Address i) = Some p" using subsetD[OF g(4) imageI[OF i]] by (auto simp: dom_def)
    have "p < length (blocks g)" "p \<noteq> 1" using g(5)[rule_format, OF p] a by blast+
    from branch_block_cases[OF p this g(3,7,9)] show ?thesis .
  qed
  then have "\<forall>i \<in> set rtn. branch_block g (INS_Address i) =
      (if can_return g (INS_Address i) then Inr (post_dominator_of g (INS_Address i)) else Inl Undefined)" by blast
  from g(1) Controlflow_cases[OF g(1) this] show thesis by (rule that)
qed

text \<open>Where a branch is closed.\<close>

lemma place_pops_ok:
  "(\<forall>c \<in> set (concat (map (place_pop d rtn) (map INS_Address rtn))).
      \<exists>x s. c = Pop_at x (length s) s \<and> x \<in> INS_Address ` set rtn) \<and>
   (\<forall>a \<in> set (cond_branches rtn). \<forall>x \<in> INS_Address ` set rtn.
      (\<exists>n s. Pop_at x n s \<in> set (concat (map (place_pop d rtn) (map INS_Address rtn))) \<and> a \<in> set s) \<longleftrightarrow> x = d a) \<and>
   (\<forall>a \<in> set (cond_branches rtn). d a \<notin> INS_Address ` set rtn \<longrightarrow>
      (\<forall>x n s. Pop_at x n s \<in> set (concat (map (place_pop d rtn) (map INS_Address rtn))) \<longrightarrow> a \<notin> set s))"
proof -
  let ?pops = "concat (map (place_pop d rtn) (map INS_Address rtn))"
  have j: "a \<in> set (joined_at d rtn x) \<longleftrightarrow> a \<in> set (cond_branches rtn) \<and> d a = x" for a x
    by (auto simp: joined_at_def)
  have p: "c \<in> set ?pops \<longleftrightarrow>
      (\<exists>x \<in> INS_Address ` set rtn. joined_at d rtn x \<noteq> [] \<and> c = Pop_at x (length (joined_at d rtn x)) (joined_at d rtn x))" for c
    by (auto simp: place_pop_def)
  have pop: "Pop_at x n s \<in> set ?pops \<longleftrightarrow>
      x \<in> INS_Address ` set rtn \<and> joined_at d rtn x \<noteq> [] \<and> n = length (joined_at d rtn x) \<and> s = joined_at d rtn x" for x n s
    unfolding p by blast
  have "\<exists>x s. c = Pop_at x (length s) s \<and> x \<in> INS_Address ` set rtn" if "c \<in> set ?pops" for c
    using that unfolding p by blast
  moreover have "(\<exists>n s. Pop_at x n s \<in> set ?pops \<and> a \<in> set s) \<longleftrightarrow> x = d a"
    if a: "a \<in> set (cond_branches rtn)" and x: "x \<in> INS_Address ` set rtn" for a x
  proof
    assume "x = d a"
    then have "a \<in> set (joined_at d rtn x)" using a j by simp
    moreover from this have "joined_at d rtn x \<noteq> []" by (metis empty_iff list.set(1))
    ultimately show "\<exists>n s. Pop_at x n s \<in> set ?pops \<and> a \<in> set s" using x pop by blast
  next
    assume "\<exists>n s. Pop_at x n s \<in> set ?pops \<and> a \<in> set s"
    then have "a \<in> set (joined_at d rtn x)" unfolding pop by blast
    then show "x = d a" using j by simp
  qed
  moreover have "a \<notin> set s" if "d a \<notin> INS_Address ` set rtn" "Pop_at x n s \<in> set ?pops" for a x n s
    using that unfolding pop by (metis j)
  ultimately show ?thesis by (intro conjI ballI impI allI)
qed

end
