(* ===== verification/Penumbra.thy ===== *)
theory Penumbra
  imports Framework Instrument_Functions Replace_Functions Routine_Graph
begin

text \<open>
  The tool \<open>penumbra.cpp\<close>, the second root of the makefile: an earlier version of \<open>dytan.cpp\<close>
  with the same handlers and bitsets, a constant number of marks, no profile, the arguments of
  \<open>main\<close> as its only source of taint, and operations that take their bitsets as a list of
  variable length that a null pointer ends. \<open>IMPLICIT\<close> is defined and \<open>TRACE\<close> is not.

  Every operation is a function on the record of the globals of \<open>penumbra.cpp\<close>. The second part
  embeds these states into those of \<open>dytan.cpp\<close> and shows that the operations agree.
\<close>

record penumbra_state =
  pen_regTaintMap :: "REG \<Rightarrow> bitset option"
  pen_memTaintMap :: "ADDRINT \<Rightarrow> bitset option"
  pen_controlTaintMap :: "(ADDRINT, bitset) stdmap"
  pen_slots :: "slot \<Rightarrow> bitset"
  currentTaintMark :: int
  taintAssignmentLog :: string

definition PENUMBRA_MARKS :: size_t where
  "PENUMBRA_MARKS = 4096"

definition pen_set_slot :: "slot \<Rightarrow> bitset \<Rightarrow> penumbra_state \<Rightarrow> penumbra_state" where
  "pen_set_slot x b s = s\<lparr>pen_slots := (pen_slots s)(x := b)\<rparr>"

section \<open>Reading taint\<close>

definition pen_ClearTaintSet :: "slot \<Rightarrow> penumbra_state \<Rightarrow> penumbra_state result" where
  "pen_ClearTaintSet x s = rbind (bitset_reset (pen_slots s x)) (\<lambda>b. Inr (pen_set_slot x b s))"

definition pen_TaintForRegister :: "REG \<Rightarrow> slot \<Rightarrow> penumbra_state \<Rightarrow> penumbra_state result" where
  "pen_TaintForRegister reg x s =
     rbind (case pen_regTaintMap s reg of
              Some b \<Rightarrow> bitset_set_bits (pen_slots s x) b
            | None \<Rightarrow> bitset_reset (pen_slots s x))
       (\<lambda>b. Inr (pen_set_slot x b s))"

definition pen_union_byte :: "slot \<Rightarrow> ADDRINT \<Rightarrow> penumbra_state \<Rightarrow> penumbra_state result" where
  "pen_union_byte x addr s =
     (case pen_memTaintMap s addr of
        None \<Rightarrow> Inr s
      | Some b \<Rightarrow> rbind (bitset_union (pen_slots s x) b) (\<lambda>r. Inr (pen_set_slot x r s)))"

definition pen_union_address_reg :: "pin_regs \<Rightarrow> slot \<Rightarrow> REG \<Rightarrow> penumbra_state \<Rightarrow> penumbra_state result" where
  "pen_union_address_reg P x reg s =
     (if REG_valid P reg then
        (case pen_regTaintMap s reg of
           None \<Rightarrow> Inr s
         | Some b \<Rightarrow> rbind (bitset_union (pen_slots s x) b) (\<lambda>r. Inr (pen_set_slot x r s)))
      else Inr s)"

definition pen_TaintForMemory ::
  "pin_regs \<Rightarrow> ADDRINT \<Rightarrow> ADDRINT \<Rightarrow> REG \<Rightarrow> REG \<Rightarrow> slot \<Rightarrow> penumbra_state \<Rightarrow> penumbra_state result" where
  "pen_TaintForMemory P start sz baseReg indexReg x s =
     rbind (bitset_reset (pen_slots s x)) (\<lambda>b.
     rbind (rfold (pen_union_byte x) (addr_range start (start + sz)) (pen_set_slot x b s)) (\<lambda>s1.
     rbind (pen_union_address_reg P x baseReg s1)
       (pen_union_address_reg P x indexReg)))"

section \<open>Writing taint\<close>

text \<open>The loop over the variable arguments. What the caller passed is a list of pointers to the
  slots and of other words; a word that is not null is no pointer to a bitset, and there is nothing
  to read behind the last argument.\<close>

datatype vararg = Bits slot | Raw "32 word"

fun pen_union_args :: "(slot \<Rightarrow> bitset) \<Rightarrow> vararg list \<Rightarrow> bitset \<Rightarrow> bitset result" where
  "pen_union_args sl [] tmp = Inl Undefined"
| "pen_union_args sl (Raw w # args) tmp = (if w = 0 then Inr tmp else Inl Undefined)"
| "pen_union_args sl (Bits x # args) tmp = rbind (bitset_union tmp (sl x)) (pen_union_args sl args)"

definition pen_control_taint :: "penumbra_state \<Rightarrow> bitset result" where
  "pen_control_taint s = rfold (\<lambda>(addr, b) acc. bitset_union acc b) (pen_controlTaintMap s) (bitset_init PENUMBRA_MARKS)"

fun pen_subregisters :: "REG \<Rightarrow> REG list" where
  "pen_subregisters REG_EAX = [REG_AX, REG_AH, REG_AL]"
| "pen_subregisters REG_EBX = [REG_BX, REG_BH, REG_BL]"
| "pen_subregisters REG_ECX = [REG_CX, REG_CH, REG_CL]"
| "pen_subregisters REG_EDX = [REG_DX, REG_DH, REG_DL]"
| "pen_subregisters _ = []"

definition pen_put_register :: "bitset \<Rightarrow> REG \<Rightarrow> penumbra_state \<Rightarrow> penumbra_state result" where
  "pen_put_register tmp reg s =
     rbind (case pen_regTaintMap s reg of Some b \<Rightarrow> bitset_set_bits b tmp | None \<Rightarrow> bitset_copy tmp)
       (\<lambda>b. Inr (s\<lparr>pen_regTaintMap := (pen_regTaintMap s)(reg \<mapsto> b)\<rparr>))"

definition pen_SetTaintForRegister :: "REG \<Rightarrow> vararg list \<Rightarrow> penumbra_state \<Rightarrow> penumbra_state result" where
  "pen_SetTaintForRegister dst args s =
     (if dst = REG_ESP \<or> dst = REG_EBP then Inr s
      else
        rbind (pen_union_args (pen_slots s) args (bitset_init PENUMBRA_MARKS)) (\<lambda>tmp.
        rbind (pen_control_taint s) (\<lambda>controlTaint.
        rbind (bitset_union tmp controlTaint) (\<lambda>tmp'.
        rbind (rfold (pen_put_register tmp') (pen_subregisters dst) s) (pen_put_register tmp' dst)))))"

definition pen_ClearTaintForRegister :: "REG \<Rightarrow> penumbra_state \<Rightarrow> penumbra_state result" where
  "pen_ClearTaintForRegister reg s =
     rbind (pen_control_taint s) (\<lambda>controlTaint.
     case pen_regTaintMap s reg of
       None \<Rightarrow> Inr s
     | Some b \<Rightarrow>
         rbind (bitset_set_bits b controlTaint) (\<lambda>b'.
         Inr (s\<lparr>pen_regTaintMap := (pen_regTaintMap s)(reg \<mapsto> b')\<rparr>)))"

definition pen_clear_byte :: "bitset \<Rightarrow> ADDRINT \<Rightarrow> penumbra_state \<Rightarrow> penumbra_state result" where
  "pen_clear_byte controlTaint addr s =
     (case pen_memTaintMap s addr of
        None \<Rightarrow> Inr s
      | Some b \<Rightarrow>
          rbind (bitset_set_bits b controlTaint) (\<lambda>b'.
          Inr (s\<lparr>pen_memTaintMap := (pen_memTaintMap s)(addr \<mapsto> b')\<rparr>)))"

definition pen_ClearTaintForMemory :: "ADDRINT \<Rightarrow> ADDRINT \<Rightarrow> penumbra_state \<Rightarrow> penumbra_state result" where
  "pen_ClearTaintForMemory start sz s =
     rbind (pen_control_taint s) (\<lambda>controlTaint. rfold (pen_clear_byte controlTaint) (addr_range start (start + sz)) s)"

definition pen_put_byte :: "bitset \<Rightarrow> ADDRINT \<Rightarrow> penumbra_state \<Rightarrow> penumbra_state result" where
  "pen_put_byte tmp addr s =
     rbind (case pen_memTaintMap s addr of Some b \<Rightarrow> bitset_set_bits b tmp | None \<Rightarrow> bitset_copy tmp)
       (\<lambda>b. Inr (s\<lparr>pen_memTaintMap := (pen_memTaintMap s)(addr \<mapsto> b)\<rparr>))"

definition pen_SetTaintForMemory :: "ADDRINT \<Rightarrow> ADDRINT \<Rightarrow> vararg list \<Rightarrow> penumbra_state \<Rightarrow> penumbra_state result" where
  "pen_SetTaintForMemory start sz args s =
     rbind (pen_union_args (pen_slots s) args (bitset_init PENUMBRA_MARKS)) (\<lambda>tmp.
     rbind (pen_control_taint s) (\<lambda>controlTaint.
     rbind (bitset_union tmp controlTaint) (\<lambda>tmp'.
     rfold (pen_put_byte tmp') (addr_range start (start + sz)) s)))"

section \<open>Branches\<close>

definition pen_PushControl :: "ADDRINT \<Rightarrow> penumbra_state \<Rightarrow> penumbra_state result" where
  "pen_PushControl addr s =
     (case pen_regTaintMap s REG_EFLAGS of
        None \<Rightarrow> Inr s
      | Some fl \<Rightarrow>
          rbind (bitset_is_empty fl) (\<lambda>empty.
          if empty then Inr s
          else
            rbind (bitset_union
                (case map_find (pen_controlTaintMap s) addr of None \<Rightarrow> bitset_init PENUMBRA_MARKS | Some b \<Rightarrow> b) fl)
              (\<lambda>b. Inr (s\<lparr>pen_controlTaintMap := map_put (pen_controlTaintMap s) addr b\<rparr>))))"

fun pen_PopControl :: "nat \<Rightarrow> ADDRINT list \<Rightarrow> penumbra_state \<Rightarrow> penumbra_state result" where
  "pen_PopControl 0 addrs s = Inr s"
| "pen_PopControl (Suc n) [] s = Inl Undefined"
| "pen_PopControl (Suc n) (addr # addrs) s =
     (case map_find (pen_controlTaintMap s) addr of
        None \<Rightarrow> Inr s
      | Some b \<Rightarrow> pen_PopControl n addrs (s\<lparr>pen_controlTaintMap := map_erase (pen_controlTaintMap s) addr\<rparr>))"

text \<open>The text of \<open>Controlflow\<close> is that of \<open>dytan.cpp\<close>, line by line.\<close>

definition pen_Controlflow ::
  "(block \<Rightarrow> ADDRINT) \<Rightarrow> uninit \<Rightarrow> (ADDRINT \<Rightarrow> string option) \<Rightarrow> bool \<Rightarrow> rtn_ins list \<Rightarrow> control_call list result" where
  "pen_Controlflow = Controlflow"

section \<open>The arguments of main\<close>

text \<open>One new mark for the bytes from one address to another, and the line that the assignment log
  gets; the format \<open>%#x\<close> has no prefix for zero.\<close>

definition pen_new_mark :: "string \<Rightarrow> ADDRINT \<Rightarrow> ADDRINT \<Rightarrow> ADDRINT \<Rightarrow> ADDRINT \<Rightarrow> penumbra_state \<Rightarrow> penumbra_state result" where
  "pen_new_mark what start stop log_start log_stop s =
     rbind (bitset_set_bit (bitset_init PENUMBRA_MARKS) (word_of_int (currentTaintMark s))) (\<lambda>tmp.
     rbind (rfold (\<lambda>addr s. rbind (bitset_copy tmp) (\<lambda>b. Inr (s\<lparr>pen_memTaintMap := (pen_memTaintMap s)(addr \<mapsto> b)\<rparr>)))
              (addr_range start stop) s) (\<lambda>s1.
     Inr (s1\<lparr>taintAssignmentLog := taintAssignmentLog s1 @ show_dec (nat (currentTaintMark s)) @ '' - '' @ what @ '' ->'' @
              show_alt_hex log_start @ ''-'' @ show_alt_hex log_stop @ [CHR 0x0A],
            currentTaintMark := currentTaintMark s1 + 1\<rparr>)))"

definition argv_slot :: "ADDRINT \<Rightarrow> nat \<Rightarrow> ADDRINT" where
  "argv_slot argv i = argv + 4 * of_nat i"

definition argv_end :: "sys_env \<Rightarrow> ADDRINT \<Rightarrow> nat \<Rightarrow> ADDRINT" where
  "argv_end E argv i = (let p = load32 E (argv_slot argv i) in p + of_nat (length (cstring E p)))"

definition TaintMainArgs :: "sys_env \<Rightarrow> ADDRINT \<Rightarrow> ADDRINT \<Rightarrow> penumbra_state \<Rightarrow> penumbra_state result" where
  "TaintMainArgs E argcAddr argvAddr s =
     (let argc = sint (load32 E argcAddr); argv = load32 E argvAddr in
      rbind (pen_new_mark ''argc'' argcAddr (argcAddr + 4) argcAddr (argcAddr + 4 - 1) s)
        (rfold (\<lambda>i. pen_new_mark (''argv['' @ show_dec i @ '']'') (argv_slot argv i) (argv_end E argv i + 1)
             argcAddr (argv_end E argv i)) [0..<nat argc]))"

text \<open>Whether the call of \<open>TaintMainArgs\<close> is inserted before a routine.\<close>

definition WrapMain :: "string \<Rightarrow> bool" where
  "WrapMain rtn_name \<longleftrightarrow> rtn_name = ''main''"

section \<open>Start of the tool\<close>

text \<open>The dispatch table, and the look-up of the handler of an instruction.\<close>

definition pen_entries_low :: "iclass \<Rightarrow> (string \<times> (INS \<Rightarrow> instrumentation)) list" where
  "pen_entries_low xed = [
     (''ADD'', Instrument_ADD),
     (''PUSH'', Instrument_PUSH),
     (''POP'', Instrument_POP),
     (''OR'', Instrument_OR),
     (''ADC'', Instrument_ADC),
     (''SBB'', Instrument_SBB),
     (''AND'', Instrument_AND),
     (''SUB'', Instrument_SUB),
     (''XOR'', Instrument_XOR),
     (''CMP'', Instrument_CMP),
     (''INC'', Instrument_INC),
     (''DEC'', Instrument_DEC),
     (''IMUL'', Instrument_IMUL),
     (''JO'', Instrument_Jcc),
     (''JNO'', Instrument_Jcc),
     (''JB'', Instrument_Jcc),
     (''JNB'', Instrument_Jcc),
     (''JZ'', Instrument_Jcc),
     (''JNZ'', Instrument_Jcc),
     (''JBE'', Instrument_Jcc),
     (''JNBE'', Instrument_Jcc),
     (''JS'', Instrument_Jcc),
     (''JNS'', Instrument_Jcc),
     (''JP'', Instrument_Jcc),
     (''JNP'', Instrument_Jcc),
     (''JL'', Instrument_Jcc),
     (''JNL'', Instrument_Jcc),
     (''JLE'', Instrument_Jcc),
     (''JNLE'', Instrument_Jcc),
     (''TEST'', Instrument_TEST),
     (''XCHG'', Instrument_XCHG),
     (''MOV'', Instrument_MOV),
     (''LEA'', Instrument_LEA),
     (''PAUSE'', Instrument_PAUSE),
     (''CWDE'', Instrument_CWDE),
     (''CDQ'', Instrument_CDQ),
     (''PUSHFD'', Instrument_PUSHFD),
     (''POPFD'', Instrument_POPFD),
     (''MOVSB'', Instrument_MOVSB),
     (''MOVSW'', Instrument_MOVSW),
     (''MOVSD'', Instrument_MOVSD),
     (''CMPSB'', Instrument_CMPSB),
     (''STOSB'', Instrument_STOSB),
     (''STOSD'', Instrument_STOSD),
     (''SCASB'', Instrument_SCASB),
     (''RET_NEAR'', Instrument_RET_NEAR),
     (''LEAVE'', Instrument_LEAVE),
     (''INT'', Instrument_INT),
     (''JrCXZ'', Instrument_Jcc),
     (''CALL_NEAR'', Instrument_CALL_NEAR),
     (''JMP'', Instrument_JMP),
     (''HLT'', Instrument_HLT),
     (''CLD'', Instrument_CLD),
     (''STD'', Instrument_STD),
     (''RDTSC'', Instrument_RDTSC)]"

definition pen_entries_high :: "iclass \<Rightarrow> (string \<times> (INS \<Rightarrow> instrumentation)) list" where
  "pen_entries_high xed = [
     (''CMOVB'', Instrument_CMOVcc xed),
     (''CMOVNB'', Instrument_CMOVcc xed),
     (''CMOVZ'', Instrument_CMOVcc xed),
     (''CMOVNZ'', Instrument_CMOVcc xed),
     (''CMOVBE'', Instrument_CMOVcc xed),
     (''CMOVNBE'', Instrument_CMOVcc xed),
     (''SETB'', Instrument_SETcc),
     (''SETNB'', Instrument_SETcc),
     (''SETZ'', Instrument_SETcc),
     (''SETNZ'', Instrument_SETcc),
     (''SETBE'', Instrument_SETcc),
     (''SETNBE'', Instrument_SETcc),
     (''SHLD'', Instrument_SHLD),
     (''CMPXCHG'', Instrument_CMPXCHG),
     (''MOVZX'', Instrument_MOVZX),
     (''XADD'', Instrument_XADD),
     (''CMOVS'', Instrument_CMOVcc xed),
     (''CMOVNS'', Instrument_CMOVcc xed),
     (''CMOVL'', Instrument_CMOVcc xed),
     (''CMOVNL'', Instrument_CMOVcc xed),
     (''CMOVLE'', Instrument_CMOVcc xed),
     (''CMOVNLE'', Instrument_CMOVcc xed),
     (''SETS'', Instrument_SETcc),
     (''SETL'', Instrument_SETcc),
     (''SETNL'', Instrument_SETcc),
     (''SETLE'', Instrument_SETcc),
     (''SETNLE'', Instrument_SETcc),
     (''SHRD'', Instrument_SHRD),
     (''MOVSX'', Instrument_MOVSX),
     (''BSWAP'', Instrument_BSWAP),
     (''SHL'', Instrument_SHL),
     (''SHR'', Instrument_SHR),
     (''SAR'', Instrument_SAR),
     (''NOT'', Instrument_NOT),
     (''NEG'', Instrument_NEG),
     (''MUL'', Instrument_MUL),
     (''DIV'', Instrument_DIV),
     (''IDIV'', Instrument_IDIV),
     (''LDMXCSR'', Instrument_LDMXCSR),
     (''STMXCSR'', Instrument_STMXCSR),
     (''FLDCW'', Instrument_FLDCW),
     (''FNSTCW'', Instrument_FNSTCW)]"

definition pen_entries :: "iclass \<Rightarrow> (string \<times> (INS \<Rightarrow> instrumentation)) list" where
  "pen_entries xed = pen_entries_low xed @ pen_entries_high xed"

definition pen_instrument_functions :: "iclass \<Rightarrow> opcode \<Rightarrow> INS \<Rightarrow> instrumentation" where
  "pen_instrument_functions xed =
     fold (\<lambda>(n, h) t. t(xed n := h)) (pen_entries xed) (\<lambda>opc. UnimplementedInstruction)"

definition pen_Dataflow :: "iclass \<Rightarrow> INS \<Rightarrow> instrumentation" where
  "pen_Dataflow xed ins = pen_instrument_functions xed (INS_Opcode ins) ins"

definition pen_observers :: "(string \<times> 'a world_scheme callback) list" where
  "pen_observers = [
     (''access'', Handle_ACCESS),
     (''alarm'', Handle_ALARM),
     (''brk'', Handle_BRK),
     (''chmod'', Handle_CHMOD),
     (''close'', Handle_CLOSE),
     (''dup'', Handle_DUP),
     (''fcntl64'', Handle_FSTAT64),
     (''flock'', Handle_FLOCK),
     (''fstat64'', Handle_FSTAT64),
     (''fsync'', Handle_FSYNC),
     (''ftruncate'', Handle_FTRUNCATE),
     (''getdents64'', Handle_GETDENTS64),
     (''getpid'', Handle_GETPID),
     (''gettimeofday'', Handle_GETTIMEOFDAY),
     (''getuid32'', Handle_GETUID32),
     (''ioctl'', Handle_IOCTL),
     (''link'', Handle_LINK),
     (''_llseek'', Handle_LLSEEK),
     (''lseek'', Handle_LSTAT64),
     (''lstat64'', Handle_LSTAT64),
     (''mmap'', Handle_MMAP),
     (''mmap2'', Handle_MMAP2),
     (''munmap'', Handle_MUNMAP),
     (''open'', Handle_OPEN),
     (''read'', Handle_READ),
     (''readlink'', Handle_READLINK),
     (''rename'', Handle_RENAME),
     (''rt_sigaction'', Handle_RT_SIGACTION),
     (''rt_sigprocmask'', Handle_RT_SIGPROCMASK),
     (''set_thread_area'', Handle_SET_THREAD_AREA),
     (''stat64'', Handle_STAT64),
     (''socketcall'', Handle_SOCKETCALL),
     (''time'', Handle_TIME),
     (''uname'', Handle_UNAME),
     (''unlink'', Handle_UNLINK),
     (''utime'', Handle_UTIME),
     (''write'', Handle_WRITE),
     (''writev'', Handle_WRITEV)]"

definition pen_main :: "sys_env \<Rightarrow> tracker callback option \<Rightarrow> tracker syscall_monitor \<times> penumbra_state" where
  "pen_main E cb =
     (fold (\<lambda>(n, h). addObserver (SYS E n) h) pen_observers (setDefaultObserver UnimplementedSystemCall (new_SyscallMonitor cb)),
      \<lparr>pen_regTaintMap = (\<lambda>r. None), pen_memTaintMap = (\<lambda>a. None), pen_controlTaintMap = [],
       pen_slots = (\<lambda>x. bitset_init PENUMBRA_MARKS), currentTaintMark = 0, taintAssignmentLog = ''''\<rparr>)"

text \<open>The calls that the handlers of \<open>instrument_functions.c\<close> insert pass the arguments of the
  operations of \<open>dytan.cpp\<close>: the opcode, the flag for the profile and the number of bitsets come
  before the bitsets, and no null pointer ends them. The operations of \<open>penumbra.cpp\<close> that have
  fixed parameters ignore what is passed in addition.\<close>

fun pen_exec_call :: "pin_regs \<Rightarrow> machine \<Rightarrow> analysis_call \<Rightarrow> penumbra_state \<Rightarrow> penumbra_state result" where
  "pen_exec_call P M (Call_TaintForRegister reg x opc) s = pen_TaintForRegister reg x s"
| "pen_exec_call P M (Call_TaintForMemory ea b i x opc prof) s =
     pen_TaintForMemory P (read_address M ea) (memoryread_size M) b i x s"
| "pen_exec_call P M (Call_ClearTaintSet x opc) s = pen_ClearTaintSet x s"
| "pen_exec_call P M (Call_SetTaintForRegister reg opc prof n args) s =
     pen_SetTaintForRegister reg ([Raw opc, Raw (of_bool prof), Raw (of_nat n)] @ map Bits args) s"
| "pen_exec_call P M (Call_SetTaintForMemory opc prof n args) s =
     pen_SetTaintForMemory (memorywrite_ea M) (memorywrite_size M)
       ([Raw opc, Raw (of_bool prof), Raw (of_nat n)] @ map Bits args) s"
| "pen_exec_call P M (Call_ClearTaintForRegister reg opc prof) s = pen_ClearTaintForRegister reg s"
| "pen_exec_call P M (Call_ClearTaintForMemory opc prof) s =
     pen_ClearTaintForMemory (memorywrite_ea M) (memorywrite_size M) s"

section \<open>Embedding into the state of \<open>dytan.cpp\<close>\<close>

definition as_dytan :: "penumbra_state \<Rightarrow> taint_state" where
  "as_dytan s = \<lparr>regTaintMap = pen_regTaintMap s, memTaintMap = pen_memTaintMap s, controlTaintMap = pen_controlTaintMap s,
     slots = pen_slots s, NUMBER_OF_TAINT_MARKS = 4096, taintGen = None, profiling_marks = False, profiling_markop = False,
     word_mode = False, word_size = 0, profilingMap = [], prof_log = '''', prof_ok = False, prof_base = 10, prof_stream = ''''\<rparr>"

definition rmap :: "('a \<Rightarrow> 'b) \<Rightarrow> 'a result \<Rightarrow> 'b result" where
  "rmap f r = rbind r (\<lambda>x. Inr (f x))"

lemma rmap_simps [simp]: "rmap f (Inr x) = Inr (f x)" "rmap f (Inl e) = Inl e"
  "rmap f (rbind m g) = rbind m (\<lambda>x. rmap f (g x))" "rmap f (if b then r else r') = (if b then rmap f r else rmap f r')"
  by (simp_all add: rmap_def rbind_assoc)

lemma as_dytan_sel [simp]:
  "regTaintMap (as_dytan s) = pen_regTaintMap s" "memTaintMap (as_dytan s) = pen_memTaintMap s"
  "controlTaintMap (as_dytan s) = pen_controlTaintMap s" "slots (as_dytan s) = pen_slots s"
  "num_marks (as_dytan s) = PENUMBRA_MARKS" "profiling_marks (as_dytan s) = False" "profiling_markop (as_dytan s) = False"
  by (simp_all add: as_dytan_def num_marks_def PENUMBRA_MARKS_def)

lemma as_dytan_upd [simp]:
  "set_slot x b (as_dytan s) = as_dytan (pen_set_slot x b s)"
  "(as_dytan s)\<lparr>regTaintMap := r\<rparr> = as_dytan (s\<lparr>pen_regTaintMap := r\<rparr>)"
  "(as_dytan s)\<lparr>memTaintMap := m\<rparr> = as_dytan (s\<lparr>pen_memTaintMap := m\<rparr>)"
  "(as_dytan s)\<lparr>controlTaintMap := c\<rparr> = as_dytan (s\<lparr>pen_controlTaintMap := c\<rparr>)"
  by (simp_all add: as_dytan_def set_slot_def pen_set_slot_def)

text \<open>Without a profile nothing is printed.\<close>

lemma silent [simp]:
  "plog False t s = s" "plog_dec False n s = s" "plog_hex False a s = s" "plog_bits False p b s = Inr s"
  "pstream_bits False b s = Inr s" "next_sep False sep = sep" "log_opcode False opc s = s" "count_markop False opc s = s"
  by (simp_all add: plog_def plog_dec_def plog_hex_def plog_bits_def pstream_bits_def next_sep_def log_opcode_def count_markop_def)

lemma log_loops_silent [simp]:
  "fold (log_address False) as st = st" "fold (log_register P False) rs st = st"
  "log_address False a st = st" "log_register P False r st = st"
  by (induction as arbitrary: st, simp_all add: log_address_def)
    (induction rs arbitrary: st, simp_all add: log_register_def log_address_def)

section \<open>The operations agree\<close>

lemma ClearTaintSet_as_dytan: "ClearTaintSet x opc (as_dytan s) = rmap as_dytan (pen_ClearTaintSet x s)"
  by (simp add: ClearTaintSet_def pen_ClearTaintSet_def)

lemma TaintForRegister_as_dytan: "TaintForRegister reg x opc (as_dytan s) = rmap as_dytan (pen_TaintForRegister reg x s)"
  by (simp add: TaintForRegister_def pen_TaintForRegister_def split: option.split)

lemma union_byte_as_dytan:
  "union_byte prof x a (sep, n, as_dytan s) = rbind (pen_union_byte x a s) (\<lambda>s'. Inr (sep, n + 1, as_dytan s'))"
  by (simp add: union_byte_def pen_union_byte_def rbind_assoc split: option.split)

lemma union_bytes_as_dytan:
  "rfold (union_byte prof x) as (sep, n, as_dytan s) =
   rbind (rfold (pen_union_byte x) as s) (\<lambda>s'. Inr (sep, n + word_of_nat (length as), as_dytan s'))"
  by (induction as arbitrary: n s) (simp_all add: union_byte_as_dytan rbind_assoc algebra_simps)

lemma union_address_reg_as_dytan:
  "union_address_reg P prof x reg (sep, as_dytan s) = rbind (pen_union_address_reg P x reg s) (\<lambda>s'. Inr (sep, as_dytan s'))"
  by (simp add: union_address_reg_def pen_union_address_reg_def rbind_assoc split: option.split)

lemma TaintForMemory_as_dytan:
  "TaintForMemory P start sz b i x opc prof (as_dytan s) = rmap as_dytan (pen_TaintForMemory P start sz b i x s)"
  by (simp add: TaintForMemory_def pen_TaintForMemory_def Let_def union_bytes_as_dytan union_address_reg_as_dytan rbind_assoc
      rmap_def)

lemma union_args_as_dytan:
  "union_args False (length xs) xs (sep, tmp, as_dytan s) =
   rbind (pen_union_args (pen_slots s) (map Bits xs @ [Raw 0]) tmp) (\<lambda>t. Inr (sep, t, as_dytan s))"
  by (induction xs arbitrary: tmp) (simp_all add: rbind_assoc)

lemma control_taint_as_dytan:
  "control_taint prof sep (as_dytan s) = rbind (pen_control_taint s) (\<lambda>c. Inr (c, as_dytan s))"
proof -
  have "rfold (union_control prof) m (sep, acc, as_dytan s) =
    rbind (rfold (\<lambda>(addr, b) acc. bitset_union acc b) m acc) (\<lambda>c. Inr (sep, c, as_dytan s))" for m acc
    by (induction m arbitrary: acc) (simp_all add: union_control_def rbind_assoc split_beta)
  then show ?thesis by (simp add: control_taint_def pen_control_taint_def rbind_assoc)
qed

lemma put_register_as_dytan: "put_register b reg (as_dytan s) = rmap as_dytan (pen_put_register b reg s)"
  by (simp add: put_register_def pen_put_register_def set_or_copy_def split: option.split)

lemma put_registers_as_dytan: "rfold (put_register b) rs (as_dytan s) = rmap as_dytan (rfold (pen_put_register b) rs s)"
  by (induction rs arbitrary: s) (simp_all add: put_register_as_dytan rmap_def rbind_assoc)

lemma pen_subregisters: "dst \<notin> {REG_AX, REG_BX, REG_CX, REG_DX} \<Longrightarrow> pen_subregisters dst = subregisters dst"
  by (cases dst) simp_all

lemma SetTaintForRegister_as_dytan:
  assumes "dst \<notin> {REG_AX, REG_BX, REG_CX, REG_DX}"
  shows "SetTaintForRegister P dst opc prof (length xs) xs (as_dytan s) =
    rmap as_dytan (pen_SetTaintForRegister dst (map Bits xs @ [Raw 0]) s)"
  by (simp add: SetTaintForRegister_def pen_SetTaintForRegister_def Let_def union_args_as_dytan control_taint_as_dytan
      put_register_as_dytan put_registers_as_dytan pen_subregisters[OF assms] rbind_assoc rmap_def)

lemma clear_register_as_dytan:
  assumes "subregisters reg = []"
  shows "ClearTaintForRegister P reg opc prof (as_dytan s) = rmap as_dytan (pen_ClearTaintForRegister reg s)"
  by (cases "pen_regTaintMap s reg")
    (simp_all add: ClearTaintForRegister_def pen_ClearTaintForRegister_def Let_def control_taint_as_dytan assms clear_register_def
      rbind_assoc rmap_def)

lemma clear_bytes_as_dytan:
  "rfold (clear_byte False c) as (sep, as_dytan s) = rbind (rfold (pen_clear_byte c) as s) (\<lambda>s'. Inr (sep, as_dytan s'))"
  by (induction as arbitrary: s) (simp_all add: clear_byte_def pen_clear_byte_def rbind_assoc split: option.split)

lemma ClearTaintForMemory_as_dytan:
  "ClearTaintForMemory start sz opc prof (as_dytan s) = rmap as_dytan (pen_ClearTaintForMemory start sz s)"
  by (simp add: ClearTaintForMemory_def pen_ClearTaintForMemory_def Let_def control_taint_as_dytan clear_bytes_as_dytan
      rbind_assoc rmap_def)

lemma put_bytes_as_dytan:
  "rfold (put_byte False c) as (sep, as_dytan s) = rbind (rfold (pen_put_byte c) as s) (\<lambda>s'. Inr (sep, as_dytan s'))"
  by (induction as arbitrary: s) (simp_all add: put_byte_def pen_put_byte_def set_or_copy_def rbind_assoc Let_def split: option.split)

lemma SetTaintForMemory_as_dytan:
  "SetTaintForMemory start sz opc prof (length xs) xs (as_dytan s) =
   rmap as_dytan (pen_SetTaintForMemory start sz (map Bits xs @ [Raw 0]) s)"
  by (simp add: SetTaintForMemory_def pen_SetTaintForMemory_def Let_def union_args_as_dytan control_taint_as_dytan
      put_bytes_as_dytan rbind_assoc rmap_def)

lemma PushControl_as_dytan: "PushControl a (as_dytan s) = rmap as_dytan (pen_PushControl a s)"
  by (cases "pen_regTaintMap s REG_EFLAGS"; cases "map_find (pen_controlTaintMap s) a")
    (auto simp: PushControl_def pen_PushControl_def intro!: rbind_cong)

lemma PopControl_as_dytan: "PopControl n as (as_dytan s) = rmap as_dytan (pen_PopControl n as s)"
  by (induction n as s rule: pen_PopControl.induct) (simp_all split: option.split)

text \<open>With the arguments that the handlers pass, an assignment follows a word that is no pointer,
  except when the opcode is zero, which ends the arguments before the first bitset.\<close>

lemma pen_handlers_undefined:
  "opc \<noteq> 0 \<Longrightarrow> reg \<notin> {REG_ESP, REG_EBP} \<Longrightarrow> pen_exec_call P M (Call_SetTaintForRegister reg opc prof n args) s = Inl Undefined"
  "opc \<noteq> 0 \<Longrightarrow> pen_exec_call P M (Call_SetTaintForMemory opc prof n args) s = Inl Undefined"
  by (simp_all add: pen_SetTaintForRegister_def pen_SetTaintForMemory_def)

section \<open>The marks of the arguments\<close>

definition pen_mem_marks :: "penumbra_state \<Rightarrow> ADDRINT \<Rightarrow> mark set" where
  "pen_mem_marks s a = (case pen_memTaintMap s a of Some b \<Rightarrow> marks b | None \<Rightarrow> {})"

lemma pen_marks_ok: "nbits_ok PENUMBRA_MARKS"
  by (simp add: nbits_ok_def PENUMBRA_MARKS_def)

lemma pen_assign_ok:
  assumes "bitset_wf nb t"
  shows "rfold (\<lambda>addr s. rbind (bitset_copy t) (\<lambda>b. Inr (s\<lparr>pen_memTaintMap := (pen_memTaintMap s)(addr \<mapsto> b)\<rparr>))) as s =
    Inr (s\<lparr>pen_memTaintMap := \<lambda>a. if a \<in> set as then Some t else pen_memTaintMap s a\<rparr>)"
  by (induction as arbitrary: s) (simp_all add: bitset_copy_ok[OF assms] fun_eq_iff)

lemma pen_new_mark_ok:
  assumes "0 \<le> currentTaintMark s" "currentTaintMark s < 4096"
  shows "\<exists>s'. pen_new_mark what start stop l1 l2 s = Inr s' \<and> currentTaintMark s' = currentTaintMark s + 1 \<and>
    pen_mem_marks s' = (\<lambda>a. if start \<le> a \<and> a < stop then {nat (currentTaintMark s)} else pen_mem_marks s a) \<and>
    pen_regTaintMap s' = pen_regTaintMap s"
proof -
  let ?m = "word_of_int (currentTaintMark s) :: size_t"
  have u: "unat ?m = nat (currentTaintMark s)"
    using assms by (simp add: unsigned_of_int take_bit_int_eq_self)
  then have "?m < PENUMBRA_MARKS" using assms by (simp add: word_less_nat_alt PENUMBRA_MARKS_def)
  from bitset_set_bit_ok[OF bitset_init_wf[OF pen_marks_ok] this] obtain t where
    t: "bitset_set_bit (bitset_init PENUMBRA_MARKS) ?m = Inr t" "bitset_wf PENUMBRA_MARKS t" "marks t = {nat (currentTaintMark s)}"
    by (auto simp: u marks_bitset_init[OF pen_marks_ok])
  then show ?thesis
    by (auto simp: pen_new_mark_def pen_assign_ok[OF t(2)] pen_mem_marks_def fun_eq_iff)
qed

lemma pen_new_mark_full:
  assumes "4096 \<le> currentTaintMark s" "currentTaintMark s < 2 ^ 31"
  shows "pen_new_mark what start stop l1 l2 s = Inl Assert_failed"
proof -
  have "unat (word_of_int (currentTaintMark s) :: size_t) = nat (currentTaintMark s)"
    using assms by (simp add: unsigned_of_int take_bit_int_eq_self)
  then have "\<not> word_of_int (currentTaintMark s) < PENUMBRA_MARKS"
    using assms by (simp add: word_less_nat_alt PENUMBRA_MARKS_def)
  then show ?thesis by (simp add: pen_new_mark_def bitset_set_bit_def bitset_init_def cassert_def)
qed

definition argv_range :: "sys_env \<Rightarrow> ADDRINT \<Rightarrow> nat \<Rightarrow> ADDRINT set" where
  "argv_range E argv i = {argv_slot argv i..<argv_end E argv i + 1}"

abbreviation argv_loop :: "sys_env \<Rightarrow> ADDRINT \<Rightarrow> ADDRINT \<Rightarrow> nat \<Rightarrow> penumbra_state \<Rightarrow> penumbra_state result" where
  "argv_loop E argcAddr argv n \<equiv> rfold (\<lambda>i. pen_new_mark (''argv['' @ show_dec i @ '']'') (argv_slot argv i) (argv_end E argv i + 1)
     argcAddr (argv_end E argv i)) [0..<n]"

lemma argv_loop_ok:
  "0 \<le> currentTaintMark s \<Longrightarrow> currentTaintMark s + int n \<le> 4096 \<Longrightarrow>
   \<exists>s'. argv_loop E argcAddr argv n s = Inr s' \<and> currentTaintMark s' = currentTaintMark s + int n \<and>
     pen_regTaintMap s' = pen_regTaintMap s \<and>
     (\<forall>a. if \<exists>i < n. a \<in> argv_range E argv i
          then pen_mem_marks s' a = {nat (currentTaintMark s) + (GREATEST i. i < n \<and> a \<in> argv_range E argv i)}
          else pen_mem_marks s' a = pen_mem_marks s a)"
proof (induction n)
  case (Suc n)
  then obtain s1 where s1: "argv_loop E argcAddr argv n s = Inr s1" "currentTaintMark s1 = currentTaintMark s + int n"
      "pen_regTaintMap s1 = pen_regTaintMap s"
      "\<forall>a. if \<exists>i < n. a \<in> argv_range E argv i
          then pen_mem_marks s1 a = {nat (currentTaintMark s) + (GREATEST i. i < n \<and> a \<in> argv_range E argv i)}
          else pen_mem_marks s1 a = pen_mem_marks s a" by auto
  obtain s2 where s2: "pen_new_mark (''argv['' @ show_dec n @ '']'') (argv_slot argv n) (argv_end E argv n + 1) argcAddr (argv_end E argv n) s1 = Inr s2"
      "currentTaintMark s2 = currentTaintMark s1 + 1" "pen_regTaintMap s2 = pen_regTaintMap s1"
      "pen_mem_marks s2 = (\<lambda>a. if a \<in> argv_range E argv n then {nat (currentTaintMark s1)} else pen_mem_marks s1 a)"
    using pen_new_mark_ok[of s1 "''argv['' @ show_dec n @ '']''" "argv_slot argv n" "argv_end E argv n + 1" argcAddr "argv_end E argv n"]
      s1(2) Suc.prems by (auto simp: argv_range_def)
  have g: "(GREATEST i. i < Suc n \<and> a \<in> argv_range E argv i) = n" if "a \<in> argv_range E argv n" for a
    using that by (intro Greatest_equality) auto
  have k: "(GREATEST i. i < Suc n \<and> a \<in> argv_range E argv i) = (GREATEST i. i < n \<and> a \<in> argv_range E argv i)"
    if "a \<notin> argv_range E argv n" for a
    using that by (metis less_Suc_eq)
  have "if \<exists>i < Suc n. a \<in> argv_range E argv i
      then pen_mem_marks s2 a = {nat (currentTaintMark s) + (GREATEST i. i < Suc n \<and> a \<in> argv_range E argv i)}
      else pen_mem_marks s2 a = pen_mem_marks s a" for a
  proof (cases "a \<in> argv_range E argv n")
    case True
    then show ?thesis using g s1(2) Suc.prems(1) by (auto simp: s2(4) nat_add_distrib)
  next
    case False
    then have "(\<exists>i < Suc n. a \<in> argv_range E argv i) \<longleftrightarrow> (\<exists>i < n. a \<in> argv_range E argv i)" using less_Suc_eq by auto
    with s1(4)[rule_format, of a] k[OF False] False show ?thesis by (simp add: s2(4))
  qed
  moreover have "argv_loop E argcAddr argv (Suc n) s = Inr s2"
    using s1(1) s2(1) by (simp add: rfold_append)
  ultimately show ?case using s1(2,3) s2(2,3) by auto
qed simp

lemma argv_loop_full:
  assumes "0 \<le> currentTaintMark s" "currentTaintMark s \<le> 4096" "4096 < currentTaintMark s + int n"
  shows "argv_loop E argcAddr argv n s = Inl Assert_failed"
proof -
  define k where "k = nat (4096 - currentTaintMark s)"
  have k: "k < n" "currentTaintMark s + int k = 4096" using assms by (auto simp: k_def)
  obtain s1 where s1: "argv_loop E argcAddr argv k s = Inr s1" "currentTaintMark s1 = 4096"
    using argv_loop_ok[OF assms(1), where n = k and E = E and argcAddr = argcAddr and argv = argv] k(2) by auto
  have "[0..<n] = [0..<k] @ k # [Suc k..<n]" using k(1) by (metis le_add_diff_inverse less_imp_le_nat upt_add_eq_append upt_conv_Cons zero_le)
  then show ?thesis using s1 by (simp add: rfold_append pen_new_mark_full)
qed

lemma TaintMainArgs_cases:
  assumes "0 \<le> currentTaintMark s" "currentTaintMark s \<le> 4096" "sint (load32 E argcAddr) = int n" "load32 E argvAddr = argv"
  shows "if currentTaintMark s + 1 + int n \<le> 4096
    then \<exists>s'. TaintMainArgs E argcAddr argvAddr s = Inr s' \<and> currentTaintMark s' = currentTaintMark s + 1 + int n \<and>
      pen_regTaintMap s' = pen_regTaintMap s \<and>
      (\<forall>a. pen_mem_marks s' a =
        (if \<exists>i < n. a \<in> argv_range E argv i then {nat (currentTaintMark s) + 1 + (GREATEST i. i < n \<and> a \<in> argv_range E argv i)}
         else if argcAddr \<le> a \<and> a < argcAddr + 4 then {nat (currentTaintMark s)}
         else pen_mem_marks s a))
    else TaintMainArgs E argcAddr argvAddr s = Inl Assert_failed"
proof (cases "currentTaintMark s < 4096")
  case True
  obtain s1 where s1: "pen_new_mark ''argc'' argcAddr (argcAddr + 4) argcAddr (argcAddr + 4 - 1) s = Inr s1"
      "currentTaintMark s1 = currentTaintMark s + 1" "pen_regTaintMap s1 = pen_regTaintMap s"
      "pen_mem_marks s1 = (\<lambda>a. if argcAddr \<le> a \<and> a < argcAddr + 4 then {nat (currentTaintMark s)} else pen_mem_marks s a)"
    using pen_new_mark_ok[OF assms(1) True] by blast
  have run: "TaintMainArgs E argcAddr argvAddr s = argv_loop E argcAddr argv n s1"
    using assms(3,4) s1(1) by (simp add: TaintMainArgs_def)
  show ?thesis
  proof (cases "currentTaintMark s + 1 + int n \<le> 4096")
    case True
    obtain s2 where s2: "argv_loop E argcAddr argv n s1 = Inr s2" "currentTaintMark s2 = currentTaintMark s1 + int n"
      "pen_regTaintMap s2 = pen_regTaintMap s1"
      "\<forall>a. if \<exists>i < n. a \<in> argv_range E argv i
          then pen_mem_marks s2 a = {nat (currentTaintMark s1) + (GREATEST i. i < n \<and> a \<in> argv_range E argv i)}
          else pen_mem_marks s2 a = pen_mem_marks s1 a"
      using argv_loop_ok[where s = s1 and n = n and E = E and argcAddr = argcAddr and argv = argv] assms(1) s1(2) True by auto
    have "nat (currentTaintMark s1) = nat (currentTaintMark s) + 1" using s1(2) assms(1) by simp
    with s2(4) have "\<forall>a. pen_mem_marks s2 a =
        (if \<exists>i < n. a \<in> argv_range E argv i then {nat (currentTaintMark s) + 1 + (GREATEST i. i < n \<and> a \<in> argv_range E argv i)}
         else if argcAddr \<le> a \<and> a < argcAddr + 4 then {nat (currentTaintMark s)}
         else pen_mem_marks s a)"
      unfolding s1(4) by simp
    then show ?thesis using True run s1(2,3) s2(1-3) by simp
  next
    case False
    then show ?thesis using argv_loop_full[where s = s1 and n = n and E = E and argcAddr = argcAddr and argv = argv] assms(1) s1(2) True run \<open>currentTaintMark s < 4096\<close> by auto
  qed
next
  case False
  then show ?thesis using assms pen_new_mark_full[of s] by (simp add: TaintMainArgs_def)
qed

end
