(* ===== verification/File_Tracking.thy ===== *)
theory File_Tracking
  imports System_Props
begin

text \<open>
  A watched file from start-up to the taint of the bytes read from it: what \<open>main\<close> registers
  for a configuration with one path source, and what the system calls \<open>open\<close>, \<open>read\<close> and
  \<open>close\<close> of the monitored program then do.
\<close>

section \<open>The observers after start-up\<close>

definition cbs_of :: "'w callback list option \<Rightarrow> 'w callback list" where
  "cbs_of x = (case x of None \<Rightarrow> [] | Some cbs \<Rightarrow> cbs)"

lemma cbs_of_simps [simp]: "cbs_of None = []" "cbs_of (Some cbs) = cbs"
  by (simp_all add: cbs_of_def)

lemma addObserver_cbs:
  "cbs_of (observers (addObserver k cb m) n) = cbs_of (observers m n) @ (if n = k then [cb] else [])"
  by (simp add: addObserver_def cbs_of_def split: option.splits)

lemma addObserver_some: "observers (addObserver k cb m) n \<noteq> None \<longleftrightarrow> n = k \<or> observers m n \<noteq> None"
  by (simp add: addObserver_def)

lemma fold_addObserver_cbs:
  "cbs_of (observers (fold (\<lambda>(n, h). addObserver (SYS E n) h) hs m) k) =
     cbs_of (observers m k) @ map snd (filter (\<lambda>(n, h). SYS E n = k) hs)"
  by (induction hs arbitrary: m) (auto simp: addObserver_cbs)

lemma fold_addObserver_some:
  "observers (fold (\<lambda>(n, h). addObserver (SYS E n) h) hs m) k \<noteq> None \<longleftrightarrow>
     k \<in> SYS E ` fst ` set hs \<or> observers m k \<noteq> None"
  by (induction hs arbitrary: m) (auto simp: addObserver_def split: if_splits)

lemma observersI: "observers m k \<noteq> None \<Longrightarrow> cbs_of (observers m k) = cbs \<Longrightarrow> observers m k = Some cbs"
  by (auto simp: cbs_of_def)

lemma filter_unique:
  assumes "distinct (map fst xs)" "(k, v) \<in> set xs" "inj_on f (fst ` set xs)"
  shows "map snd (filter (\<lambda>(n, h). f n = f k) xs) = [v]"
proof -
  have "filter (\<lambda>(n, h). f n = f k) xs = filter (\<lambda>(n, h). n = k) xs"
    using assms(2,3) by (intro filter_cong) (auto dest!: inj_onD intro: rev_image_eqI)
  also have "map snd \<dots> = [v]"
    using assms(1,2) by (induction xs) (auto simp: filter_empty_conv rev_image_eqI)
  finally show ?thesis .
qed

definition observed_names :: "string set" where
  "observed_names = fst ` set (main_observers :: (string \<times> unit world_scheme callback) list)"

lemma observed_names_any: "fst ` set (main_observers :: (string \<times> 'a world_scheme callback) list) = observed_names"
  by (simp add: observed_names_def main_observers_def)

lemma distinct_main_observers: "distinct (map fst (main_observers :: (string \<times> 'a world_scheme callback) list))"
  by (simp add: main_observers_def)

lemma main_observers_entries:
  "(''open'', Handle_OPEN) \<in> set main_observers" "(''read'', Handle_READ) \<in> set main_observers"
  "(''close'', Handle_CLOSE) \<in> set main_observers"
  by (simp_all add: main_observers_def)

lemma observed_members: "''open'' \<in> observed_names" "''read'' \<in> observed_names" "''close'' \<in> observed_names"
  by (simp_all add: observed_names_def main_observers_def)

section \<open>A state that watches one file\<close>

definition watches :: "sys_env \<Rightarrow> string \<Rightarrow> taint_range_t \<Rightarrow> sys_state \<Rightarrow> bool" where
  "watches E p ty = (\<lambda>(m, w).
     observers m (SYS E ''open'') = Some [openCallback 0, Handle_OPEN] \<and>
     observers m (SYS E ''read'') = Some [readCallback 0, Handle_READ] \<and>
     observers m (SYS E ''close'') = Some [closeCallback 0, Handle_CLOSE] \<and>
     (\<exists>pm. pathMonitors w = [pm] \<and> pathObservers pm p = Some [path_read_callback ty]))"

definition fd_table :: "sys_state \<Rightarrow> int \<Rightarrow> string option" where
  "fd_table st = activeFileDescriptors (pathMonitors (snd st) ! 0)"

lemma main_setup_watches:
  assumes names: "inj_on (SYS E) observed_names"
    and src: "sources conf = [\<lparr>src_type = ''path'', granularity = g, details = [p]\<rparr>]" "p \<noteq> ''*''"
    and marks: "num_markings conf \<noteq> ''1''" "num_markings conf \<noteq> ''''" "convertTo_int (num_markings conf) = Inr N"
      "1 \<le> N" "N \<le> 4096"
  shows "\<exists>m w. main_setup E junk uninit cb conf = Inr (m, w) \<and>
    watches E p (if g = ''PerByte'' then PerByte else PerRead) (m, w) \<and> fd_table (m, w) = (\<lambda>fd. None) \<and>
    memTaintMap (taint w) = (\<lambda>a. None) \<and> taintGen (taint w) = Some (new_TaintGenerator 0 N) \<and>
    NUMBER_OF_TAINT_MARKS (taint w) = N \<and> state_inv (taint w) \<and> gen_ok (taint w) \<and>
    pathMonitors w = [observePath p (path_read_callback (if g = ''PerByte'' then PerByte else PerRead))
      (registerDefault pathSourceReadDefault (new_PathMonitor False))]"
proof -
  let ?ty = "if g = ''PerByte'' then PerByte else PerRead"
  let ?s = "(initial_taint uninit)\<lparr>NUMBER_OF_TAINT_MARKS := N, taintGen := Some (new_TaintGenerator 0 N)\<rparr>"
  let ?pm = "observePath p (path_read_callback ?ty) (registerDefault pathSourceReadDefault (new_PathMonitor False))"
  let ?m = "path_activate E 0 (new_SyscallMonitor cb)"
  let ?M = "fold (\<lambda>(n, h). addObserver (SYS E n) h) main_observers (setDefaultObserver UnimplementedSystemCall ?m)"
  let ?w = "\<lparr>taint = init_globals conf ?s, openFiles = (\<lambda>fd. None), pathMonitors = [?pm], networkMonitors = []\<rparr>"
  have run: "main_setup E junk uninit cb conf = Inr (?M, ?w)"
    using marks src
    by (simp add: main_setup_def set_framework_options_def with_taint_def set_markings_def initial_taint_def
        add_source_def source_granularity_def new_PathTaintSource_def addPathSource_def upd_path_monitor_def
        cong: if_cong)
  have obs: "observers ?M (SYS E x) = Some [cb, h]"
    if "(x, h) \<in> set main_observers" "observers ?m (SYS E x) = Some [cb]" for x cb h
  proof (rule observersI)
    show "observers ?M (SYS E x) \<noteq> None" unfolding fold_addObserver_some using that(1) by (metis fst_conv image_eqI)
    show "cbs_of (observers ?M (SYS E x)) = [cb, h]"
      using filter_unique[OF distinct_main_observers that(1), of "SYS E"] names that(2)
      by (simp add: fold_addObserver_cbs setDefaultObserver_def observed_names_any)
  qed
  have n3: "SYS E ''open'' \<noteq> SYS E ''read''" "SYS E ''open'' \<noteq> SYS E ''close''" "SYS E ''read'' \<noteq> SYS E ''close''"
    using inj_on_eq_iff[OF names] observed_members by simp_all
  have act: "observers ?m (SYS E ''open'') = Some [openCallback 0]" "observers ?m (SYS E ''read'') = Some [readCallback 0]"
      "observers ?m (SYS E ''close'') = Some [closeCallback 0]"
    using n3 by (simp_all add: path_activate_def addObserver_def new_SyscallMonitor_def)
  have "watches E p ?ty (?M, ?w)"
    using obs[OF main_observers_entries(1) act(1)] obs[OF main_observers_entries(2) act(2)]
      obs[OF main_observers_entries(3) act(3)]
    by (simp add: watches_def observePath_def registerDefault_def new_PathMonitor_def)
  moreover have "fresh_taint (num_markings conf) ?s" "taintGen ?s \<noteq> None"
    using marks new_TaintGenerator_inv[of N] by (auto simp: fresh_taint_def initial_taint_def)
  then have "state_inv (init_globals conf ?s) \<and> gen_ok (init_globals conf ?s)" by (rule init_globals_ok)
  moreover have "fd_table (?M, ?w) = (\<lambda>fd. None)"
    by (simp add: fd_table_def observePath_def registerDefault_def new_PathMonitor_def)
  moreover have "memTaintMap (init_globals conf ?s) = (\<lambda>a. None)" "NUMBER_OF_TAINT_MARKS (init_globals conf ?s) = N"
      "taintGen (init_globals conf ?s) = Some (new_TaintGenerator 0 N)"
    by (simp_all add: init_globals_def initial_taint_def Let_def)
  ultimately show ?thesis using run by simp
qed

section \<open>System calls on a watched file\<close>

lemma syscall_events:
  assumes "observers m n = Some cbs"
  shows "rfold (sys_step E) [SysBefore tid n a0 a1 a2 a3 a4 a5, SysAfter tid r e] (m, w) =
    rbind (rfold (\<lambda>cb. cb E n \<lparr>num = n, arg0 = a0, arg1 = a1, arg2 = a2, arg3 = a3, arg4 = a4, arg5 = a5, ret = r, err = e\<rparr>) cbs w)
      (\<lambda>w'. Inr (beginSyscall tid n a0 a1 a2 a3 a4 a5 m, w'))"
  using assms by (simp add: endSyscall_def beginSyscall_def rbind_assoc fun_upd_idem)

lemma watches_begin [simp]:
  "watches E p ty (beginSyscall tid n a0 a1 a2 a3 a4 a5 m, w) = watches E p ty (m, w)"
  "fd_table (m', w) = fd_table (m, w)"
  by (simp_all add: watches_def beginSyscall_def fd_table_def)

lemma watchesD:
  assumes "watches E p ty (m, w)"
  shows "observers m (SYS E ''open'') = Some [openCallback 0, Handle_OPEN]"
    "observers m (SYS E ''read'') = Some [readCallback 0, Handle_READ]"
    "observers m (SYS E ''close'') = Some [closeCallback 0, Handle_CLOSE]"
    "\<exists>pm. pathMonitors w = [pm] \<and> pathObservers pm p = Some [path_read_callback ty]"
  using assms by (simp_all add: watches_def)

lemma open_events:
  assumes "watches E p ty (m, w)" "sint fd \<noteq> -1" "can_read E a0"
  shows "\<exists>m' w'. rfold (sys_step E) [SysBefore tid (SYS E ''open'') a0 a1 a2 a3 a4 a5, SysAfter tid fd e] (m, w) = Inr (m', w') \<and>
    watches E p ty (m', w') \<and> fd_table (m', w') = (fd_table (m, w))(sint fd \<mapsto> cstring E a0) \<and> taint w' = taint w \<and>
    pathMonitors w' = map (addActiveFileDescriptor (sint fd) (cstring E a0)) (pathMonitors w)"
  unfolding syscall_events[OF watchesD(1)[OF assms(1)]] using assms
  by (auto simp: watches_def openCallback_def upd_path_monitor_def Handle_OPEN_def fd_table_def
      addActiveFileDescriptor_def beginSyscall_def)

lemma close_events:
  assumes "watches E p ty (m, w)" "sint r \<noteq> -1"
  shows "\<exists>m' w'. rfold (sys_step E) [SysBefore tid (SYS E ''close'') a0 a1 a2 a3 a4 a5, SysAfter tid r e] (m, w) = Inr (m', w') \<and>
    watches E p ty (m', w') \<and> fd_table (m', w') = (fd_table (m, w))(sint a0 := None) \<and> taint w' = taint w \<and>
    pathMonitors w' = map (removeActiveFileDescriptor (sint a0)) (pathMonitors w)"
  unfolding syscall_events[OF watchesD(3)[OF assms(1)]] using assms
  by (auto simp: watches_def closeCallback_def upd_path_monitor_def Handle_CLOSE_def fd_table_def
      removeActiveFileDescriptor_def beginSyscall_def)

lemma read_events:
  assumes "watches E p ty (m, w)" "sint r \<noteq> -1"
  shows "rfold (sys_step E) [SysBefore tid (SYS E ''read'') a0 a1 a2 a3 a4 a5, SysAfter tid r e] (m, w) =
    rbind (notifyForRead (pathMonitors w ! 0) \<lparr>num = SYS E ''read'', arg0 = a0, arg1 = a1, arg2 = a2, arg3 = a3, arg4 = a4,
        arg5 = a5, ret = r, err = e\<rparr> (taint w))
      (\<lambda>s. Inr (beginSyscall tid (SYS E ''read'') a0 a1 a2 a3 a4 a5 m, w\<lparr>taint := s\<rparr>))"
  unfolding syscall_events[OF watchesD(2)[OF assms(1)]] using assms
  by (auto simp: watches_def readCallback_def Handle_READ_def rbind_assoc)

lemma read_watched:
  assumes "watches E p ty (m, w)" "sint r \<noteq> -1" "fd_table (m, w) (sint a0) = Some p"
  shows "rfold (sys_step E) [SysBefore tid (SYS E ''read'') a0 a1 a2 a3 a4 a5, SysAfter tid r e] (m, w) =
    rbind (path_read_callback ty p \<lparr>num = SYS E ''read'', arg0 = a0, arg1 = a1, arg2 = a2, arg3 = a3, arg4 = a4,
        arg5 = a5, ret = r, err = e\<rparr> (taint w))
      (\<lambda>s. Inr (beginSyscall tid (SYS E ''read'') a0 a1 a2 a3 a4 a5 m, w\<lparr>taint := s\<rparr>))"
  unfolding read_events[OF assms(1,2)] using assms(1,3)
  by (auto simp: watches_def notifyForRead_def fd_table_def rbind_assoc)

lemma read_unwatched:
  assumes "watches E p ty (m, w)" "sint r \<noteq> -1" "fd_table (m, w) (sint a0) = None"
  shows "\<exists>m'. rfold (sys_step E) [SysBefore tid (SYS E ''read'') a0 a1 a2 a3 a4 a5, SysAfter tid r e] (m, w) = Inr (m', w) \<and>
    watches E p ty (m', w)"
  unfolding read_events[OF assms(1,2)] using assms(1,3)
  by (auto simp: watches_def notifyForRead_def fd_table_def beginSyscall_def)

lemma read_other:
  assumes "watches E p ty (m, w)" "sint r \<noteq> -1" "fd_table (m, w) (sint a0) = Some q"
    and "pathMonitors w = [pm]" "pathObservers pm q = None" "\<not> observeEverything pm"
      "pathDefaultObserver pm = Some pathSourceReadDefault"
  shows "\<exists>m'. rfold (sys_step E) [SysBefore tid (SYS E ''read'') a0 a1 a2 a3 a4 a5, SysAfter tid r e] (m, w) = Inr (m', w)"
  unfolding read_events[OF assms(1,2)] using assms(3-)
  by (simp add: notifyForRead_def fd_table_def pathSourceReadDefault_def)

section \<open>The marks of the bytes read\<close>

lemma addr_range_nth:
  assumes "unat start + unat len < 2 ^ 32" "i < unat len"
  shows "length (addr_range start (start + len)) = unat len" "addr_range start (start + len) ! i = start + of_nat i"
proof -
  have e: "unat (start + len) = unat start + unat len" using assms(1) by (simp add: unat_word_ariths)
  then show l: "length (addr_range start (start + len)) = unat len" by (simp add: length_addr_range)
  have "unat (addr_range start (start + len) ! i) = map unat (addr_range start (start + len)) ! i"
    using assms(2) l by simp
  also have "\<dots> = unat start + i" using assms(2) e by (simp add: map_unat_addr_range)
  finally show "addr_range start (start + len) ! i = start + of_nat i"
    using assms by (intro word_unat_eq_iff[THEN iffD2]) (simp add: unat_word_ariths unat_of_nat)
qed

lemma per_byte_marks:
  assumes inv: "state_inv s" "gen_ok s" and g: "taintGen s = Some (new_TaintGenerator 0 N)" "1 \<le> N" "N \<le> 4096"
    and r: "0 < sint (ret args)" "unat (arg1 args) + unat (ret args) < 2 ^ 32"
  shows "\<exists>s'. pathSourceReadCallbackPerByte p args s = Inr s' \<and> state_inv s' \<and>
    (\<forall>i < unat (ret args). mem_marks s' (arg1 args + of_nat i) = {i mod nat N}) \<and>
    (\<forall>a. a \<notin> {arg1 args..<arg1 args + ret args} \<longrightarrow> mem_marks s' a = mem_marks s a)"
proof -
  let ?as = "addr_range (arg1 args) (arg1 args + ret args)"
  obtain ms g' s' where s': "pathSourceReadCallbackPerByte p args s = Inr s'" "state_inv s'"
      "draw_marks (length ?as) (the (taintGen s)) = Inr (ms, g')" "tview s' = v_put_bytes ?as ms (tview s)"
    using pathSourceReadCallbackPerByte_ok[OF inv r(1), of p] by blast
  have l: "length ?as = unat (ret args)" using r addr_range_nth(1)[of "arg1 args" "ret args" 0]
    by (cases "ret args = 0") (auto simp: unat_gt_0)
  have ms: "ms = map (\<lambda>i. int i mod N) [0..<unat (ret args)]"
    using draw_marks_cycle[of "\<lparr>gen_start = 0, gen_current = 0, gen_max = N\<rparr>" "unat (ret args)"] s'(3) g l
    by (auto simp: new_TaintGenerator_def)
  have "mem_marks s' (arg1 args + of_nat i) = {i mod nat N}" if "i < unat (ret args)" for i
  proof -
    have "v_mem (tview s') (?as ! i) = Some {nat (ms ! i)}"
      unfolding s'(4) using that l ms by (intro v_put_bytes_nth distinct_addr_range) simp_all
    moreover have "nat (ms ! i) = i mod nat N" using that g(2) by (simp add: ms nat_mod_distrib)
    ultimately show ?thesis unfolding mem_marks_def addr_range_nth(2)[OF r(2) that] by (simp del: tview_sel)
  qed
  moreover have "mem_marks s' a = mem_marks s a" if "a \<notin> {arg1 args..<arg1 args + ret args}" for a
    unfolding mem_marks_def s'(4) using v_put_bytes_other[of a ?as] that by simp
  ultimately show ?thesis using s'(1,2) by blast
qed

lemma per_read_marks:
  assumes inv: "state_inv s" "gen_ok s" and r: "0 < sint (ret args)" "unat (arg1 args) + unat (ret args) < 2 ^ 32"
  shows "\<exists>s' k. pathSourceReadCallbackPerRead p args s = Inr s' \<and> state_inv s' \<and> k < nat (NUMBER_OF_TAINT_MARKS s) \<and>
    (\<forall>i < unat (ret args). mem_marks s' (arg1 args + of_nat i) = {k}) \<and>
    (\<forall>a. a \<notin> {arg1 args..<arg1 args + ret args} \<longrightarrow> mem_marks s' a = mem_marks s a)"
proof -
  obtain k s' where s': "pathSourceReadCallbackPerRead p args s = Inr s'" "state_inv s'" "k < nat (NUMBER_OF_TAINT_MARKS s)"
      "tview s' = v_put_mem {arg1 args..<arg1 args + ret args} {k} (tview s)"
    using pathSourceReadCallbackPerRead_ok[OF inv r(1), of p] by blast
  have "arg1 args + of_nat i \<in> {arg1 args..<arg1 args + ret args}" if "i < unat (ret args)" for i
    using addr_range_nth[OF r(2) that] that by (metis nth_mem set_addr_range)
  then have "\<forall>i < unat (ret args). mem_marks s' (arg1 args + of_nat i) = {k}"
    unfolding mem_marks_def s'(4) v_put_mem_def by simp
  moreover have "\<forall>a. a \<notin> {arg1 args..<arg1 args + ret args} \<longrightarrow> mem_marks s' a = mem_marks s a"
    unfolding mem_marks_def s'(4) v_put_mem_def by simp
  ultimately show ?thesis using s'(1-3) by blast
qed

end
