(* ===== verification/Network_Tracking.thy ===== *)
theory Network_Tracking
  imports File_Tracking
begin

text \<open>
  What the network sources and the function sources do at run time: the network monitors
  look for observers only after a receive under the wildcard, which is undefined, so no byte is ever
  tainted by a system call. A function source registers no observer at all.
\<close>

text \<open>No byte is tainted, no file is watched, and the network monitors follow their policies.\<close>

definition untainted :: "net_policy list \<Rightarrow> tracker \<Rightarrow> bool" where
  "untainted ps w \<longleftrightarrow> memTaintMap (taint w) = (\<lambda>a. None) \<and> pathMonitors w = [] \<and> covers (0, ps) (monitors w)"

definition quiet_cb :: "sys_env \<Rightarrow> net_policy list \<Rightarrow> 32 word \<Rightarrow> tracker callback \<Rightarrow> bool" where
  "quiet_cb E ps n cb \<longleftrightarrow>
     (\<forall>args w. num args = n \<longrightarrow> args_ok E ps args \<longrightarrow> untainted ps w \<longrightarrow>
       (\<exists>w'. cb E n args w = Inr w' \<and> untainted ps w' \<and> monitors w' = monitors w))"

lemma erase_mem_untainted:
  "untainted ps w \<Longrightarrow> \<exists>w'. erase_mem start sz w = Inr w' \<and> untainted ps w' \<and> monitors w' = monitors w"
  by (auto simp: erase_mem_def untainted_def erase_range_eq monitors_def)

lemma untainted_openFiles [simp]: "untainted k (w\<lparr>openFiles := f\<rparr>) = untainted k w"
  by (simp add: untainted_def)

lemma erasing_quiet:
  "quiet_cb E k n Handle_FSTAT64" "quiet_cb E k n Handle_GETDENTS64" "quiet_cb E k n Handle_LSTAT64"
  "quiet_cb E k n Handle_MMAP" "quiet_cb E k n Handle_MMAP2" "quiet_cb E k n Handle_READLINK"
  "quiet_cb E k n Handle_STAT64" "quiet_cb E k n Handle_UNAME" "quiet_cb E k n Handle_RT_SIGACTION"
  "quiet_cb E k n Handle_RT_SIGPROCMASK" "quiet_cb E k n Handle_TIME"
  by (auto simp: quiet_cb_def Handle_FSTAT64_def Handle_GETDENTS64_def Handle_LSTAT64_def Handle_MMAP_def
      Handle_MMAP2_def Handle_READLINK_def Handle_STAT64_def Handle_UNAME_def Handle_RT_SIGACTION_def
      Handle_RT_SIGPROCMASK_def Handle_TIME_def intro: erase_mem_untainted)

lemma GETTIMEOFDAY_quiet: "quiet_cb E k n Handle_GETTIMEOFDAY"
  unfolding quiet_cb_def Handle_GETTIMEOFDAY_def
proof (intro allI impI)
  fix args :: syscall_arguments and w :: tracker
  assume "untainted k w"
  then obtain w1 where w1: "erase_mem (arg0 args) (sizeof_timeval E) w = Inr w1" "untainted k w1" "monitors w1 = monitors w"
    using erase_mem_untainted by blast
  from erase_mem_untainted[OF w1(2), of "arg1 args" "sizeof_timezone E"] w1(1,3)
  show "\<exists>w'. rbind (erase_mem (arg0 args) (sizeof_timeval E) w) (erase_mem (arg1 args) (sizeof_timezone E)) = Inr w' \<and>
      untainted k w' \<and> monitors w' = monitors w" by simp
qed

lemma file_handlers_quiet: "quiet_cb E k (SYS E ''open'') Handle_OPEN" "quiet_cb E k n Handle_DUP"
  by (simp_all add: quiet_cb_def Handle_OPEN_def Handle_DUP_def Let_def args_ok_def)

lemma SOCKETCALL_quiet: "quiet_cb E k (SYS E ''socketcall'') Handle_SOCKETCALL"
  by (auto simp: quiet_cb_def Handle_SOCKETCALL_def args_ok_def known_socketcalls_def)

lemma pass_quiet: "(\<And>E n args w. cb E n args w = Inr w) \<Longrightarrow> quiet_cb E k n cb"
  by (simp add: quiet_cb_def)

lemma main_observers_quiet: "list_all (\<lambda>(n, h). quiet_cb E k (SYS E n) h) main_observers"
  by (simp add: main_observers_def erasing_quiet GETTIMEOFDAY_quiet file_handlers_quiet SOCKETCALL_quiet
      pass_quiet pass_defs)

lemma network_quiet:
  assumes "i < length ps"
  shows "quiet_cb E ps n (readNetworkCallback i)" "quiet_cb E ps n (closeNetworkCallback i)"
    "quiet_cb E ps (SYS E ''socketcall'') (socketcallNetworkCallback i)"
  using network_callbacks_quiet[of i "(0, ps)"] assms by (simp_all add: quiet_cb_def untainted_def)

definition quiet_state :: "sys_env \<Rightarrow> net_policy list \<Rightarrow> sys_state \<Rightarrow> bool" where
  "quiet_state E ps = (\<lambda>(m, w). untainted ps w \<and> args_ok E ps zero_args \<and> monitor_ok (args_ok E ps) (quiet_cb E ps) m)"

interpretation qtm: monitored E "untainted ps" "args_ok E ps" "quiet_cb E ps" for E ps
  by unfold_locales (auto simp: args_ok_ret quiet_cb_def)

lemma quiet_step:
  assumes inv: "quiet_state E ps st" and ok: "event_ok E ps ev"
  shows "\<exists>st'. sys_step E ev st = Inr st' \<and> quiet_state E ps st'"
proof -
  obtain m w where st: "st = (m, w)" by (cases st)
  have q: "untainted ps w" "args_ok E ps zero_args" "monitor_ok (args_ok E ps) (quiet_cb E ps) m"
    using inv by (simp_all add: quiet_state_def st)
  from qtm.step_ok[OF q(2,1,3) event_ok_args[OF ok]] st q(2) show ?thesis
    by (auto simp: quiet_state_def)
qed

interpretation quiet: safe_step "quiet_state E ps" "event_ok E ps" "sys_step E" for E ps
  by unfold_locales (rule quiet_step)

section \<open>Start-up without path sources\<close>

text \<open>Sources that are not paths: sources of the network, the wildcard among them, of functions and of
  unknown types.\<close>

definition quiet_source :: "source \<Rightarrow> bool" where
  "quiet_source src \<longleftrightarrow> src_type src \<noteq> ''path''"

lemma untainted_prefix: "untainted (ps @ qs) w \<Longrightarrow> untainted ps w"
  using covers_mono[of "(0, ps @ qs)" "monitors w" "(0, ps)"] by (simp add: untainted_def setup_le_def)

lemma quiet_cb_mono:
  assumes "quiet_cb E ps n cb" shows "quiet_cb E (ps @ qs) n cb"
  unfolding quiet_cb_def
proof (intro allI impI)
  fix args :: syscall_arguments and w :: tracker
  assume "num args = n" "args_ok E (ps @ qs) args" and w: "untainted (ps @ qs) w"
  moreover from this have "args_ok E ps args" by (simp add: args_ok_def)
  ultimately obtain w' where w': "cb E n args w = Inr w'" "untainted ps w'" "monitors w' = monitors w"
    using assms untainted_prefix[OF w] unfolding quiet_cb_def by blast
  with w show "\<exists>w'. cb E n args w = Inr w' \<and> untainted (ps @ qs) w' \<and> monitors w' = monitors w"
    by (auto simp: untainted_def monitors_def)
qed

definition quiet_obs :: "sys_env \<Rightarrow> net_policy list \<Rightarrow> tracker syscall_monitor \<Rightarrow> bool" where
  "quiet_obs E ps m \<longleftrightarrow> (\<forall>n cbs. observers m n = Some cbs \<longrightarrow> list_all (quiet_cb E ps n) cbs)"

lemma quiet_obs_mono: "quiet_obs E ps m \<Longrightarrow> quiet_obs E (ps @ qs) m"
  by (auto simp: quiet_obs_def list_all_iff intro: quiet_cb_mono)

lemma quiet_addObserver: "quiet_obs E ps m \<Longrightarrow> quiet_cb E ps n cb \<Longrightarrow> quiet_obs E ps (addObserver n cb m)"
  by (auto simp: quiet_obs_def addObserver_def split: option.splits)

lemma quiet_addObservers:
  "quiet_obs E ps m \<Longrightarrow> list_all (\<lambda>(n, h). quiet_cb E ps (SYS E n) h) hs \<Longrightarrow>
     quiet_obs E ps (fold (\<lambda>(n, h). addObserver (SYS E n) h) hs m)"
  by (induction hs arbitrary: m) (auto intro: quiet_addObserver)

text \<open>The state during start-up.\<close>

definition quiet_setup :: "sys_env \<Rightarrow> string \<Rightarrow> net_policy list \<Rightarrow> sys_state \<Rightarrow> bool" where
  "quiet_setup E nm ps st \<longleftrightarrow> setup_inv E nm (0, ps) st \<and> quiet_obs E ps (fst st)"

lemma change_network_monitor_paths:
  "change_network_monitor i f w = Inr w' \<Longrightarrow> pathMonitors w' = pathMonitors w"
  by (auto simp: change_network_monitor_def upd_network_monitor_def rbind_eq_Inr split: if_splits)

lemma add_network_details_paths:
  "add_network_details E i ty ds w = Inr w' \<Longrightarrow> pathMonitors w' = pathMonitors w"
  by (induction E i ty ds w rule: add_network_details.induct)
    (auto simp: rbind_eq_Inr addNetworkSource_def dest: change_network_monitor_paths)

lemma add_source_shape:
  assumes "quiet_source src" "add_source E src (m, w) = Inr (m', w')"
  shows "pathMonitors w' = pathMonitors w \<and>
    m' = (if src_type src = ''network'' then net_activate E (length (networkMonitors w)) m else m)"
  using assms
  by (auto simp: quiet_source_def add_source_def Let_def new_NetworkTaintSource_def net_addObserverForAll_def rbind_eq_Inr
      split: list.splits if_splits dest!: change_network_monitor_paths add_network_details_paths)

lemma add_source_quiet:
  assumes "quiet_setup E nm ps st" "quiet_source src" "src_ok E src"
  shows "\<exists>st'. add_source E src st = Inr st' \<and> quiet_setup E nm (ps @ source_policies E src) st' \<and>
    taint (snd st') = taint (snd st)"
proof -
  obtain m w where st: "st = (m, w)" by (cases st)
  have inv: "setup_inv E nm (0, ps) st" and obs: "quiet_obs E ps m"
    using assms(1) st by (simp_all add: quiet_setup_def)
  obtain m' w' n where add: "add_source E src st = Inr (m', w')" "setup_inv E nm (n, ps @ source_policies E src) (m', w')"
      "taint w' = taint w"
    using add_source_ok[OF inv assms(3)] st by auto
  note shape = add_source_shape[OF assms(2) add(1)[unfolded st]]
  have n: "n = 0" using inv add(2) shape st by (simp add: setup_inv_def obs_ok_def)
  have l: "length (networkMonitors w) = length ps"
    using inv st by (auto simp: setup_inv_def obs_ok_def dest: list_all2_lengthD)
  have "quiet_obs E (ps @ source_policies E src) m'"
  proof (cases "src_type src = ''network''")
    case True
    then have "length ps < length (ps @ source_policies E src)" by (simp add: source_policies_def)
    with shape True show ?thesis
      by (simp add: net_activate_def l quiet_addObserver network_quiet quiet_obs_mono[OF obs])
  next
    case False
    with shape show ?thesis by (simp add: quiet_obs_mono[OF obs])
  qed
  with add n st show ?thesis by (auto simp: quiet_setup_def)
qed

lemma sources_loop_quiet:
  "quiet_setup E nm ps st \<Longrightarrow> markings_ok nm \<Longrightarrow> list_all quiet_source srcs \<Longrightarrow> list_all (src_ok E) srcs \<Longrightarrow>
   taintGen (taint (snd st)) \<noteq> None \<or> srcs \<noteq> [] \<Longrightarrow>
   \<exists>st'. rfold (\<lambda>src st. rbind (with_taint (set_markings junk nm) st) (add_source E src)) srcs st = Inr st' \<and>
     quiet_setup E nm (ps @ concat (map (source_policies E) srcs)) st' \<and> taintGen (taint (snd st')) \<noteq> None"
proof (induction srcs arbitrary: ps st)
  case (Cons src srcs)
  have "setup_inv E nm (0, ps) st" using Cons.prems(1) by (simp add: quiet_setup_def)
  from with_taint_markings_ok[OF this Cons.prems(2)] obtain st1 where 1:
      "with_taint (set_markings junk nm) st = Inr st1" "setup_inv E nm (0, ps) st1" "taintGen (taint (snd st1)) \<noteq> None" by blast
  have "fst st1 = fst st" using 1(1) by (auto simp: with_taint_def rbind_eq_Inr split: prod.splits)
  with 1(2) Cons.prems(1) have "quiet_setup E nm ps st1" by (simp add: quiet_setup_def)
  from Cons.prems(3,4) have src: "quiet_source src" "src_ok E src" by simp_all
  from add_source_quiet[OF \<open>quiet_setup E nm ps st1\<close> src] obtain st2 where 2: "add_source E src st1 = Inr st2"
      "quiet_setup E nm (ps @ source_policies E src) st2" "taint (snd st2) = taint (snd st1)" by blast
  from Cons.IH[OF 2(2) Cons.prems(2)] Cons.prems(3,4) 1 2 show ?case by simp
qed simp

lemma init_globals_memory: "memTaintMap (init_globals conf s) = memTaintMap s"
  by (simp add: init_globals_def Let_def)

lemma main_setup_quiet:
  assumes "sources conf \<noteq> []" "list_all quiet_source (sources conf)" "list_all (src_ok E) (sources conf)"
    and "markings_ok (num_markings conf)" "0 \<notin> {SYS E ''open'', SYS E ''socketcall''}"
  shows "\<exists>st. main_setup E junk uninit cb conf = Inr st \<and> quiet_state E (net_policies E conf) st"
proof -
  let ?start = "(new_SyscallMonitor cb, \<lparr>taint = initial_taint uninit, openFiles = (\<lambda>fd. None), pathMonitors = [], networkMonitors = []\<rparr>)"
  let ?ps = "net_policies E conf"
  have "quiet_setup E (num_markings conf) [] ?start"
    by (simp add: quiet_setup_def setup_inv_def obs_ok_def new_SyscallMonitor_def fresh_taint_def initial_taint_def quiet_obs_def)
  from sources_loop_quiet[OF this assms(4,2,3), of junk] assms(1) obtain m w where
    set: "set_framework_options E junk conf ?start = Inr (m, w)" "quiet_setup E (num_markings conf) ?ps (m, w)"
    by (auto simp: set_framework_options_def net_policies_def)
  let ?m = "fold (\<lambda>(n, h). addObserver (SYS E n) h) main_observers (setDefaultObserver UnimplementedSystemCall m)"
  let ?w = "w\<lparr>taint := init_globals conf (taint w)\<rparr>"
  have run: "main_setup E junk uninit cb conf = Inr (?m, ?w)" using set(1) by (simp add: main_setup_def)
  have obs: "obs_ok E (0, ?ps) (m, w)" and fresh: "fresh_taint (num_markings conf) (taint w)" and q: "quiet_obs E ?ps m"
    using set(2) by (simp_all add: quiet_setup_def setup_inv_def)
  have "quiet_obs E ?ps (setDefaultObserver UnimplementedSystemCall m)"
    using q by (simp add: quiet_obs_def setDefaultObserver_def)
  then have "quiet_obs E ?ps ?m" by (rule quiet_addObservers[OF _ main_observers_quiet])
  moreover have "pendingSyscalls ?m = (\<lambda>tid. None) \<and> defaultObserver ?m = Some UnimplementedSystemCall"
  proof -
    have "pendingSyscalls (fold (\<lambda>(n, h). addObserver (SYS E n) h) hs x) = pendingSyscalls x \<and>
        defaultObserver (fold (\<lambda>(n, h). addObserver (SYS E n) h) hs x) = defaultObserver x"
      for x :: "tracker syscall_monitor" and hs by (induction hs arbitrary: x) auto
    then show ?thesis using obs by (simp add: setDefaultObserver_def obs_ok_def)
  qed
  moreover have "quiet_cb E ?ps n UnimplementedSystemCall" for n
    by (simp add: quiet_cb_def UnimplementedSystemCall_def)
  ultimately have "monitor_ok (args_ok E ?ps) (quiet_cb E ?ps) ?m" by (simp add: monitor_ok_def quiet_obs_def)
  moreover have "untainted ?ps ?w"
    using fresh obs obs_covers[OF obs] by (simp add: untainted_def init_globals_memory fresh_taint_def obs_ok_def monitors_def)
  moreover have "args_ok E ?ps zero_args" using assms(5) by (rule args_ok_zero)
  ultimately show ?thesis using run by (simp add: quiet_state_def)
qed


end
