(* ===== verification/Network_Limits.thy ===== *)
theory Network_Limits
  imports Network_Tracking
begin

text \<open>
  Where the network sources leave defined behaviour: the configurations that the start-up cannot
  process, a receive under the wildcard, and an address that the comparator does not order with
  an observed one.
\<close>

section \<open>Configurations that cannot be processed\<close>

text \<open>Every address of a list is equivalent to a key of the map.\<close>

definition key_cover :: "NetworkAddress list \<Rightarrow> network_monitor \<Rightarrow> bool" where
  "key_cover as nm \<longleftrightarrow> (\<forall>a \<in> set as. \<exists>b \<in> fst ` set (addressObservers nm). addr_equiv a b)"

lemma comparable_sym: "comparable a b \<Longrightarrow> comparable b a"
  by (auto simp: comparable_def)

lemma comparable_equiv: "addr_equiv a b \<Longrightarrow> comparable c b \<Longrightarrow> comparable c a"
  by (simp add: addr_equiv_iff comparable_def NetworkAddress_cmp_def)

lemma comparable_refl: "comparable a a"
  by (simp add: comparable_def NetworkAddress_cmp_def)

lemma add_to_entry_keys:
  "(a = x \<or> a \<in> fst ` set es) \<Longrightarrow> \<exists>b \<in> fst ` set (add_to_entry x cb es). addr_equiv a b"
  by (induction x cb es rule: add_to_entry.induct) (auto simp: addr_equiv_iff)

lemma key_cover_strict:
  assumes "key_cover as nm" "strict_weak_on NetworkAddress_cmp as"
    and "strict_weak_on NetworkAddress_cmp (a # map fst (addressObservers nm))"
  shows "strict_weak_on NetworkAddress_cmp (as @ [a])"
proof -
  have "comparable a x" if "x \<in> set as" for x
  proof -
    obtain b where "b \<in> fst ` set (addressObservers nm)" "addr_equiv x b" using assms(1) \<open>x \<in> set as\<close> unfolding key_cover_def by blast
    moreover from this have "comparable a b" using assms(3) by (auto simp: strict_weak_on_iff)
    ultimately show ?thesis by (blast intro: comparable_equiv)
  qed
  with assms(2) show ?thesis by (auto simp: strict_weak_on_iff comparable_refl intro: comparable_sym)
qed

lemma observeAddress_exact:
  assumes "observeAddress E h p cb nm = Inr nm'" "key_cover as nm" "strict_weak_on NetworkAddress_cmp as"
  shows "\<exists>a. make_address E h p = Inr a \<and> strict_weak_on NetworkAddress_cmp (as @ [a]) \<and> key_cover (as @ [a]) nm'"
proof -
  obtain a where a: "make_address E h p = Inr a" "strict_weak_on NetworkAddress_cmp (a # map fst (addressObservers nm))"
      "nm' = nm\<lparr>addressObservers := add_to_entry a cb (addressObservers nm)\<rparr>"
    using assms(1) by (auto simp: observeAddress_def push_observer_def rbind_eq_Inr split: if_splits)
  have "key_cover (as @ [a]) nm'"
    unfolding key_cover_def
  proof
    fix x assume "x \<in> set (as @ [a])"
    then obtain y where "y = a \<or> y \<in> fst ` set (addressObservers nm)" "addr_equiv x y"
      using assms(2) by (auto simp: key_cover_def addr_equiv_iff)
    with add_to_entry_keys[of y a "addressObservers nm" cb] a(3)
    show "\<exists>b \<in> fst ` set (addressObservers nm'). addr_equiv x b" by (auto simp: addr_equiv_iff)
  qed
  with a(1) key_cover_strict[OF assms(2,3) a(2)] show ?thesis by blast
qed

lemma observeAddress_error: "observeAddress E h p cb nm = Inl e \<Longrightarrow> e = Undefined"
  by (auto simp: observeAddress_def make_address_def atoi_def push_observer_def split: if_splits)

lemma add_network_details_exact:
  "i < length (networkMonitors w) \<Longrightarrow> key_cover as (networkMonitors w ! i) \<Longrightarrow> strict_weak_on NetworkAddress_cmp as \<Longrightarrow>
   (case add_network_details E i ty ds w of
      Inl e \<Rightarrow> e = Undefined
    | Inr w' \<Rightarrow> \<exists>bs. detail_addresses E ds = Inr bs \<and> strict_weak_on NetworkAddress_cmp (as @ bs) \<and>
        key_cover (as @ bs) (networkMonitors w' ! i))"
proof (induction E i ty ds w arbitrary: as rule: add_network_details.induct)
  case (3 E i ty h p ds w)
  let ?nm = "networkMonitors w ! i"
  show ?case
  proof (cases "observeAddress E h p (net_read_callback ty) ?nm")
    case (Inl e)
    with observeAddress_error[OF Inl] "3.prems"(1) show ?thesis
      by (simp add: addNetworkSource_def change_network_monitor_def)
  next
    case (Inr nm')
    let ?w = "upd_network_monitor i nm' w"
    have w1: "addNetworkSource E i h p ty w = Inr ?w"
      using Inr "3.prems"(1) by (simp add: addNetworkSource_def change_network_monitor_def)
    obtain a where a: "make_address E h p = Inr a" "strict_weak_on NetworkAddress_cmp (as @ [a])" "key_cover (as @ [a]) nm'"
      using observeAddress_exact[OF Inr "3.prems"(2,3)] by blast
    have "i < length (networkMonitors ?w)" "networkMonitors ?w ! i = nm'"
      using "3.prems"(1) by (simp_all add: upd_network_monitor_def)
    with "3.IH"[OF w1, of "as @ [a]"] a show ?thesis
      by (auto simp: w1 split: sum.splits)
  qed
qed auto

lemma add_source_undefined:
  assumes "\<not> src_ok E src"
  shows "add_source E src st = Inl Undefined"
proof -
  obtain m w where st: "st = (m, w)" by (cases st)
  consider "src_type src = ''path''" "details src = []" | "src_type src = ''network''" "details src = []"
    | (net) d ds where "src_type src = ''network''" "details src = d # ds" "d \<noteq> ''*''"
        "\<not> (case detail_addresses E (d # ds) of Inl e \<Rightarrow> False | Inr as \<Rightarrow> strict_weak_on NetworkAddress_cmp as)"
    using assms by (cases "details src") (auto simp: src_ok_def)
  then show ?thesis
  proof cases
    case net
    obtain m' w' where n: "new_NetworkTaintSource E False st = (length (networkMonitors w), m', w')"
        "networkMonitors w' = networkMonitors w @ [registerAddressDefault networkReadDefault (new_NetworkMonitor False)]"
      by (simp add: new_NetworkTaintSource_def Let_def st)
    let ?r = "add_network_details E (length (networkMonitors w)) (source_granularity src) (d # ds) w'"
    have "length (networkMonitors w) < length (networkMonitors w')" using n(2) by simp
    moreover have "key_cover [] x" "strict_weak_on NetworkAddress_cmp []" for x
      by (simp_all add: key_cover_def strict_weak_on_def)
    ultimately have "case ?r of Inl e \<Rightarrow> e = Undefined | Inr w' \<Rightarrow> \<exists>bs. detail_addresses E (d # ds) = Inr bs \<and>
        strict_weak_on NetworkAddress_cmp ([] @ bs) \<and> key_cover ([] @ bs) (networkMonitors w' ! length (networkMonitors w))"
      by (rule add_network_details_exact)
    with net(4) have "?r = Inl Undefined"
      by (cases ?r) (auto simp del: detail_addresses.simps add_network_details.simps)
    with n(1) net(1-3) show ?thesis by (simp add: add_source_def Let_def del: add_network_details.simps)
  qed (simp_all add: add_source_def)
qed

lemma sources_loop_undefined:
  "setup_inv E nm k st \<Longrightarrow> markings_ok nm \<Longrightarrow> \<not> list_all (src_ok E) srcs \<Longrightarrow>
   rfold (\<lambda>src st. rbind (with_taint (set_markings junk nm) st) (add_source E src)) srcs st = Inl Undefined"
proof (induction srcs arbitrary: k st)
  case (Cons src srcs)
  from with_taint_markings_ok[OF Cons.prems(1,2)] obtain st1 where 1:
      "with_taint (set_markings junk nm) st = Inr st1" "setup_inv E nm k st1" by blast
  show ?case
  proof (cases "src_ok E src")
    case True
    from add_source_ok[OF 1(2) True] obtain st2 n where "add_source E src st1 = Inr st2"
        "setup_inv E nm (n, snd k @ source_policies E src) st2" by blast
    with Cons.IH Cons.prems(2,3) 1(1) True show ?thesis by simp
  next
    case False
    with 1(1) add_source_undefined[OF False] show ?thesis by simp
  qed
qed simp

lemma main_setup_undefined:
  assumes "markings_ok (num_markings conf)" "\<not> list_all (src_ok E) (sources conf)"
  shows "main_setup E junk uninit cb conf = Inl Undefined"
proof -
  let ?w0 = "\<lparr>taint = initial_taint uninit, openFiles = (\<lambda>fd. None), pathMonitors = [], networkMonitors = []\<rparr>"
  have "setup_inv E (num_markings conf) (0, []) (new_SyscallMonitor cb, ?w0)"
    by (simp add: setup_inv_def obs_ok_def new_SyscallMonitor_def fresh_taint_def initial_taint_def)
  from sources_loop_undefined[OF this assms, of junk] assms(2) show ?thesis
    by (auto simp: main_setup_def set_framework_options_def)
qed

section \<open>Socket calls of one source\<close>

lemma socketcall_members: "(''socketcall'', Handle_SOCKETCALL) \<in> set main_observers" "''socketcall'' \<in> observed_names"
  "''read'' \<in> observed_names" "''close'' \<in> observed_names"
  by (simp_all add: main_observers_def observed_names_def)

text \<open>The state after the start-up with one source of the network.\<close>

lemma one_source_setup:
  assumes "sources conf = [src]" "src_type src = ''network''" "main_setup E junk uninit cb conf = Inr (m, w)"
  shows "m = fold (\<lambda>(n, h). addObserver (SYS E n) h) main_observers
      (setDefaultObserver UnimplementedSystemCall (net_activate E 0 (new_SyscallMonitor cb)))" (is ?m)
    and "\<exists>s w1. add_source E src (new_SyscallMonitor cb,
        \<lparr>taint = s, openFiles = (\<lambda>fd. None), pathMonitors = [], networkMonitors = []\<rparr>) = Inr (net_activate E 0 (new_SyscallMonitor cb), w1) \<and>
      networkMonitors w = networkMonitors w1" (is ?w)
proof -
  obtain s m1 w1 where add: "add_source E src (new_SyscallMonitor cb,
        \<lparr>taint = s, openFiles = (\<lambda>fd. None), pathMonitors = [], networkMonitors = []\<rparr>) = Inr (m1, w1)"
      "networkMonitors w = networkMonitors w1"
      "m = fold (\<lambda>(n, h). addObserver (SYS E n) h) main_observers (setDefaultObserver UnimplementedSystemCall m1)"
    using assms by (auto simp: main_setup_def set_framework_options_def with_taint_def rbind_eq_Inr)
  have "m1 = net_activate E 0 (new_SyscallMonitor cb)"
    using add_source_shape[OF _ add(1)] assms(2) by (simp add: quiet_source_def)
  with add show ?m ?w by auto
qed

lemma one_source_observers:
  assumes names: "inj_on (SYS E) observed_names"
    and "sources conf = [src]" "src_type src = ''network''" "main_setup E junk uninit cb conf = Inr (m, w)"
  shows "observers m (SYS E ''socketcall'') = Some [socketcallNetworkCallback 0, Handle_SOCKETCALL]"
proof -
  let ?m = "net_activate E 0 (new_SyscallMonitor cb)"
  note m = one_source_setup(1)[OF assms(2-4)]
  have n: "SYS E ''socketcall'' \<noteq> SYS E ''read''" "SYS E ''socketcall'' \<noteq> SYS E ''close''"
    using inj_on_eq_iff[OF names] socketcall_members by simp_all
  then have act: "observers ?m (SYS E ''socketcall'') = Some [socketcallNetworkCallback 0]"
    by (simp add: net_activate_def addObserver_def new_SyscallMonitor_def)
  show ?thesis
  proof (rule observersI)
    show "observers m (SYS E ''socketcall'') \<noteq> None"
      unfolding m fold_addObserver_some using socketcall_members(1) by (metis fst_conv image_eqI)
    show "cbs_of (observers m (SYS E ''socketcall'')) = [socketcallNetworkCallback 0, Handle_SOCKETCALL]"
      unfolding m fold_addObserver_cbs
      using filter_unique[OF distinct_main_observers socketcall_members(1), of "SYS E"] names act
      by (simp add: setDefaultObserver_def observed_names_any)
  qed
qed

lemma one_source_keys:
  assumes "sources conf = [src]" "src_type src = ''network''" "main_setup E junk uninit cb conf = Inr (m, w)"
    and "hd (details src) \<noteq> ''*''" "detail_addresses E (details src) = Inr as"
  shows "key_cover as (networkMonitors w ! 0)"
proof -
  obtain s w1 where add: "add_source E src (new_SyscallMonitor cb,
        \<lparr>taint = s, openFiles = (\<lambda>fd. None), pathMonitors = [], networkMonitors = []\<rparr>) = Inr (net_activate E 0 (new_SyscallMonitor cb), w1)"
      "networkMonitors w = networkMonitors w1"
    using one_source_setup(2)[OF assms(1-3)] by blast
  obtain d ds where d: "details src = d # ds" "d \<noteq> ''*''"
    using add(1) assms(2,4) by (cases "details src") (auto simp: add_source_def)
  let ?w0 = "\<lparr>taint = s, openFiles = (\<lambda>fd. None), pathMonitors = [], networkMonitors = [registerAddressDefault networkReadDefault (new_NetworkMonitor False)]\<rparr>"
  have "add_network_details E 0 (source_granularity src) (details src) ?w0 = Inr w1"
    using add(1) assms(2) d
    by (auto simp: add_source_def Let_def new_NetworkTaintSource_def rbind_eq_Inr simp del: add_network_details.simps)
  with add_network_details_exact[of 0 ?w0 "[]" E "details src" "source_granularity src"] assms(5) add(2)
  show ?thesis by (auto simp: key_cover_def strict_weak_on_def)
qed

text \<open>Calls that the tool survives keep the network monitors as they are.\<close>

interpretation nwm: monitored E "\<lambda>w. (tr_inv c w \<and> covers k (monitors w)) \<and> monitors w = ms" "args_ok E (snd k)" "safe_cb E k" for E c k ms
proof
  show "args_ok E (snd k) (a\<lparr>ret := r, err := e\<rparr>)" if "args_ok E (snd k) a" for a r e using that by (rule args_ok_ret)
  show "\<exists>w'. cb E (num args) args w = Inr w' \<and> (tr_inv c w' \<and> covers k (monitors w')) \<and> monitors w' = ms"
    if "safe_cb E k (num args) cb" "args_ok E (snd k) args" "(tr_inv c w \<and> covers k (monitors w)) \<and> monitors w = ms" for args cb w
  proof -
    from that(3) have "tr_inv c w" "covers k (monitors w)" by blast+
    with safe_cbD[OF that(1) refl that(2)] obtain w' where "cb E (num args) args w = Inr w'" "tr_inv c w'" "monitors w' = monitors w" by blast
    with that(3) show ?thesis by auto
  qed
qed

lemma sys_run_monitors:
  "sys_inv E c k (m, w) \<Longrightarrow> list_all (event_ok E (snd k)) evs \<Longrightarrow>
   \<exists>m' w'. rfold (sys_step E) evs (m, w) = Inr (m', w') \<and> sys_inv E c k (m', w') \<and>
     networkMonitors w' = networkMonitors w \<and> observers m' = observers m"
proof (induction evs arbitrary: m w)
  case (Cons ev evs)
  have inv: "monitor_ok (args_ok E (snd k)) (safe_cb E k) m" "(tr_inv c w \<and> covers k (monitors w)) \<and> monitors w = monitors w"
      "args_ok E (snd k) zero_args"
    using Cons.prems(1) by (simp_all add: sys_inv_def)
  have "event_ok E (snd k) ev" using Cons.prems(2) by simp
  from nwm.step_ok[OF inv(3,2,1) event_ok_args[OF this]] obtain m1 w1 where
    1: "sys_step E ev (m, w) = Inr (m1, w1)" "tr_inv c w1" "covers k (monitors w1)" "monitors w1 = monitors w"
      "monitor_ok (args_ok E (snd k)) (safe_cb E k) m1" by blast
  then have "sys_inv E c k (m1, w1)" using inv(3) by (simp add: sys_inv_def)
  moreover have "networkMonitors w1 = networkMonitors w" using 1(4) by (simp add: monitors_def)
  ultimately show ?case using Cons.IH[of m1 w1] Cons.prems(2) 1(1) sys_step_observers(1)[OF 1(1)] by auto
qed simp

lemma recv_undefined:
  assumes "nm_ok (True, []) (networkMonitors w ! i)" "i < length (networkMonitors w)"
    and "inj_on (SYS E) (set socketcalls)" "call \<in> {''RECV'', ''RECVFROM''}" "arg0 args = SYS E call"
  shows "socketcallNetworkCallback i E n args w = Inl Undefined"
proof -
  let ?nm = "networkMonitors w ! i"
  have sc: "set socketcalls = {''SOCKET'', ''CONNECT'', ''BIND'', ''LISTEN'', ''ACCEPT'', ''GETSOCKNAME'', ''GETPEERNAME'',
      ''SEND'', ''RECV'', ''SENDTO'', ''RECVFROM'', ''SHUTDOWN'', ''SETSOCKOPT'', ''GETSOCKOPT'', ''SENDMSG'', ''RECVMSG''}"
    by (simp add: socketcalls_def)
  have inj: "SYS E x = SYS E y \<longleftrightarrow> x = y" if "x \<in> set socketcalls" "y \<in> set socketcalls" for x y
    using inj_on_eq_iff[OF assms(3) that] .
  have recv: "net_recv E i ?nm args w = Inl Undefined"
    using assms(1) by (auto simp: net_recv_def sock_arg_def nm_ok_def net_notifyForRead_def find_address_def Let_def
        split: if_splits)
  have rem: "remember_socket E args 4 ?nm = Inr ?nm \<or> remember_socket E args 4 ?nm = Inl Undefined"
    using assms(1) by (auto simp: remember_socket_def sock_arg_def sockaddr_address_def find_address_def nm_ok_def)
  show ?thesis
    using assms(4)
  proof (elim insertE emptyE)
    assume "call = ''RECV''"
    then show ?thesis
      using assms(2,5) recv by (simp add: socketcallNetworkCallback_def Let_def inj sc)
  next
    assume "call = ''RECVFROM''"
    then show ?thesis
      using assms(2,5) recv rem by (auto simp: socketcallNetworkCallback_def Let_def inj sc)
  qed
qed

lemma incomparable_undefined:
  assumes "a \<in> fst ` set (addressObservers nm)" "NetworkAddress_cmp a b" "NetworkAddress_cmp b a"
    and "sock_arg E args k = Inr x" "sockaddr_address E x = Inr b"
  shows "remember_socket E args k nm = Inl Undefined"
proof -
  have "\<not> strict_weak_on NetworkAddress_cmp (b # map fst (addressObservers nm))"
    unfolding strict_weak_on_iff using assms(1-3) by (auto simp: comparable_def)
  then show ?thesis using assms(4,5)
    by (auto simp: remember_socket_def find_address_def sock_arg_def split: if_splits)
qed

lemma connect_undefined:
  assumes "i < length (networkMonitors w)" "key_cover as (networkMonitors w ! i)" "inj_on (SYS E) (set socketcalls)"
    and "arg0 args = SYS E ''CONNECT''" "sock_arg E args 1 = Inr x" "sockaddr_address E x = Inr b"
    and "a \<in> set as" "NetworkAddress_cmp a b" "NetworkAddress_cmp b a"
  shows "socketcallNetworkCallback i E n args w = Inl Undefined"
proof -
  obtain a' where a': "a' \<in> fst ` set (addressObservers (networkMonitors w ! i))" "addr_equiv a a'"
    using assms(2,7) unfolding key_cover_def by blast
  then have "NetworkAddress_cmp a' b" "NetworkAddress_cmp b a'"
    using assms(8,9) by (simp_all add: addr_equiv_iff NetworkAddress_cmp_def)
  from incomparable_undefined[OF a'(1) this assms(5,6)]
  have "remember_socket E args 1 (networkMonitors w ! i) = Inl Undefined" .
  moreover have "SYS E ''CONNECT'' \<noteq> SYS E ''SOCKET''"
    using inj_on_eq_iff[OF assms(3), of "''CONNECT''" "''SOCKET''"] by (simp add: socketcalls_def)
  ultimately show ?thesis using assms(1,4) by (simp add: socketcallNetworkCallback_def Let_def)
qed

end
