(* ===== verification/Config_Props.thy ===== *)
theory Config_Props
  imports Framework
begin

text \<open>
  Round trips of the configuration: decimal numbers and whole documents are read back as they
  were written.
\<close>

section \<open>Numbers printed and read back\<close>

lemma digit_char_digit:
  assumes "d < 10"
  shows "is_digit (digit_char d)" "of_char (digit_char d) - 48 = int d"
proof -
  have "d \<in> set [0..<10]" using assms by simp
  then have "is_digit (digit_char d) \<and> of_char (digit_char d) - 48 = int d"
    by (simp add: upt_rec) (elim disjE; simp add: digit_char_def is_digit_def)
  then show "is_digit (digit_char d)" "of_char (digit_char d) - 48 = int d" by simp_all
qed

lemma digits_value_append:
  "list_all is_digit xs \<Longrightarrow> digits_value k (xs @ ys) = digits_value (digits_value k xs) ys"
  by (induction xs arbitrary: k) (simp_all add: is_digit_def)

lemma show_base_digits: "list_all is_digit (show_base 10 n) \<and> digits_value 0 (show_base 10 n) = int n \<and> show_base 10 n \<noteq> []"
proof (induction n rule: less_induct)
  case (less n)
  show ?case
  proof (cases "n < 10")
    case True
    then show ?thesis using digit_char_digit[of n] by (simp add: show_base.simps is_digit_def)
  next
    case False
    then have IH: "list_all is_digit (show_base 10 (n div 10))" "digits_value 0 (show_base 10 (n div 10)) = int (n div 10)"
      using less[of "n div 10"] by simp_all
    have d: "n mod 10 < 10" by simp
    have "digits_value 0 (show_base 10 n) = 10 * int (n div 10) + int (n mod 10)"
      using False digits_value_append[OF IH(1)] IH(2) digit_char_digit[OF d] by (simp add: show_base.simps[of 10 n] is_digit_def)
    also have "\<dots> = int n" by presburger
    finally show ?thesis using False IH(1) digit_char_digit[OF d] by (simp add: show_base.simps[of 10 n])
  qed
qed

lemma digit_not_special:
  "is_digit c \<Longrightarrow> c \<noteq> CHR '' '' \<and> \<not> (CHR 0x09 \<le> c \<and> c \<le> CHR 0x0D) \<and> c \<noteq> CHR ''-'' \<and> c \<noteq> CHR ''+''"
proof -
  assume "is_digit c"
  then have "48 \<le> (of_char c :: nat)" by (simp add: is_digit_def less_eq_char_def)
  then show ?thesis by (auto simp: less_eq_char_def)
qed

lemma convertTo_show_dec: "int n < 2 ^ 31 \<Longrightarrow> convertTo_int (show_dec n) = Inr (int n)"
proof -
  assume n: "int n < 2 ^ 31"
  obtain c cs where s: "show_dec n = c # cs" "is_digit c"
    using show_base_digits[of n] by (cases "show_dec n") (auto simp: show_dec_def)
  have "list_all is_digit (c # cs)" "digits_value 0 (c # cs) = int n"
    using show_base_digits[of n] s(1) by (simp_all add: show_dec_def)
  moreover have sp: "\<not> (c = CHR '' '' \<or> CHR 0x09 \<le> c \<and> c \<le> CHR 0x0D)" "c \<noteq> CHR ''-''" "c \<noteq> CHR ''+''"
    using digit_not_special[OF s(2)] by blast+
  moreover from sp(1) have dw: "dropWhile (\<lambda>c. c = CHR '' '' \<or> CHR 0x09 \<le> c \<and> c \<le> CHR 0x0D) (c # cs) = c # cs"
    by (simp only: dropWhile.simps if_False)
  ultimately show ?thesis using n unfolding s(1) convertTo_int_def Let_def dw by simp
qed

section \<open>Configurations printed and read back\<close>

text \<open>The document that describes a configuration, in the format of \<open>parseConfig\<close>.\<close>

definition text_element :: "string \<Rightarrow> string \<Rightarrow> xml" where
  "text_element n t = Element n [] [TextNode t]"

definition bool_text :: "bool \<Rightarrow> string" where
  "bool_text b = (if b then ''true'' else ''false'')"

definition source_xml :: "source \<Rightarrow> xml" where
  "source_xml src = Element ''source'' [(''type'', src_type src)]
     (text_element ''granularity'' (granularity src) # map (text_element ''detail'') (details src))"

definition config_xml :: "config \<Rightarrow> xml" where
  "config_xml conf = Element ''dytan-config'' []
     [Element ''sources'' [] (map source_xml (sources conf) @ [text_element ''taint-marks'' (num_markings conf)]),
      Element ''propagation'' [] [text_element ''dataflow'' (bool_text (dataflow (conf_prop conf))),
        text_element ''controlflow'' (bool_text (controlflow (conf_prop conf)))],
      Element ''profiling'' [] [text_element ''marks'' (bool_text (prof_marks (conf_prof conf))),
        text_element ''markop'' (bool_text (prof_markop (conf_prof conf)))]]"

lemma bool_text_true [simp]: "bool_text b = ''true'' \<longleftrightarrow> b"
  by (simp add: bool_text_def)

lemma node_text_element:
  "getString [TextNode t] = Some t \<Longrightarrow> node_text getString (text_element n t) = Inr t"
  by (simp add: node_text_def text_element_def)

lemma text_element_sel [simp]:
  "node_name (text_element n t) = n" "is_element (text_element n t)"
  by (simp_all add: text_element_def)

lemma parse_details:
  assumes "\<forall>t. getString [TextNode t] = Some t"
  shows "rfold (parse_source_child getString) (map (text_element ''detail'') ds) src = Inr (src\<lparr>details := details src @ ds\<rparr>)"
  using assms by (induction ds arbitrary: src) (simp_all add: parse_source_child_def node_text_element)

lemma parse_source_xml:
  assumes "\<forall>t. getString [TextNode t] = Some t"
  shows "parse_source getString (source_xml src) = Inr src"
  using assms parse_details[OF assms]
  by (simp add: parse_source_def source_xml_def parse_source_child_def node_text_element)

lemma parse_sources_loop:
  assumes "\<forall>t. getString [TextNode t] = Some t"
  shows "rfold (\<lambda>c conf.
         if node_name c = ''source'' then
           rbind (parse_source getString c) (\<lambda>src. Inr (conf\<lparr>sources := sources conf @ [src]\<rparr>))
         else if node_name c = ''taint-marks'' then
           rbind (node_text getString c) (\<lambda>t. Inr (conf\<lparr>num_markings := t\<rparr>))
         else Inr conf) (map source_xml srcs) conf = Inr (conf\<lparr>sources := sources conf @ srcs\<rparr>)"
proof (induction srcs arbitrary: conf)
  case (Cons src srcs)
  have "node_name (source_xml src) = ''source''" by (simp add: source_xml_def)
  then show ?case using parse_source_xml[OF assms] Cons.IH by simp
qed simp

lemma parseSources_xml:
  assumes "\<forall>t. getString [TextNode t] = Some t"
  shows "parseSources getString (Element ''sources'' [] (map source_xml srcs @ [text_element ''taint-marks'' n])) conf =
    Inr (conf\<lparr>sources := sources conf @ srcs, num_markings := n\<rparr>)"
  unfolding parseSources_def node_children.simps rfold_append parse_sources_loop[OF assms]
  using assms by (simp add: node_text_element)

lemma parseConfig_xml:
  assumes "\<forall>t. getString [TextNode t] = Some t" "sources conf0 = []"
  shows "parseConfig getString (Some (Some (config_xml conf))) conf0 = Inr (0, conf)"
  using assms parseSources_xml[OF assms(1)]
  by (simp add: parseConfig_def config_xml_def parsePropagation_def parseProfiling_def node_text_element)


text \<open>What \<open>convertTo<int>\<close> accepts, as a description of the text: white space, a sign, digits and nothing
  behind them, with a value that is an \<open>int\<close>.\<close>

definition is_space :: "char \<Rightarrow> bool" where
  "is_space c \<longleftrightarrow> c = CHR '' '' \<or> CHR 0x09 \<le> c \<and> c \<le> CHR 0x0D"

definition int_text :: "string \<Rightarrow> int \<Rightarrow> bool" where
  "int_text x v \<longleftrightarrow> (\<exists>ws sg ds. x = ws @ sg @ ds \<and> list_all is_space ws \<and> sg \<in> {[], ''+'', ''-''} \<and>
     ds \<noteq> [] \<and> list_all is_digit ds \<and> v = (if sg = ''-'' then - digits_value 0 ds else digits_value 0 ds) \<and>
     - (2 ^ 31) \<le> v \<and> v < 2 ^ 31)"

lemma dropWhile_space:
  assumes "list_all is_space ws" "t = [] \<or> \<not> is_space (hd t)"
  shows "dropWhile (\<lambda>c. c = CHR '' '' \<or> CHR 0x09 \<le> c \<and> c \<le> CHR 0x0D) (ws @ t) = t"
proof -
  have "dropWhile is_space (ws @ t) = t"
    using assms by (induction ws) (auto simp: dropWhile_eq_self_iff)
  then show ?thesis by (simp only: is_space_def[abs_def])
qed

lemma int_text_convert: "int_text x v \<Longrightarrow> convertTo_int x = Inr v"
proof -
  assume "int_text x v"
  then obtain ws sg d ds where x: "x = ws @ sg @ d # ds" "list_all is_space ws" "sg \<in> {[], ''+'', ''-''}"
      "list_all is_digit (d # ds)" "v = (if sg = ''-'' then - digits_value 0 (d # ds) else digits_value 0 (d # ds))"
      "- (2 ^ 31) \<le> v" "v < 2 ^ 31"
    unfolding int_text_def by (metis neq_Nil_conv)
  have d: "\<not> is_space d" "d \<noteq> CHR ''-''" "d \<noteq> CHR ''+''"
    using x(4) digit_not_special[of d] by (auto simp: is_space_def)
  have "\<not> is_space (hd (sg @ d # ds))" using x(3) d(1) by (auto simp: is_space_def less_eq_char_def)
  with x(1,2) have t: "dropWhile (\<lambda>c. c = CHR '' '' \<or> CHR 0x09 \<le> c \<and> c \<le> CHR 0x0D) x = sg @ d # ds"
    by (simp only: dropWhile_space simp_thms)
  show ?thesis using x(3-7) d(2,3) unfolding convertTo_int_def Let_def t by (auto simp del: digits_value.simps)
qed

lemma convert_int_text: "convertTo_int x = Inr v \<Longrightarrow> int_text x v"
proof -
  assume c: "convertTo_int x = Inr v"
  define t where "t = dropWhile is_space x"
  define ds where "ds = (case t of [] \<Rightarrow> [] | c # cs \<Rightarrow> if c = CHR ''-'' \<or> c = CHR ''+'' then cs else t)"
  define sg where "sg = (case t of [] \<Rightarrow> [] | c # cs \<Rightarrow> if c = CHR ''-'' \<or> c = CHR ''+'' then [c] else [])"
  have t: "dropWhile (\<lambda>c. c = CHR '' '' \<or> CHR 0x09 \<le> c \<and> c \<le> CHR 0x0D) x = t"
    by (simp only: t_def is_space_def[abs_def])
  have "x = takeWhile is_space x @ sg @ ds" by (cases t) (auto simp: ds_def sg_def t_def[symmetric], metis takeWhile_dropWhile_id t_def append_Nil2, (metis takeWhile_dropWhile_id t_def)+)
  moreover have "list_all is_space (takeWhile is_space x)" by (auto simp: list_all_iff dest: set_takeWhileD)
  moreover have "sg \<in> {[], ''+'', ''-''}" by (cases t) (auto simp: sg_def)
  moreover have "sg = ''-'' \<longleftrightarrow> (case t of [] \<Rightarrow> False | c # cs \<Rightarrow> c = CHR ''-'')" by (cases t) (auto simp: sg_def)
  ultimately show ?thesis
    using c unfolding convertTo_int_def Let_def t ds_def[symmetric] int_text_def
    by (intro exI[of _ "takeWhile is_space x"] exI[of _ sg] exI[of _ ds]) (auto split: if_splits)
qed

lemma convertTo_int_iff: "convertTo_int x = Inr v \<longleftrightarrow> int_text x v"
  using int_text_convert convert_int_text by blast

lemma convertTo_int_error: "(\<nexists>v. int_text x v) \<Longrightarrow> convertTo_int x = Inl (Abort ''BadConversion'')"
  by (cases "convertTo_int x") (auto simp: convertTo_int_iff, simp add: convertTo_int_def Let_def split: if_splits)

lemma leftover_not_int: "\<not> is_digit c \<Longrightarrow> \<nexists>v. int_text (show_dec n @ c # y) v"
proof
  assume c: "\<not> is_digit c" and "\<exists>v. int_text (show_dec n @ c # y) v"
  then obtain ws sg ds where x: "show_dec n @ c # y = ws @ sg @ ds" "list_all is_space ws" "sg \<in> {[], ''+'', ''-''}"
      "list_all is_digit ds" by (auto simp: int_text_def)
  obtain d k where s: "show_dec n = d # k" "is_digit d" "list_all is_digit k"
    using show_base_digits[of n] by (cases "show_dec n") (auto simp: show_dec_def)
  have "ws = []" using x(1,2) s(1,2) digit_not_special[OF s(2)] by (cases ws) (auto simp: is_space_def)
  moreover have "sg = []" using x(1,3) s(1) digit_not_special[OF s(2)] \<open>ws = []\<close> by auto
  ultimately have "list_all is_digit (show_dec n @ c # y)" using x(1,4) by simp
  with c show False by simp
qed

end
