(* ===== verification/Samples.thy ===== *)
theory Samples
  imports Instrument_IMA Dominance Tool Instrument_Semantics Profiling Trace_Log Control_Flow Penumbra File_Tracking Network_Limits Config_Props
begin

text \<open>
  Concrete inputs on which the properties are evaluated: a small taint state with eight
  marks, an instruction with two register operands, the machine values of one execution, an
  environment with the numbers of the Linux ia32 system calls that matter here, and a
  configuration with one observed file.
\<close>

definition sample_bits :: "size_t \<Rightarrow> bitset" where
  "sample_bits w = \<lparr>bits = [w], nbits = 8\<rparr>"

text \<open>\<open>EAX\<close> has mark 1, \<open>EBX\<close> has marks 0 and 2, the byte at address 16 has mark 3.\<close>

definition sample_state :: taint_state where
  "sample_state = \<lparr>regTaintMap = [REG_EAX \<mapsto> sample_bits 2, REG_EBX \<mapsto> sample_bits 5],
     memTaintMap = [16 \<mapsto> sample_bits 8], controlTaintMap = [], slots = (\<lambda>x. sample_bits 0),
     NUMBER_OF_TAINT_MARKS = 8, taintGen = Some (new_TaintGenerator 0 8), profiling_marks = False,
     profiling_markop = False, word_mode = False, word_size = 0, profilingMap = [], prof_log = '''', prof_ok = True,
     prof_base = 10, prof_stream = ''''\<rparr>"

definition sample_pin :: pin_regs where
  "sample_pin = \<lparr>REG_valid = (\<lambda>r. r \<noteq> REG_INVALID), REG_StringShort = (\<lambda>r. ''reg'')\<rparr>"

definition sample_ins :: "opcode \<Rightarrow> REG \<Rightarrow> REG \<Rightarrow> INS" where
  "sample_ins opc r q = \<lparr>INS_Opcode = opc, INS_OperandIsReg = (\<lambda>k. True), INS_OperandIsMemory = (\<lambda>k. False),
     INS_OperandIsImmediate = (\<lambda>k. False), INS_OperandReg = (\<lambda>k. if k = 0 then r else q),
     INS_OperandMemoryBaseReg = (\<lambda>k. REG_INVALID), INS_OperandMemoryIndexReg = (\<lambda>k. REG_INVALID),
     INS_IsMemoryRead = True, INS_IsMemoryWrite = True, INS_OperandWidth = (\<lambda>k. 32), INS_OperandCount = 2,
     INS_OperandIsImplicit = (\<lambda>k. False), INS_HasRealRep = False, INS_RepPrefix = False, INS_RepnePrefix = False\<rparr>"

definition sample_machine :: machine where
  "sample_machine = \<lparr>memoryread_ea = 32, memoryread2_ea = 32, memoryread_size = 4, memorywrite_ea = 32,
     memorywrite_size = 4, reg_value = (\<lambda>r. 0), load_word = (\<lambda>a. 0)\<rparr>"

definition sample_env :: sys_env where
  "sample_env = \<lparr>SYS = (\<lambda>n. case map_of [(''read'', 3), (''write'', 4), (''open'', 5), (''close'', 6),
       (''socketcall'', 102), (''fstat64'', 197), (''SOCKET'', 1), (''BIND'', 2), (''CONNECT'', 3),
       (''RECV'', 10), (''RECVMSG'', 17)] n of Some k \<Rightarrow> k | None \<Rightarrow> 1000),
     sizeof_stat64 = 96, sizeof_timeval = 8, sizeof_timezone = 8, sizeof_sigaction = 140, sizeof_sigset_t = 128,
     sizeof_time_t = 4, sizeof_utsname = 390, can_read = (\<lambda>a. a \<noteq> 0), cstring = (\<lambda>a. ''input.txt''), load32 = (\<lambda>a. 2),
     sin_port = (\<lambda>a. 0), s_addr = (\<lambda>a. 0), inet_addr = (\<lambda>s. 0)\<rparr>"

definition sample_conf :: config where
  "sample_conf = \<lparr>sources = [\<lparr>src_type = ''path'', granularity = ''PerByte'', details = [''input.txt'']\<rparr>],
     num_markings = ''8'', conf_prop = \<lparr>dataflow = True, controlflow = True\<rparr>,
     conf_prof = \<lparr>prof_marks = False, prof_markop = False\<rparr>\<rparr>"

definition sample_junk :: gen_fields where
  "sample_junk = \<lparr>gen_start = 7, gen_current = 7, gen_max = 7\<rparr>"

lemma sample_bits_wf: "w < 256 \<Longrightarrow> bitset_wf 8 (sample_bits w)"
proof -
  assume w: "w < 256"
  have "\<not> bit w j" if "8 \<le> j" for j
  proof -
    have "unat w < 2 ^ 8" using w by (simp add: word_less_nat_alt)
    also have "(2::nat) ^ 8 \<le> 2 ^ j" using that by (rule power_increasing) simp
    finally have "unat w div 2 ^ j = 0" by simp
    then have "\<not> bit (unat w) j" by (simp add: bit_iff_odd)
    then show ?thesis by (simp add: bit_unsigned_iff)
  qed
  then show ?thesis
    by (auto simp: bitset_wf_def sample_bits_def nbits_ok_def BITSET_USED_def BITSET_BITS_def not_less[symmetric])
qed

lemma sample_state_inv: "state_inv sample_state"
proof -
  have n: "num_marks sample_state = 8" by (simp add: num_marks_def sample_state_def)
  show ?thesis
    unfolding state_inv_def n
    by (auto simp: sample_state_def wf_map_def stdmap_inv_def sample_bits_wf split: if_splits)
qed

lemma sample_gen_ok: "gen_ok sample_state"
  by (simp add: gen_ok_def sample_state_def new_TaintGenerator_def)

lemma sample_bits_marks: "w < 256 \<Longrightarrow> marks (sample_bits w) = {i. i < 8 \<and> bit w i}"
  by (auto simp: marks_def sample_bits_def)

lemma sample_marks:
  "marks (sample_bits 2) = {1}" "marks (sample_bits 5) = {0, 2}" "marks (sample_bits 8) = {3}"
  "regTaintMap sample_state REG_EAX = Some (sample_bits 2)" "regTaintMap sample_state REG_EBX = Some (sample_bits 5)"
  "memTaintMap sample_state 16 = Some (sample_bits 8)"
proof -
  have l: "i < 8 \<longleftrightarrow> i = 0 \<or> i = 1 \<or> i = 2 \<or> i = 3 \<or> i = 4 \<or> i = 5 \<or> i = 6 \<or> i = 7" for i :: nat by auto
  show "marks (sample_bits 2) = {1}" "marks (sample_bits 5) = {0, 2}" "marks (sample_bits 8) = {3}"
    by (auto simp: sample_bits_marks l)
qed (simp_all add: sample_state_def)

lemma sample_ctl: "ctl_marks (tview sample_state) = {}"
  by (simp add: ctl_marks_def tview_def sample_state_def)


text \<open>The sample state with marks 0 and 2 in the source slot.\<close>

definition sample_src :: taint_state where
  "sample_src = set_slot Src (sample_bits 5) sample_state"

lemma sample_src_inv: "state_inv sample_src"
proof -
  have "num_marks sample_state = 8" by (simp add: num_marks_def sample_state_def)
  then show ?thesis unfolding sample_src_def by (intro set_slot_inv[OF sample_state_inv]) (simp add: sample_bits_wf)
qed

lemma sample_src_marks:
  "slot_marks sample_src Src = {0, 2}" "slot_marks sample_src Dest = {}" "reg_marks sample_src REG_EAX = {1}"
  "ctl_marks (tview sample_src) = {}"
  using sample_ctl by (simp_all add: sample_src_def slot_marks_def reg_marks_def tview_set_slot ctl_marks_def sample_marks
      sample_bits_marks sample_state_def)

text \<open>The sample state after a comparison of a value with mark 1: the flags carry it.\<close>

definition sample_flags :: taint_state where
  "sample_flags = sample_state\<lparr>regTaintMap := [REG_EFLAGS \<mapsto> sample_bits 2]\<rparr>"

lemma sample_flags_inv: "state_inv sample_flags"
proof -
  have n: "num_marks sample_flags = 8" by (simp add: num_marks_def sample_state_def sample_flags_def)
  show ?thesis
    using sample_state_inv unfolding state_inv_def n
    by (auto simp: sample_flags_def sample_state_def wf_map_def stdmap_inv_def sample_bits_wf split: if_splits)
qed

text \<open>The sample state with two open branches, at 12 and at 20.\<close>

definition sample_open :: taint_state where
  "sample_open = sample_state\<lparr>controlTaintMap := [(12, sample_bits 2), (20, sample_bits 8)]\<rparr>"

lemma sample_open_inv: "state_inv sample_open"
proof -
  have n: "num_marks sample_open = 8" by (simp add: num_marks_def sample_state_def sample_open_def)
  show ?thesis
    using sample_state_inv unfolding state_inv_def n
    by (auto simp: sample_open_def sample_state_def wf_map_def stdmap_inv_def sample_bits_wf split: if_splits)
qed

lemma sample_open_ctl: "ctl_marks (tview sample_open) = {1, 3}"
  using ctl_marks_entries[of sample_open] state_invD(7)[OF sample_open_inv]
  by (simp add: sample_open_def sample_marks insert_commute)


text \<open>Distinct numbers for the observed system calls and the socket calls: their positions in a list.\<close>

definition call_list :: "string list" where
  "call_list = map fst (main_observers :: (string \<times> tracker callback) list) @ socketcalls"

definition entry_no :: "string \<Rightarrow> nat" where
  "entry_no n = length (takeWhile (\<lambda>x. x \<noteq> n) call_list)"

lemma takeWhile_before: "n \<in> set xs \<Longrightarrow> length (takeWhile (\<lambda>m. m \<noteq> n) xs) < length xs"
  by (induction xs) auto

lemma sample_numbers: "inj_on (\<lambda>n. 1 + of_nat (entry_no n) :: 32 word) (set call_list)"
proof (rule inj_onI)
  have l: "length call_list \<le> 100" by (simp add: call_list_def main_observers_def socketcalls_def)
  fix x y assume xy: "x \<in> set call_list" "y \<in> set call_list" "(1 + of_nat (entry_no x) :: 32 word) = 1 + of_nat (entry_no y)"
  have nth: "call_list ! entry_no n = n \<and> entry_no n < 100" if "n \<in> set call_list" for n
    using length_takeWhile_nth[OF that] takeWhile_before[OF that] l unfolding entry_no_def by linarith
  have "(of_nat (entry_no x) :: 32 word) = of_nat (entry_no y)" using xy(3) by simp
  then have "unat (of_nat (entry_no x) :: 32 word) = unat (of_nat (entry_no y) :: 32 word)" by (rule arg_cong)
  then have "entry_no x = entry_no y"
    using nth[OF xy(1), THEN conjunct2] nth[OF xy(2), THEN conjunct2] by (simp add: unat_of_nat)
  with nth[OF xy(1)] nth[OF xy(2)] show "x = y" by metis
qed

definition numbered_env :: sys_env where
  "numbered_env = sample_env\<lparr>SYS := \<lambda>n. 1 + of_nat (entry_no n)\<rparr>"

lemma observed_in_list: "observed_names \<subseteq> set call_list" "set socketcalls \<subseteq> set call_list"
  by (auto simp: observed_names_def call_list_def main_observers_def)

lemma numbered_env_inj: "inj_on (SYS numbered_env) observed_names" "inj_on (SYS numbered_env) (set socketcalls)"
  using inj_on_subset[OF sample_numbers observed_in_list(1)] inj_on_subset[OF sample_numbers observed_in_list(2)]
  by (simp_all add: numbered_env_def)

lemma numbered_env_zero: "0 \<notin> {SYS numbered_env ''open'', SYS numbered_env ''socketcall''}"
proof -
  have "(1 + of_nat (entry_no n) :: 32 word) \<noteq> 0" if "n \<in> set call_list" for n
  proof -
    have "entry_no n < 100"
      using takeWhile_before[OF that] by (simp add: entry_no_def call_list_def main_observers_def socketcalls_def)
    then have "unat (1 + of_nat (entry_no n) :: 32 word) = 1 + entry_no n"
      by (simp add: unat_word_ariths unat_of_nat)
    then show ?thesis by auto
  qed
  moreover have "''open'' \<in> set call_list" "''socketcall'' \<in> set call_list"
    by (simp_all add: call_list_def main_observers_def)
  ultimately show ?thesis by (fastforce simp: numbered_env_def)
qed

text \<open>The string at address 64 is the path of one file, all others are that of another.\<close>

definition two_files_env :: sys_env where
  "two_files_env = numbered_env\<lparr>cstring := \<lambda>a. if a = 64 then ''input.txt'' else ''other.txt''\<rparr>"

section \<open>Network sources\<close>

text \<open>The program connects to an address with the number 1.\<close>

definition far_env :: sys_env where
  "far_env = numbered_env\<lparr>s_addr := \<lambda>a. 1\<rparr>"

text \<open>A file, all connections, and the connections with one address; one event of the program connects
  to another address.\<close>

definition sample_net_conf :: config where
  "sample_net_conf = sample_conf\<lparr>sources := sources sample_conf @
     [\<lparr>src_type = ''network'', granularity = ''PerRead'', details = [''*'']\<rparr>,
      \<lparr>src_type = ''network'', granularity = ''PerByte'', details = [''127.0.0.1'', ''80'']\<rparr>]\<rparr>"

lemma sample_port: "atoi ''80'' = Inr 80" "atoi ''90'' = Inr 90"
  by code_simp+

definition sample_address :: NetworkAddress where
  "sample_address = \<lparr>ip = 0, port = 80, strAddress = ''127.0.0.1 : 80''\<rparr>"

lemma sample_addresses:
  "inet_addr E = (\<lambda>s. 0) \<Longrightarrow> detail_addresses E [''127.0.0.1'', ''80''] = Inr [sample_address]"
  by (simp add: make_address_def sample_port sample_address_def)

lemma sample_strict: "strict_weak_on NetworkAddress_cmp [sample_address]"
  "strict_weak_on NetworkAddress_cmp [\<lparr>ip = 0, port = 0, strAddress = x\<rparr>, sample_address]"
  by (simp_all add: strict_weak_on_iff comparable_def NetworkAddress_cmp_def sample_address_def word_sless_alt)

lemma sample_net_conf_ok:
  "list_all (src_ok sample_env) (sources sample_net_conf)"
  "net_policies sample_env sample_net_conf = [(True, []), (False, [sample_address])]"
  using sample_addresses[of sample_env] sample_strict(1)
  by (simp_all add: sample_net_conf_def sample_conf_def src_ok_def net_policies_def source_policies_def sample_env_def
      del: detail_addresses.simps)

lemma sample_net_args:
  assumes "arg0 args = 3 \<or> arg0 args = 10 \<and> \<not> fst p" "arg1 args = 64" "p \<in> {(True, []), (False, [sample_address])}"
  shows "net_args_ok sample_env args p"
proof -
  have "SYS sample_env ''CONNECT'' = 3" "SYS sample_env ''RECVFROM'' = 1000" "SYS sample_env ''RECV'' = 10"
    by (simp_all add: sample_env_def)
  moreover have "strict_weak_on NetworkAddress_cmp [a]" for a by (simp add: strict_weak_on_iff comparable_def NetworkAddress_cmp_def)
  moreover have "sockaddr_address sample_env 2 = Inr \<lparr>ip = 0, port = 0, strAddress = []\<rparr>"
      "load32 sample_env = (\<lambda>a. 2)" "can_read sample_env 2" "can_read sample_env 64"
    by (simp_all add: sockaddr_address_def sample_env_def ntohs_def)
  ultimately show ?thesis using assms sample_strict(2) by (auto simp: net_args_ok_def)
qed

lemma sample_socketcalls: "3 \<in> SYS sample_env ` known_socketcalls" "10 \<in> SYS sample_env ` known_socketcalls"
proof -
  have "SYS sample_env ''CONNECT'' = 3" "SYS sample_env ''RECV'' = 10" by (simp_all add: sample_env_def)
  then show "3 \<in> SYS sample_env ` known_socketcalls" "10 \<in> SYS sample_env ` known_socketcalls"
    by (force simp: known_socketcalls_def socketcalls_def)+
qed

section \<open>A routine with two branches\<close>

text \<open>
  The instructions at 16 to 21: the branches at 17 and 18 jump to 19 and 20, the jump at 20
  goes to 21, and 19 and 21 return. Block 0 holds the branch at 17, block 1 is the return
  block, and the blocks 2 to 5 start at 18 to 21.
\<close>

definition routine_ins :: "ADDRINT \<Rightarrow> rtn_ins" where
  "routine_ins a = \<lparr>INS_Address = a, INS_IsBranch = False, INS_IsDirectBranchOrCall = False,
     INS_DirectBranchOrCallTargetAddress = 0, INS_HasFallThrough = True, INS_NextAddress = a + 1, INS_IsCall = False,
     INS_IsRet = False, INS_IsCondBr = False\<rparr>"

definition routine_jcc :: "ADDRINT \<Rightarrow> ADDRINT \<Rightarrow> rtn_ins" where
  "routine_jcc a t = (routine_ins a)\<lparr>INS_IsBranch := True, INS_IsDirectBranchOrCall := True,
     INS_DirectBranchOrCallTargetAddress := t, INS_IsCondBr := True\<rparr>"

definition routine_jmp :: "ADDRINT \<Rightarrow> ADDRINT \<Rightarrow> rtn_ins" where
  "routine_jmp a t = (routine_ins a)\<lparr>INS_IsBranch := True, INS_IsDirectBranchOrCall := True,
     INS_DirectBranchOrCallTargetAddress := t, INS_HasFallThrough := False\<rparr>"

definition routine_ret :: "ADDRINT \<Rightarrow> rtn_ins" where
  "routine_ret a = (routine_ins a)\<lparr>INS_HasFallThrough := False, INS_IsRet := True\<rparr>"

definition sample_routine :: "rtn_ins list" where
  "sample_routine = [routine_ins 16, routine_jcc 17 19, routine_jcc 18 20, routine_ret 19, routine_jmp 20 21, routine_ret 21]"

text \<open>The memory of a new block happens to be zero.\<close>

definition sample_uninit :: uninit where
  "sample_uninit p = \<lparr>junk_isEntry = 0, junk_Dominator = None, junk_PostDominator = None\<rparr>"

lemmas routine_ins_defs = sample_routine_def routine_ins_def routine_jcc_def routine_jmp_def routine_ret_def

lemma sample_routine_addresses:
  "distinct (map INS_Address sample_routine)" "INS_Address ` set sample_routine \<inter> flags = {}"
  by (simp_all add: routine_ins_defs flags_def)

definition sample_block :: "ADDRINT \<Rightarrow> ADDRINT \<Rightarrow> block list \<Rightarrow> block list \<Rightarrow> basic_block" where
  "sample_block a e preds succs = (new_BasicBlock (sample_uninit 0))
     \<lparr>startingAddress := a, endingAddress := e, predecessors := preds, successors := succs\<rparr>"

definition sample_heap :: heap where
  "sample_heap = [setAsEntryNode (sample_block 16 17 [] [2, 3]), sample_block 2 2 [3, 5] [], sample_block 18 18 [0] [3, 4],
     sample_block 19 19 [0, 2] [1], sample_block 20 20 [2] [5], sample_block 21 21 [4] [1]]"

definition sample_graph :: routine_graph where
  "sample_graph = \<lparr>blocks = sample_heap, addressMap = [16 \<mapsto> 0, 2 \<mapsto> 1, 17 \<mapsto> 0, 18 \<mapsto> 2, 19 \<mapsto> 3, 20 \<mapsto> 4, 21 \<mapsto> 5],
     allBlocks = [0, 1, 2, 3, 4, 5],
     branches = (\<lambda>a. [])(17 := [18, 19], 18 := [19, 20], 19 := [2], 20 := [21], 21 := [2]),
     targets = (\<lambda>a. [])(18 := [17], 19 := [17, 18], 20 := [18], 21 := [20]),
     EntranceNode = Some 0, ReturnNode = Some 1\<rparr>"

lemma sample_mapper: "fold mapper sample_routine empty_graph = empty_graph
    \<lparr>branches := branches sample_graph, targets := targets sample_graph\<rparr>"
  by (simp add: routine_ins_defs sample_graph_def mapper_def add_fall_through_def add_branch_def add_target_def addr_insert_def
      empty_graph_def fun_upd_twist)

lemma sample_BlockBuilder:
  "BlockBuilder sample_uninit (\<lambda>a. None) sample_routine (fold mapper sample_routine empty_graph) = Inr sample_graph"
  unfolding sample_mapper
  by (simp add: empty_graph_def routine_ins_defs sample_graph_def sample_heap_def sample_block_def sample_uninit_def
      BranchIns_def Get_BasicBlock_At_def new_block_def upd_block_def map_address_def add_block_def link_def link_via_def
      next_address_def special_block_def BlockBuilder_def upd_def new_BasicBlock_def setStarting_def setEnding_def
      setAsEntryNode_def insertPreds_def insertSuccs_def ptr_insert_def deref_def Let_def)
    (simp add: numeral_eq_Suc)

lemma sample_tree:
  "rbind (buildPostDominanceTree word_of_nat 6 6 1 [] sample_heap)
     (\<lambda>h. Inr (map PostDominator h, map startingAddress h, map predecessors h)) =
   Inr ([Some 3, None, Some 1, Some 1, Some 5, Some 1], [16, 2, 18, 19, 20, 21], [[], [3, 5], [0], [0, 2], [2], [4]])"
  by code_simp

lemma sample_graph_sel:
  "blocks sample_graph = sample_heap" "length sample_heap = 6" "ReturnNode sample_graph = Some 1"
  "addressMap sample_graph = [16 \<mapsto> 0, 2 \<mapsto> 1, 17 \<mapsto> 0, 18 \<mapsto> 2, 19 \<mapsto> 3, 20 \<mapsto> 4, 21 \<mapsto> 5]"
  by (simp_all add: sample_graph_def sample_heap_def)

lemma sample_initializeRoutineInfo:
  obtains h where "initializeRoutineInfo word_of_nat sample_uninit (\<lambda>a. None) sample_routine = Inr (sample_graph\<lparr>blocks := h\<rparr>)"
    "map PostDominator h = [Some 3, None, Some 1, Some 1, Some 5, Some 1]"
    "map startingAddress h = [16, 2, 18, 19, 20, 21]" "map predecessors h = [[], [3, 5], [0], [0, 2], [2], [4]]"
proof -
  obtain h where h: "buildPostDominanceTree word_of_nat 6 6 1 [] sample_heap = Inr h"
      and p: "map PostDominator h = [Some 3, None, Some 1, Some 1, Some 5, Some 1]"
        "map startingAddress h = [16, 2, 18, 19, 20, 21]" "map predecessors h = [[], [3, 5], [0], [0, 2], [2], [4]]"
    using iffD1[OF rbind_eq_Inr sample_tree] by (elim exE conjE) simp
  have "initializeRoutineInfo word_of_nat sample_uninit (\<lambda>a. None) sample_routine = Inr (sample_graph\<lparr>blocks := h\<rparr>)"
    unfolding initializeRoutineInfo_def sample_BlockBuilder rbind.simps sample_graph_sel option.case h ..
  from this p show thesis by (rule that)
qed

text \<open>The block of instruction 19 is taken for the post-dominator of the branch at 17, although the flow
  can avoid it through 18, 20 and 21.\<close>

lemma post_dominator_can_be_avoided:
  "\<exists>g. initializeRoutineInfo word_of_nat sample_uninit (\<lambda>a. None) sample_routine = Inr g \<and>
     addressMap g 17 = Some 0 \<and> addressMap g 19 = Some 3 \<and> ReturnNode g = Some 1 \<and> post_dominator_of g 17 = 19 \<and>
     {(0, 2), (2, 4), (4, 5), (5, 1)} \<subseteq> flow_edges (blocks g)"
proof -
  obtain h where h: "initializeRoutineInfo word_of_nat sample_uninit (\<lambda>a. None) sample_routine = Inr (sample_graph\<lparr>blocks := h\<rparr>)"
    and p: "map PostDominator h = [Some 3, None, Some 1, Some 1, Some 5, Some 1]"
      "map startingAddress h = [16, 2, 18, 19, 20, 21]" "map predecessors h = [[], [3, 5], [0], [0, 2], [2], [4]]"
    by (rule sample_initializeRoutineInfo)
  have l: "length h = 6" using arg_cong[OF p(1), of length] by simp
  have n: "f (h ! i) = map f h ! i" if "i < 6" for f :: "basic_block \<Rightarrow> 'a" and i using that l by simp
  have "post_dominator_of (sample_graph\<lparr>blocks := h\<rparr>) 17 = 19"
    using n[of 0 PostDominator] n[of 3 startingAddress] by (simp add: post_dominator_of_def sample_graph_sel p)
  moreover have "{(0, 2), (2, 4), (4, 5), (5, 1)} \<subseteq> flow_edges h"
    using n[of 1 predecessors] n[of 2 predecessors] n[of 4 predecessors] n[of 5 predecessors] by (simp add: flow_edges_def l p)
  ultimately show ?thesis using h by (auto simp: sample_graph_sel)
qed

text \<open>The dominators of the same routine. Block 2 (at 18) still counts the block at 19 among those that it
  dominates, although the dominator of that block is the entry.\<close>

lemma dominated_stale:
  "rbind (buildDominanceTree word_of_nat 6 6 0 [] sample_heap) (\<lambda>h. Inr (map Dominator h, map (\<lambda>b. map fst (dominated b)) h)) =
   Inr ([None, Some 0, Some 0, Some 0, Some 2, Some 4],
        [[2, 18, 19, 20, 21], [], [2, 19, 20, 21], [2], [2, 21], [2]])"
  by code_simp

lemma sample_Controlflow:
  "Controlflow word_of_nat sample_uninit (\<lambda>a. None) False sample_routine = Inr [Push_at 17, Push_at 18, Pop_at 19 1 [17]]"
proof -
  obtain h where h: "initializeRoutineInfo word_of_nat sample_uninit (\<lambda>a. None) sample_routine = Inr (sample_graph\<lparr>blocks := h\<rparr>)"
    and p: "map PostDominator h = [Some 3, None, Some 1, Some 1, Some 5, Some 1]" "map startingAddress h = [16, 2, 18, 19, 20, 21]"
    by (rule sample_initializeRoutineInfo)
  have l: "length h = 6" using arg_cong[OF p(1), of length] by simp
  have n: "f (h ! i) = map f h ! i" if "i < 6" for f :: "basic_block \<Rightarrow> 'a" and i using that l by simp
  have "branch_block (sample_graph\<lparr>blocks := h\<rparr>) 17 = Inr 19" "branch_block (sample_graph\<lparr>blocks := h\<rparr>) 18 = Inr 2"
    using n[of 0 PostDominator] n[of 2 PostDominator] n[of 3 startingAddress] n[of 1 startingAddress]
    by (simp_all add: branch_block_def deref_def l p sample_graph_sel)
  then show ?thesis
    unfolding Controlflow_def h rbind.simps
    by (simp add: routine_ins_defs push_branch_def pop_branches_def addr_insert_def Let_def)
qed

text \<open>Two allocations in one block, the pointer of each stored once, for the pass of
  \<open>InstrumentIMA.cpp\<close>.\<close>

fun next_node :: "ir_value list list \<Rightarrow> ir_value \<Rightarrow> ir_value option" where
  "next_node ((x # y # b) # bs) v = (if x = v then Some y else next_node ((y # b) # bs) v)"
| "next_node (b # bs) v = next_node bs v"
| "next_node [] v = None"

definition insert_before :: "ir_value \<Rightarrow> ir_value \<Rightarrow> ir_value list list \<Rightarrow> ir_value list list" where
  "insert_before y v bs = (let k = length (takeWhile (\<lambda>b. y \<notin> set b) bs); b = bs ! k;
       n = length (takeWhile (\<lambda>x. x \<noteq> y) b) in take k bs @ (take n b @ v # drop n b) # drop (Suc k) bs)"

definition sample_llvm :: llvm_function where
  "sample_llvm = \<lparr>kind_of = (\<lambda>n. if n < 2 then Call_kind (Some ''malloc'') else if n < 4 then Store_kind else Return_kind),
     getOperand = (\<lambda>is v k. case v of Given n \<Rightarrow> if k = 0 then Given (n - 2) else Given (n + 10) | _ \<Rightarrow> v),
     arg_operand_of = (\<lambda>n k. Int32 8),
     uses_of = (\<lambda>is v. if v = Given 0 then [Given 2] else if v = Given 1 then [Given 3] else []),
     getNextNode = next_node, insert_inst = insert_before\<rparr>"

definition sample_ir :: ima_state where
  "sample_ir = \<lparr>ir_body = [[Given 0, Given 1, Given 2, Given 3, Given 4]], created = [], declared = [],
     ir_globals = [], errs = ''''\<rparr>"

lemma next_node_in: "next_node bs v = Some y \<Longrightarrow> y \<in> set (concat bs)"
  by (induction bs v rule: next_node.induct) (auto split: if_splits)

lemma insert_before_at:
  assumes "y \<notin> set (concat bs1 @ pre)"
  shows "insert_before y v (bs1 @ (pre @ y # post) # bs2) = bs1 @ (pre @ v # y # post) # bs2"
proof -
  have "takeWhile (\<lambda>b. y \<notin> set b) (bs1 @ (pre @ y # post) # bs2) = bs1"
    using assms by (subst takeWhile_append2) auto
  moreover have "takeWhile (\<lambda>x. x \<noteq> y) (pre @ y # post) = pre"
    using assms by (subst takeWhile_append2) auto
  ultimately show ?thesis by (simp add: insert_before_def Let_def nth_append)
qed

lemma sample_llvm_insertion_ok: "insertion_ok sample_llvm"
  unfolding insertion_ok_def sample_llvm_def using insert_before_at next_node_in by simp

end
