(* ===== verification/Spec2Isabelle.thy ===== *)
theory Spec2Isabelle
  imports Samples
begin

text \<open>
  \<^bold>\<open>A verified model of Dytan, a dynamic taint tracker for x86 programs\<close>

  The tool under \<open>src/dytan\<close> is a Pin tool. It attaches sets of taint marks to the registers
  and to the bytes of memory of a running program, takes new marks from files, network
  connections, the arguments of \<open>main\<close> and calls of the program itself, moves the marks
  along with the data at every instruction, adds the marks of the branches that are open, and
  reports marks on request or in a profile. This development models the tool as functions on
  explicit state, with failed assertions, aborts, exits and undefined behaviour of the code as
  error values, and proves the properties C1 to C40 below of those functions.

  \<^bold>\<open>Parts of the program and the theories that model them\<close>

  \<^item> \<open>Prelude\<close>: result values (\<open>error + 'a\<close>), loops that may fail (\<open>rfold\<close>), ranges of
    32-bit addresses, printed numbers, and the interface \<open>safe_step\<close> / \<open>refines_step\<close> of
    steps that keep an invariant (and refine an abstract step).
  \<^item> \<open>Std_Map\<close>: \<open>std::map\<close> where its order matters, as a sorted list behind the interface
    \<open>ordered_map\<close>.
  \<^item> \<open>Bitset\<close>: \<open>bitset.cpp\<close>. A bitset is its array of 32-bit words and its size; every
    operation is the word loop of the code. \<open>marks\<close> abstracts a bitset to the set of its
    marks, and the interface \<open>mark_sets\<close> is what the taint operations rely on.
  \<^item> \<open>Taint_Generator\<close>: \<open>taint_generator.h\<close>, the generators of marks.
  \<^item> \<open>Taint_State\<close>: the globals of \<open>dytan.cpp\<close> as one record and the analysis routines
    that run at every instruction (\<open>TaintForRegister\<close>, \<open>TaintForMemory\<close>, \<open>SetTaintForRegister\<close>,
    \<open>SetTaintForMemory\<close>, \<open>ClearTaintForRegister\<close>, \<open>ClearTaintForMemory\<close>, \<open>ClearTaintSet\<close>,
    \<open>PushControl\<close>, \<open>PopControl\<close>, \<open>SetNewTaintForMemory\<close>, \<open>SetNewTaintStart\<close>), with what
    they write to the profile. \<open>Taint_Refine\<close> gives the abstract state (sets of marks for
    registers, bytes, branches and slots), the invariant \<open>state_inv\<close>, and for each routine the
    proof that it never fails, keeps the invariant and refines its abstract version.
    \<open>Profiling\<close> does the same for the counters of the profile, \<open>Trace_Log\<close> for the log that the
    routines write while the flag \<open>tracing\<close> is set (\<open>main\<close> clears it and \<open>SetTrace\<close> changes it):
    writing it never fails and never changes the taint.
  \<^item> \<open>Instrument\<close>, \<open>Instrument_Functions\<close>: \<open>instrument_functions.c\<close>. A handler is a
    function from what Pin knows of an instruction to the list of analysis calls it inserts and
    how it ends (normally, by an early return, by \<open>abort\<close>); \<open>instrument_entries\<close> is the
    dispatch table of \<open>main\<close> and \<open>Dataflow\<close> the lookup. \<open>Instrument_Props\<close> shows for all
    handlers that the calls are well-formed, that they read no slot before writing it, and that
    they never add marks; \<open>Instrument_Semantics\<close> computes what individual handlers do.
  \<^item> \<open>Syscall_Monitor\<close>: \<open>syscall_monitor.H\<close> and \<open>syscall_functions.cpp\<close>. System calls
    are sequences of begin and end events of threads; observers are functions on the state of
    the tracker; \<open>monitored\<close> is the contract between the monitor and its observers.
  \<^item> \<open>Taint_Source_Path\<close>: \<open>monitor_path.cpp\<close>, \<open>taint_source_path.cpp\<close>;
    \<open>Taint_Source_Network\<close>: \<open>monitor_network.cpp\<close>, \<open>taint_source_network.cpp\<close>;
    \<open>Function_Taint_Source\<close>: \<open>taint_source_func.cpp\<close>;
    \<open>Replace_Functions\<close>: \<open>replace_functions.cpp\<close>, \<open>taint_func_args.cpp\<close>.
  \<^item> \<open>Framework\<close>: \<open>config_parser.cpp\<close>, \<open>set_framework_options\<close> and what \<open>main\<close> sets up.
    \<open>System_Props\<close> shows that every observer is safe and that start-up establishes the
    invariant, \<open>File_Tracking\<close> and \<open>Network_Tracking\<close> follow a file and a connection from
    the configuration to the taint of the bytes read, \<open>Network_Limits\<close> shows where a source of the
    network leaves defined behaviour, \<open>Config_Props\<close> has the round trips.
  \<^item> \<open>Tool\<close>: the running tool as steps on one state: an executed instruction, a branch, a
    join, an entry of \<open>main\<close>, a system call event, a call of the user interface.
  \<^item> \<open>Basic_Block\<close>, \<open>Routine_Graph\<close>: \<open>BasicBlock.H\<close>, \<open>RoutineGraph.H\<close> and \<open>Controlflow\<close> of
    \<open>dytan.cpp\<close>, which decide at which addresses branches are opened and closed. Blocks live on
    an explicit heap, a pointer is an index into it. \<open>Post_Dominance\<close> shows that the third pass
    ends with a tree of post-dominators, \<open>Block_Builder\<close> that the second pass establishes what
    the third needs, \<open>Control_Flow\<close> where the calls are placed. \<open>Dominance\<close> models the
    counterparts for dominators, which nothing calls; both trees are instances of the interface
    \<open>parent_tree\<close>.
  \<^item> \<open>Penumbra\<close>: \<open>penumbra.cpp\<close>, the second tool of the makefile, an earlier version of
    \<open>dytan.cpp\<close>, with the embedding \<open>as_dytan\<close> of its state into that of \<open>dytan.cpp\<close>.
  \<^item> \<open>Instrument_IMA\<close>: \<open>InstrumentIMA.cpp\<close>, a pass of LLVM that inserts calls of the user
    interface around the allocations of a program, as a function on the blocks of a function.
  \<^item> \<open>Samples\<close>: the concrete states on which the witnesses evaluate.

  \<^bold>\<open>How state and operations correspond to the code\<close>

  Each global variable is a field of \<open>taint_state\<close>; each function of the code is one definition
  of the same name that returns the new state. Pointers to bitsets in maps are never shared, so
  maps hold the bitsets themselves. Addresses, sizes and registers are 32-bit words and wrap
  around as in the code; an address range whose end wraps is empty, as the loop \<open>addr < start +
  size\<close> makes it. Marks are C \<open>int\<close>s. What the tool takes from Pin, from the operating system
  and from libxml2 (the numbers of system calls, the memory of the program, the operands and the
  opcode of an instruction, the text of a node) is a parameter of the definitions.

  Undefined behaviour of the C++ code is the error \<open>Undefined\<close>: following a null pointer or an iterator
  to the end, varargs that were not passed, a remainder by zero, an overflowing increment of a
  generator, a missing vector element, a number that \<open>atoi\<close> cannot represent, following a pointer that the
  program passed to a system call when it cannot be read (\<open>can_read\<close> of \<open>sys_env\<close>), and an operation of
  the \<open>std::map\<close> of observed addresses when its comparator is not a strict weak order on the keys
  involved (\<open>strict_weak_on\<close>). The vector of arguments of \<open>main\<close> and its strings are placed by the
  operating system and are taken to be readable. Counters of the profile and the position of a byte in
  an access are 32-bit words.

  \<^bold>\<open>What the properties show\<close>

  C1: from start-up on, no sequence of events makes the tool fail, and all marks stay in range.
  C2 to C6: what holds of the calls of every instruction (refinement, no leaks from scratch
  slots, no invented marks, frame, well-formed calls). C7 to C11: individual handlers, among them the
  conditional moves that never propagate. C12: the configurations that start-up cannot process, and
  the system calls after which a source of the network fails. C13 to C19: the analysis
  routines. C20: the profile. C21 to C24: bitsets and generators. C25 to C30: sources of taint and system calls.
  C31 to C33: the interface for the monitored program and the arguments of \<open>main\<close>. C34, C35: the
  control flow graph and the placement of branches. C36, C37: \<open>penumbra.cpp\<close>. C38, C39:
  configuration. C40: the LLVM pass.

  \<^bold>\<open>Termination and bounds\<close>

  All loops of the model are structural recursions or have a termination proof: ranges of
  addresses by the distance to their end, \<open>clear_run\<close> by the number of tainted bytes. Only the
  walks of \<open>BasicBlock.H\<close> along chains of pointers and the queue of \<open>buildPostDominanceTree\<close> have
  fuel, the number of blocks, and running out of it is an error; C34 shows that this never
  happens. The number of marks is at most 4096, the value of
  \<open>NUMBER_OF_TAINT_MARKS\<close> at start-up; the invariant only needs it below \<open>2 ^ 31\<close>.

  \<^bold>\<open>Not modelled\<close>

  The log of \<open>penumbra.cpp\<close> (the definition of \<open>TRACE\<close> in this file is commented out), the calls that start Pin, \<open>cleanup\<close> and the
  destructors (they only release memory and close files). C1 to C33 hold for all addresses at which
  branches are opened and closed, not only for those that \<open>Controlflow\<close> chooses. The printing of blocks in
  \<open>BasicBlock.H\<close> is not used by the tool. \<open>sample\<close> and \<open>subjects\<close> hold programs to analyse.
\<close>

section \<open>The whole tool\<close>

text \<open>C1: started with a configuration file whose number of taint marks is \<open>1\<close> or lies between 1 and
  4096 and whose sources have what they need (\<open>src_ok\<close>: a source of paths names a path or the
  wildcard; a source of the network is the wildcard or lists pairs of an address and a port, where the
  port is an \<open>int\<close> and the comparator of the map is a strict order on the addresses), the tool never
  fails: whatever finite sequence of instructions, branches, joins, system calls, API calls and
  entries of \<open>main\<close> it observes, every event succeeds, the invariant of the taint state holds
  afterwards, and every mark of a register or of a byte is below the number of marks. The events
  are those that \<open>tool_event_ok\<close> admits: no handler aborts at instrumentation time, varargs are as
  announced, the path of an \<open>open\<close> can be read, socket calls are among those the handler knows, the
  pointers that \<open>connect\<close>, \<open>recv\<close> and \<open>recvfrom\<close> are followed through can be read, the address of a
  \<open>connect\<close> or \<open>recvfrom\<close> is comparable with the observed ones, and under the wildcard of the network
  nothing is received through a socket call. (C12 shows that the tool does fail otherwise.) When both
  kinds of profiling are configured, the profile stays empty, even after the fini function.
  Without a file that can be parsed the tool ends with exit code 1.\<close>

theorem tool_run_safe:
  assumes "markings_ok (num_markings conf)" "list_all (src_ok E) (sources conf)"
    and "0 \<notin> {SYS E ''open'', SYS E ''socketcall''}"
    and "list_all (tool_event_ok E xed (net_policies E conf)) evs"
    and "\<forall>t. getString [TextNode t] = Some t" "sources conf0 = []"
  shows "tool_main E junk uninit cb getString None conf0 = Inl (Exit 1) \<and>
    (\<exists>st st' s. tool_main E junk uninit cb getString (Some (Some (config_xml conf))) conf0 = Inr (conf, st) \<and>
    rfold (tool_step E xed P conf) evs st = Inr st' \<and> s = taint (snd (fst st')) \<and> state_inv s \<and>
    (\<forall>a. mem_marks s a \<subseteq> {..<nat (NUMBER_OF_TAINT_MARKS s)}) \<and>
    (\<forall>r. reg_marks s r \<subseteq> {..<nat (NUMBER_OF_TAINT_MARKS s)}) \<and>
    (prof_marks (conf_prof conf) \<and> prof_markop (conf_prof conf) \<longrightarrow> prof_log (PrintProfilingResult s) = []))"
proof -
  obtain st c n where st: "tool_start E junk uninit cb conf = Inr st" "tool_inv E c (n, net_policies E conf) st"
      and silent: "prof_marks (conf_prof conf) \<and> prof_markop (conf_prof conf) \<longrightarrow> silent_cfg c"
    using tool_start_ok[OF assms(1-3), of junk uninit cb] by blast
  obtain st' where st': "rfold (tool_step E xed P conf) evs st = Inr st'" "tool_inv E c (n, net_policies E conf) st'"
    using tool.run_safe[OF st(2), of xed evs P conf] assms(4) by auto
  then have "state_inv (taint (snd (fst st')))"
    by (auto simp: tool_inv_def sys_inv_def tr_inv_def source_inv_def)
  moreover have "tool_main E junk uninit cb getString (Some (Some (config_xml conf))) conf0 = Inr (conf, st)"
    using parseConfig_xml[OF assms(5,6)] st(1) by (simp add: tool_main_def)
  moreover have "tool_main E junk uninit cb getString None conf0 = Inl (Exit 1)"
    by (simp add: tool_main_def parseConfig_def)
  ultimately show ?thesis using st'(1) state_inv_mark_bounds silent silent_log[OF st'(2)] by blast
qed

theorem tool_run_safe_witness:
  "\<exists>st st' s. tool_main sample_env sample_junk (sample_bits 0) None (\<lambda>xs. case xs of [TextNode t] \<Rightarrow> Some t | _ \<Rightarrow> None)
      (Some (Some (config_xml sample_net_conf))) (sample_conf\<lparr>sources := []\<rparr>) = Inr (sample_net_conf, st) \<and>
    rfold (tool_step sample_env position sample_pin sample_net_conf)
      [Syscall (SysBefore 1 5 64 0 0 0 0 0), Syscall (SysAfter 1 4 0),
       Syscall (SysBefore 1 3 4 80 2 0 0 0), Syscall (SysAfter 1 2 0),
       Syscall (SysBefore 1 102 3 64 0 0 0 0), Syscall (SysAfter 1 0 0), At_branch 12, At_join 1 [12],
       Api (Call_tag 80 4 7)] st = Inr st' \<and>
    s = taint (snd (fst st')) \<and> state_inv s \<and>
    (\<forall>a. mem_marks s a \<subseteq> {..<nat (NUMBER_OF_TAINT_MARKS s)}) \<and>
    (\<forall>r. reg_marks s r \<subseteq> {..<nat (NUMBER_OF_TAINT_MARKS s)}) \<and>
    (prof_marks (conf_prof sample_net_conf) \<and> prof_markop (conf_prof sample_net_conf) \<longrightarrow>
      prof_log (PrintProfilingResult s) = [])"
proof (rule conjunct2[OF tool_run_safe])
  have "convertTo_int ''8'' = Inr 8" by code_simp
  then show "markings_ok (num_markings sample_net_conf)" by (simp add: markings_ok_def sample_net_conf_def sample_conf_def)
  show "list_all (src_ok sample_env) (sources sample_net_conf)" by (rule sample_net_conf_ok(1))
  show "0 \<notin> {SYS sample_env ''open'', SYS sample_env ''socketcall''}" by (simp add: sample_env_def)
  have n: "SYS sample_env ''open'' = 5" "SYS sample_env ''socketcall'' = 102" "can_read sample_env 64"
    by (simp_all add: sample_env_def)
  from sample_socketcalls(1) show "list_all (tool_event_ok sample_env position (net_policies sample_env sample_net_conf))
      [Syscall (SysBefore 1 5 64 0 0 0 0 0), Syscall (SysAfter 1 4 0),
       Syscall (SysBefore 1 3 4 80 2 0 0 0), Syscall (SysAfter 1 2 0),
       Syscall (SysBefore 1 102 3 64 0 0 0 0), Syscall (SysAfter 1 0 0), At_branch 12, At_join 1 [12],
       Api (Call_tag 80 4 7)]"
    by (simp add: args_ok_def n sample_net_args sample_net_conf_ok(2))
qed simp_all

section \<open>Instructions\<close>

text \<open>C2: for every instruction (every entry of the dispatch table and the default handler) and
  every machine state, the calls that the data flow instrumentation inserts run without
  failure from a state that satisfies the invariant, keep it and the settings, and change
  registers, memory, control taint and slots exactly as the same sequence of operations on
  sets of marks; the profiling output has no influence. With tracing on, the same calls with their
  output to the log succeed too, give the same taint and only append to the log.\<close>

theorem Dataflow_run_refines:
  assumes "state_inv s"
  shows "\<exists>s'. run_inserted P M (fst (Dataflow xed ins)) s = Inr s' \<and> state_inv s' \<and> cfg s' = cfg s \<and>
    tview s' = v_run P M (fst (Dataflow xed ins)) (tview s) \<and>
    (\<forall>tracing l. \<exists>l' txt. traced_run tracing P M (fst (Dataflow xed ins)) (s, l) = Inr (s', l') \<and>
      log_text l' = log_text l @ txt)"
  using run_inserted_refines[OF assms Dataflow_calls_ok, of P M xed ins]
    traced_run_same[OF assms Dataflow_calls_ok, of P M xed ins] by (fastforce simp: steps_to_def)

theorem Dataflow_run_refines_witness:
  "\<exists>s'. run_inserted sample_pin sample_machine (fst (Dataflow position (sample_ins (position ''ADD'') REG_EAX REG_EBX)))
      sample_state = Inr s' \<and> state_inv s' \<and> cfg s' = cfg sample_state \<and>
    tview s' = v_run sample_pin sample_machine
      (fst (Dataflow position (sample_ins (position ''ADD'') REG_EAX REG_EBX))) (tview sample_state)"
  using Dataflow_run_refines[OF sample_state_inv] by blast

text \<open>C3: the eight global bitsets are scratch space. Two states with the same taint of
  registers, memory and open branches have the same taint again after the calls of any
  instruction, whatever the slots held before and however profiling is configured: no
  marks of one instruction leak into the next one.\<close>

theorem Dataflow_no_residual_marks:
  assumes "state_inv s" "state_inv t" "v_store (tview s) = v_store (tview t)"
  shows "\<exists>s' t'. run_inserted P M (fst (Dataflow xed ins)) s = Inr s' \<and>
    run_inserted P M (fst (Dataflow xed ins)) t = Inr t' \<and> v_store (tview s') = v_store (tview t')"
proof -
  have "agree {} (tview s) (tview t)" using assms(3) by (simp add: agree_def v_store_def)
  from Dataflow_slots_irrelevant[OF this, of P M xed ins] show ?thesis
    using run_inserted_refines[OF assms(1) Dataflow_calls_ok, of P M xed ins]
      run_inserted_refines[OF assms(2) Dataflow_calls_ok, of P M xed ins]
    by (auto simp: steps_to_def agree_def v_store_def)
qed

theorem Dataflow_no_residual_marks_witness:
  "\<exists>s' t'. run_inserted sample_pin sample_machine (fst (Dataflow position (sample_ins (position ''ADD'') REG_EAX REG_EBX)))
      sample_state = Inr s' \<and>
    run_inserted sample_pin sample_machine (fst (Dataflow position (sample_ins (position ''ADD'') REG_EAX REG_EBX)))
      (set_slot Src (sample_bits 255) sample_state) = Inr t' \<and> v_store (tview s') = v_store (tview t')"
proof (rule Dataflow_no_residual_marks)
  have "num_marks sample_state = 8" by (simp add: num_marks_def sample_state_def)
  then show "state_inv (set_slot Src (sample_bits 255) sample_state)"
    by (intro set_slot_inv sample_state_inv) (simp add: sample_bits_wf)
  show "v_store (tview sample_state) = v_store (tview (set_slot Src (sample_bits 255) sample_state))"
    by (simp add: v_store_def tview_set_slot)
qed (rule sample_state_inv)

text \<open>C4: an instruction never invents taint: every mark that a register, a byte of memory or an
  open branch has after its calls was on some register, byte or open branch before.\<close>

theorem Dataflow_no_invented_marks:
  assumes "state_inv s" "run_inserted P M (fst (Dataflow xed ins)) s = Inr s'"
  shows "live_marks (tview s') \<subseteq> live_marks (tview s)"
  using run_inserted_refines[OF assms(1) Dataflow_calls_ok, of P M xed ins] assms(2) live_marks_Dataflow
  by (auto simp: steps_to_def)

theorem Dataflow_no_invented_marks_witness:
  "\<exists>s'. run_inserted sample_pin sample_machine (fst (Dataflow position (sample_ins (position ''ADD'') REG_EAX REG_EBX)))
      sample_state = Inr s' \<and> live_marks (tview s') \<subseteq> live_marks (tview sample_state)"
proof -
  obtain s' where "run_inserted sample_pin sample_machine
      (fst (Dataflow position (sample_ins (position ''ADD'') REG_EAX REG_EBX))) sample_state = Inr s'"
    using run_inserted_refines[OF sample_state_inv Dataflow_calls_ok] by (rule steps_toE)
  with Dataflow_no_invented_marks[OF sample_state_inv this] show ?thesis by blast
qed

text \<open>C5: frame of an instruction. Its calls change the taint of memory at most in the range that
  the instruction writes, they never change the taint of the open branches, and they never
  give the stack pointer or the frame pointer a taint entry.\<close>

theorem Dataflow_frame:
  assumes "state_inv s" "run_inserted P M (fst (Dataflow xed ins)) s = Inr s'"
  shows "(\<forall>a. a \<notin> {memorywrite_ea M..<memorywrite_ea M + memorywrite_size M} \<longrightarrow> mem_marks s' a = mem_marks s a) \<and>
    v_ctl (tview s') = v_ctl (tview s) \<and>
    (\<forall>r. r \<in> {REG_ESP, REG_EBP} \<and> regTaintMap s r = None \<longrightarrow> regTaintMap s' r = None)"
proof -
  have t: "tview s' = v_run P M (fst (Dataflow xed ins)) (tview s)"
    using run_inserted_refines[OF assms(1) Dataflow_calls_ok, of P M xed ins] assms(2) by (auto simp: steps_to_def)
  note frame = v_run_frame[OF Dataflow_calls_ok, where P = P and M = M and v = "tview s"]
  have "\<forall>a. a \<notin> {memorywrite_ea M..<memorywrite_ea M + memorywrite_size M} \<longrightarrow> mem_marks s' a = mem_marks s a"
    unfolding mem_marks_def t using frame(2) by metis
  moreover have "v_ctl (tview s') = v_ctl (tview s)" unfolding t by (rule frame(1))
  moreover have "v_reg (tview s') r = None" if "r = REG_ESP \<or> r = REG_EBP" "v_reg (tview s) r = None" for r
    unfolding t using that by (rule frame(3))
  ultimately show ?thesis by (intro conjI) simp_all
qed

theorem Dataflow_frame_witness:
  "\<exists>s'. run_inserted sample_pin sample_machine (fst (Dataflow position (sample_ins (position ''ADD'') REG_EAX REG_EBX)))
      sample_state = Inr s' \<and> mem_marks s' 16 = mem_marks sample_state 16 \<and> regTaintMap s' REG_ESP = None"
proof -
  obtain s' where s': "run_inserted sample_pin sample_machine
      (fst (Dataflow position (sample_ins (position ''ADD'') REG_EAX REG_EBX))) sample_state = Inr s'"
    using run_inserted_refines[OF sample_state_inv Dataflow_calls_ok] by (rule steps_toE)
  have "regTaintMap sample_state REG_ESP = None" by (simp add: sample_state_def)
  with s' Dataflow_frame[OF sample_state_inv s'] show ?thesis
    by (auto simp: sample_machine_def)
qed

text \<open>C6: the calls of every instruction are well-formed. Each passes as many bitsets as it announces
  (the routines read them with varargs), each reads only slots that an earlier call of the same
  instruction has filled, and each conditional call directly follows its condition.\<close>

theorem Dataflow_calls_well_formed:
  "list_all inserted_ok (fst (Dataflow xed ins)) \<and> defs_ok {} (fst (Dataflow xed ins)) \<and>
   then_ok False (fst (Dataflow xed ins))"
  using Dataflow_disc[of xed ins] by (simp add: disc_def)



text \<open>C8: the move handlers overwrite. The destination register (with its sub-registers)
  receives exactly the marks of the source operand and of the open branches; a destination in
  memory also receives the marks of the registers that address it. The flags, every other
  register and every other byte keep their marks, and so do \<open>ESP\<close> and \<open>EBP\<close> when one of them is the
  destination.\<close>

theorem mov_propagation:
  assumes "state_inv s" "readable_imm ins 1" "writable ins 0"
    and "h \<in> {Instrument_MOV, Instrument_MOVSX, Instrument_MOVZX, Instrument_MOVD, Instrument_MOVQ,
      Instrument_MOVDQA, Instrument_MOVDQU, Instrument_MOVAPS, Instrument_MOVHPD, Instrument_MOVLPD}"
    and "m = v_operand P M ins 1 (tview s) \<union> ctl_marks (tview s) \<union>
      (if INS_OperandIsReg ins 0 then {}
       else reg_marks s (INS_OperandMemoryBaseReg ins 0) \<union> reg_marks s (INS_OperandMemoryIndexReg ins 0))"
  shows "\<exists>s'. run_inserted P M (fst (h ins)) s = Inr s' \<and> state_inv s' \<and>
    v_store (tview s') = v_store (v_write_op M ins m (tview s))"
proof -
  have "fst (h ins) = fst (Instrument_MOV ins)"
    using assms(4) by (elim insertE) (simp_all add: Instrument_MOVSX_def Instrument_MOVZX_def Instrument_MOVD_def
        Instrument_MOVQ_def Instrument_MOVDQA_def Instrument_MOVDQU_def Instrument_MOVAPS_def Instrument_MOVHPD_def
        Instrument_MOVLPD_def)
  moreover have "disc {} (Instrument_MOV ins)" by (rule disc_handlers1)
  ultimately show ?thesis
    using run_store[OF assms(1) _ Instrument_MOV_view[OF assms(2,3,5)[unfolded reg_marks_def]]] by simp
qed

theorem mov_propagation_witness:
  "\<exists>s'. run_inserted sample_pin sample_machine (fst (Instrument_MOVZX (sample_ins 1 REG_ECX REG_EBX))) sample_state = Inr s' \<and>
    state_inv s' \<and> v_store (tview s') = v_store (v_write_reg REG_ECX {0, 2} (tview sample_state))"
proof -
  let ?i = "sample_ins 1 REG_ECX REG_EBX"
  have m: "{0, 2} = v_operand sample_pin sample_machine ?i 1 (tview sample_state) \<union> ctl_marks (tview sample_state) \<union>
      (if INS_OperandIsReg ?i 0 then {}
       else reg_marks sample_state (INS_OperandMemoryBaseReg ?i 0) \<union> reg_marks sample_state (INS_OperandMemoryIndexReg ?i 0))"
    by (simp add: sample_ins_def v_operand_def sample_marks sample_ctl)
  have "readable_imm ?i 1" "writable ?i 0"
    by (simp_all add: sample_ins_def readable_def readable_imm_def writable_def)
  from mov_propagation[OF sample_state_inv this _ m, of Instrument_MOVZX] show ?thesis
    by (simp add: v_write_op_def sample_ins_def)
qed

text \<open>C9: stack round trip. Pushing a register and popping the same stack bytes into another
  register (neither the stack pointer nor the frame pointer) gives that register exactly
  the marks of the first one and of the open branches, and leaves every register other than
  the popped one and its sub-registers as it was.\<close>

theorem push_pop_round_trip:
  assumes "state_inv s" "\<not> REG_valid P REG_INVALID"
    and "INS_OperandIsReg i1 0" "INS_IsMemoryWrite i1" "INS_OperandIsReg i2 0" "INS_IsMemoryRead i2"
    and "memoryread_ea M2 = memorywrite_ea M1" "memoryread_size M2 = memorywrite_size M1"
    and "memorywrite_ea M1 < memorywrite_ea M1 + memorywrite_size M1"
    and "INS_OperandReg i2 0 \<notin> {REG_ESP, REG_EBP}"
  shows "\<exists>s1 s2. run_inserted P M1 (fst (Instrument_PUSH i1)) s = Inr s1 \<and>
    run_inserted P M2 (fst (Instrument_POP i2)) s1 = Inr s2 \<and>
    reg_marks s2 (INS_OperandReg i2 0) = reg_marks s (INS_OperandReg i1 0) \<union> ctl_marks (tview s) \<and>
    (\<forall>r. r \<notin> set (INS_OperandReg i2 0 # subregisters (INS_OperandReg i2 0)) \<longrightarrow> reg_marks s2 r = reg_marks s r)"
proof -
  let ?W = "{memorywrite_ea M1..<memorywrite_ea M1 + memorywrite_size M1}"
  let ?m = "reg_marks s (INS_OperandReg i1 0) \<union> ctl_marks (tview s)"
  have r: "readable_imm i1 0" using assms(3) by (simp add: readable_imm_def readable_def)
  have d: "disc {} (Instrument_PUSH i1)" "disc {} (Instrument_POP i2)" by (rule disc_handlers1 disc_handlers2)+
  obtain s1 where s1: "run_inserted P M1 (fst (Instrument_PUSH i1)) s = Inr s1" "state_inv s1"
      "v_store (tview s1) = v_store (v_put_mem ?W ?m (tview s))"
    using run_store[OF assms(1) d(1) Instrument_PUSH_view[OF r assms(4)]] assms(3)
    by (auto simp: v_operand_def reg_marks_def)
  obtain s2 where s2: "run_inserted P M2 (fst (Instrument_POP i2)) s1 = Inr s2"
      "v_store (tview s2) = v_store (v_write_reg (INS_OperandReg i2 0)
        (v_mem_marks P (memoryread_ea M2) (memoryread_size M2) REG_INVALID REG_INVALID (tview s1) \<union>
          ctl_marks (tview s1)) (tview s1))"
    using run_store[OF s1(2) d(2) Instrument_POP_reg_view[OF assms(6,5)]] by auto
  have reg1: "v_reg (tview s1) = v_reg (tview s)" and mem1: "v_mem (tview s1) = v_mem (v_put_mem ?W ?m (tview s))"
    and ctl1: "ctl_marks (tview s1) = ctl_marks (tview s)"
    using s1(3) by (simp_all add: v_store_def v_put_mem_def ctl_marks_def)
  have "?W \<noteq> {}" using assms(9) by auto
  then have "v_mem_marks P (memoryread_ea M2) (memoryread_size M2) REG_INVALID REG_INVALID (tview s1) = ?m"
    using assms(2,7,8) by (auto simp: v_mem_marks_def mem1 v_put_mem_def)
  then have reg2: "v_reg (tview s2) = v_reg (v_write_reg (INS_OperandReg i2 0) ?m (tview s1))"
    using s2(2) ctl1 by (simp add: v_store_def Un_assoc)
  have "reg_marks s2 (INS_OperandReg i2 0) = ?m"
    unfolding reg_marks_def reg2 using assms(10) by (simp add: v_write_reg_def v_put_regs_def)
  moreover have "\<forall>r. r \<notin> set (INS_OperandReg i2 0 # subregisters (INS_OperandReg i2 0)) \<longrightarrow> reg_marks s2 r = reg_marks s r"
    unfolding reg_marks_def reg2 by (simp add: v_write_reg_def v_put_regs_def reg1)
  ultimately show ?thesis using s1(1) s2(1) by blast
qed

theorem push_pop_round_trip_witness:
  "\<exists>s1 s2. run_inserted sample_pin sample_machine (fst (Instrument_PUSH (sample_ins 1 REG_EAX REG_EAX))) sample_state = Inr s1 \<and>
    run_inserted sample_pin sample_machine (fst (Instrument_POP (sample_ins 2 REG_EDX REG_EDX))) s1 = Inr s2 \<and>
    reg_marks s2 REG_EDX = {1}"
proof -
  have "\<exists>s1 s2. run_inserted sample_pin sample_machine (fst (Instrument_PUSH (sample_ins 1 REG_EAX REG_EAX))) sample_state = Inr s1 \<and>
    run_inserted sample_pin sample_machine (fst (Instrument_POP (sample_ins 2 REG_EDX REG_EDX))) s1 = Inr s2 \<and>
    reg_marks s2 (INS_OperandReg (sample_ins 2 REG_EDX REG_EDX) 0) =
      reg_marks sample_state (INS_OperandReg (sample_ins 1 REG_EAX REG_EAX) 0) \<union> ctl_marks (tview sample_state) \<and>
    (\<forall>r. r \<notin> set (INS_OperandReg (sample_ins 2 REG_EDX REG_EDX) 0 #
      subregisters (INS_OperandReg (sample_ins 2 REG_EDX REG_EDX) 0)) \<longrightarrow> reg_marks s2 r = reg_marks sample_state r)"
    by (rule push_pop_round_trip[OF sample_state_inv]) (simp_all add: sample_pin_def sample_ins_def sample_machine_def)
  then show ?thesis by (auto simp: sample_ins_def sample_ctl reg_marks_def sample_marks)
qed

text \<open>C10: the idiom that zeroes a register. Exclusive or of a register with itself leaves on the
  register and on each of its sub-registers exactly the marks of the open branches if it had an
  entry, and no entry if it had none, while the flags still receive the marks that the register
  had (and those of the open branches). Memory and the other registers keep their marks.\<close>

theorem xor_self_clears:
  assumes "state_inv s" "INS_OperandIsReg ins 0" "INS_OperandIsReg ins 1"
    and "INS_OperandReg ins 0 = r" "INS_OperandReg ins 1 = r" "r \<noteq> REG_EFLAGS"
  shows "\<exists>s'. run_inserted P M (fst (Instrument_XOR ins)) s = Inr s' \<and> state_inv s' \<and>
    (\<forall>q \<in> set (r # subregisters r). if regTaintMap s q = None then regTaintMap s' q = None
      else regTaintMap s' q \<noteq> None \<and> reg_marks s' q = ctl_marks (tview s)) \<and>
    reg_marks s' REG_EFLAGS = reg_marks s r \<union> ctl_marks (tview s) \<and>
    (\<forall>q. q \<notin> set (REG_EFLAGS # r # subregisters r) \<longrightarrow> reg_marks s' q = reg_marks s q) \<and>
    v_mem (tview s') = v_mem (tview s)"
proof -
  have "disc {} (Instrument_XOR ins)" by (rule disc_handlers2)
  from run_store[OF assms(1) this Instrument_XOR_same_view[OF assms(2-5)]] obtain s' where
    s': "run_inserted P M (fst (Instrument_XOR ins)) s = Inr s'" "state_inv s'"
      "v_store (tview s') = v_store (v_flags (marks_of (v_reg (tview s) r) \<union> ctl_marks (tview s))
        (v_clear_regs (r # subregisters r) (ctl_marks (tview s)) (tview s)))" by blast
  have e: "REG_EFLAGS \<notin> set (r # subregisters r)" using assms(6) by (cases r) auto
  let ?R = "r # subregisters r"
  have v: "v_reg (tview s') = (\<lambda>q. if q = REG_EFLAGS then Some (reg_marks s r \<union> ctl_marks (tview s))
      else if q \<in> set ?R \<and> v_reg (tview s) q \<noteq> None then Some (ctl_marks (tview s)) else v_reg (tview s) q)"
      "v_mem (tview s') = v_mem (tview s)"
    using s'(3) by (auto simp: v_store_def v_flags_def v_put_regs_def v_clear_regs_def reg_marks_def simp del: tview_sel)
  have none: "regTaintMap t q = None \<longleftrightarrow> v_reg (tview t) q = None" for t q by simp
  have "(if regTaintMap s q = None then regTaintMap s' q = None
      else regTaintMap s' q \<noteq> None \<and> reg_marks s' q = ctl_marks (tview s))" if "q \<in> set ?R" for q
  proof -
    have "q \<noteq> REG_EFLAGS" using that e by blast
    with that show ?thesis unfolding none reg_marks_def v(1) by (simp del: tview_sel)
  qed
  moreover have "reg_marks s' REG_EFLAGS = reg_marks s r \<union> ctl_marks (tview s)"
    unfolding reg_marks_def[of s'] v(1) by simp
  moreover have "reg_marks s' q = reg_marks s q" if "q \<notin> set (REG_EFLAGS # ?R)" for q
    using that unfolding reg_marks_def v(1) by (simp del: tview_sel)
  ultimately show ?thesis using s'(1,2) v(2) by blast
qed

theorem xor_self_clears_witness:
  "\<exists>s'. run_inserted sample_pin sample_machine (fst (Instrument_XOR (sample_ins 1 REG_EAX REG_EAX))) sample_open = Inr s' \<and>
    reg_marks s' REG_EAX = {1, 3} \<and> regTaintMap s' REG_AL = None \<and> reg_marks s' REG_EFLAGS = {1, 3}"
proof -
  let ?i = "sample_ins 1 REG_EAX REG_EAX"
  have e: "regTaintMap sample_open REG_EAX \<noteq> None" "regTaintMap sample_open REG_AL = None"
      "reg_marks sample_open REG_EAX = {1}"
    by (simp_all add: sample_open_def sample_state_def reg_marks_def) (simp add: sample_marks)
  have i: "INS_OperandIsReg ?i 0" "INS_OperandIsReg ?i 1" "INS_OperandReg ?i 0 = REG_EAX" "INS_OperandReg ?i 1 = REG_EAX"
      "REG_EAX \<noteq> REG_EFLAGS" by (simp_all add: sample_ins_def)
  show ?thesis using xor_self_clears[OF sample_open_inv i, of sample_pin sample_machine] e by (auto simp: sample_open_ctl)
qed

text \<open>Exchange. For two registers of which neither is the other or one of its sub-registers,
  the exchange swaps the marks (each joined with the marks of the open branches).\<close>

theorem xchg_swaps:
  assumes "state_inv s" "INS_OperandIsReg ins 0" "INS_OperandIsReg ins 1"
    and "INS_OperandReg ins 0 = r" "INS_OperandReg ins 1 = q"
    and "r \<notin> {REG_ESP, REG_EBP}" "q \<notin> {REG_ESP, REG_EBP}" "r \<notin> set (q # subregisters q)"
  shows "\<exists>s'. run_inserted P M (fst (Instrument_XCHG ins)) s = Inr s' \<and> state_inv s' \<and>
    reg_marks s' r = reg_marks s q \<union> ctl_marks (tview s) \<and> reg_marks s' q = reg_marks s r \<union> ctl_marks (tview s) \<and>
    v_mem (tview s') = v_mem (tview s)"
proof -
  have "disc {} (Instrument_XCHG ins)" by (rule disc_handlers2)
  from run_store[OF assms(1) this Instrument_XCHG_reg_view[OF assms(2-5)]] obtain s' where
    s': "run_inserted P M (fst (Instrument_XCHG ins)) s = Inr s'" "state_inv s'"
      "v_store (tview s') = v_store (v_write_reg q (reg_marks s r \<union> ctl_marks (tview s))
        (v_write_reg r (reg_marks s q \<union> ctl_marks (tview s)) (tview s)))"
    by (auto simp: reg_marks_def)
  then have v: "v_reg (tview s') = v_reg (v_write_reg q (reg_marks s r \<union> ctl_marks (tview s))
        (v_write_reg r (reg_marks s q \<union> ctl_marks (tview s)) (tview s)))" "v_mem (tview s') = v_mem (tview s)"
    by (simp_all add: v_store_def v_write_reg_def v_put_regs_def)
  have "reg_marks s' r = reg_marks s q \<union> ctl_marks (tview s)" "reg_marks s' q = reg_marks s r \<union> ctl_marks (tview s)"
    unfolding reg_marks_def[of s'] v(1) using assms(6-8) by (simp_all add: v_write_reg_def v_put_regs_def)
  with s'(1,2) v(2) show ?thesis by blast
qed

theorem xchg_swaps_witness:
  "\<exists>s'. run_inserted sample_pin sample_machine (fst (Instrument_XCHG (sample_ins 1 REG_EAX REG_EBX))) sample_state = Inr s' \<and>
    reg_marks s' REG_EAX = {0, 2} \<and> reg_marks s' REG_EBX = {1}"
proof -
  have "\<exists>s'. run_inserted sample_pin sample_machine (fst (Instrument_XCHG (sample_ins 1 REG_EAX REG_EBX))) sample_state = Inr s' \<and>
    state_inv s' \<and> reg_marks s' REG_EAX = reg_marks sample_state REG_EBX \<union> ctl_marks (tview sample_state) \<and>
    reg_marks s' REG_EBX = reg_marks sample_state REG_EAX \<union> ctl_marks (tview sample_state) \<and>
    v_mem (tview s') = v_mem (tview sample_state)"
    by (rule xchg_swaps[OF sample_state_inv]) (simp_all add: sample_ins_def)
  then show ?thesis by (auto simp: sample_ctl reg_marks_def sample_marks)
qed

text \<open>C11: conditional moves. For an opcode that the dispatch table sends to \<open>Instrument_CMOVcc\<close>,
  the destination register (unless it is \<open>ESP\<close> or \<open>EBP\<close>, which are never written) receives the marks
  of the source operand and of the open branches exactly when the inserted condition holds of the
  flags register, and nothing changes otherwise; the conditions of \<open>CMOVNZ\<close> and \<open>CMOVNS\<close> are the architectural ones (the zero
  flag is bit 6, the sign flag is bit 7). The conditions of the moves on a set flag compare the
  masked flags with one, which the masks of other bits never give, so \<open>CMOVZ\<close>, \<open>CMOVS\<close>,
  \<open>CMOVB\<close> and \<open>CMOVBE\<close> never propagate, whatever the flags are.\<close>

theorem cmov_propagation:
  assumes "state_inv s" "readable ins 1" "inj_on xed (set opcode_names)" "(n, f) \<in> set cmov_checks"
    and "(n, Instrument_CMOVcc xed) \<in> set (instrument_entries xed)" "INS_Opcode ins = xed n"
  shows "\<exists>s'. run_inserted P M (fst (Dataflow xed ins)) s = Inr s' \<and> state_inv s' \<and>
    v_store (tview s') = v_store (if f (reg_value M REG_EFLAGS)
      then v_write_reg (INS_OperandReg ins 0) (v_operand P M ins 1 (tview s) \<union> ctl_marks (tview s)) (tview s)
      else tview s) \<and>
    (n = ''CMOVNZ'' \<longrightarrow> f (reg_value M REG_EFLAGS) = (\<not> bit (reg_value M REG_EFLAGS) 6)) \<and>
    (n = ''CMOVNS'' \<longrightarrow> f (reg_value M REG_EFLAGS) = (\<not> bit (reg_value M REG_EFLAGS) 7)) \<and>
    (n \<in> {''CMOVZ'', ''CMOVS'', ''CMOVB'', ''CMOVBE''} \<longrightarrow> v_store (tview s') = v_store (tview s))"
proof -
  have "disc {} (Instrument_CMOVcc xed ins)" by (rule disc_CMOVcc)
  from run_store[OF assms(1) this Instrument_CMOVcc_view[OF assms(2) cmov_dispatch(1)[OF assms(3,4,6)]]]
  obtain s' where "run_inserted P M (fst (Dataflow xed ins)) s = Inr s'" "state_inv s'"
      "v_store (tview s') = v_store (if f (reg_value M REG_EFLAGS)
        then v_write_reg (INS_OperandReg ins 0) (v_operand P M ins 1 (tview s) \<union> ctl_marks (tview s)) (tview s)
        else tview s)"
    unfolding cmov_dispatch(2)[OF assms(3,4,6,5)] by blast
  moreover have "(n = ''CMOVNZ'' \<longrightarrow> f = CheckCMOVNZ) \<and> (n = ''CMOVNS'' \<longrightarrow> f = CheckCMOVNS)"
    using assms(4) by (auto simp: cmov_checks_def)
  then have "(n = ''CMOVNZ'' \<longrightarrow> f (reg_value M REG_EFLAGS) = (\<not> bit (reg_value M REG_EFLAGS) 6)) \<and>
    (n = ''CMOVNS'' \<longrightarrow> f (reg_value M REG_EFLAGS) = (\<not> bit (reg_value M REG_EFLAGS) 7))"
    using cmov_checks_exact by simp
  moreover have "n \<in> {''CMOVZ'', ''CMOVS'', ''CMOVB'', ''CMOVBE''} \<longrightarrow> \<not> f (reg_value M REG_EFLAGS)"
    using assms(4) by (auto simp: cmov_checks_def cmov_checks_dead)
  ultimately show ?thesis by (intro exI[of _ s']) (simp split: if_splits)
qed

theorem cmov_propagation_witness:
  "\<exists>s'. run_inserted sample_pin sample_machine
      (fst (Dataflow position (sample_ins (position ''CMOVNZ'') REG_ECX REG_EAX))) sample_state = Inr s' \<and>
    v_store (tview s') = v_store (v_write_reg REG_ECX {1} (tview sample_state))"
proof -
  let ?i = "sample_ins (position ''CMOVNZ'') REG_ECX REG_EAX"
  have c: "(''CMOVNZ'', CheckCMOVNZ) \<in> set cmov_checks" by (simp add: cmov_checks_def)
  have e: "(''CMOVNZ'', Instrument_CMOVcc position) \<in> set (instrument_entries position)"
    by (simp add: instrument_entries_defs)
  have i: "readable ?i 1" "INS_Opcode ?i = position ''CMOVNZ''" by (simp_all add: readable_def sample_ins_def)
  have v: "(if CheckCMOVNZ (reg_value sample_machine REG_EFLAGS)
      then v_write_reg (INS_OperandReg ?i 0) (v_operand sample_pin sample_machine ?i 1 (tview sample_state) \<union>
        ctl_marks (tview sample_state)) (tview sample_state) else tview sample_state) =
      v_write_reg REG_ECX {1} (tview sample_state)"
    by (simp add: cmov_checks_exact sample_machine_def sample_ins_def v_operand_def sample_ctl sample_marks)
  show ?thesis
    using cmov_propagation[OF sample_state_inv i(1) position_inj c e i(2), of sample_pin sample_machine]
    unfolding v by blast
qed

text \<open>The conditional moves on a set flag, without the table. The conditions compare the masked
  flags with one, which the mask of bit 1, 2, 6, 7 or 11 never gives, so \<open>CMOVZ\<close>, \<open>CMOVS\<close>,
  \<open>CMOVB\<close> and \<open>CMOVBE\<close> leave the taint of all registers and of memory unchanged
  whatever the flags are, although the instruction may move a tainted value.\<close>

theorem cmov_set_flag_never_propagates:
  assumes "state_inv s" "readable ins 1" "inj_on xed (set opcode_names)"
    and "n \<in> {''CMOVZ'', ''CMOVS'', ''CMOVB'', ''CMOVBE''}" "INS_Opcode ins = xed n"
  shows "\<exists>s'. run_inserted P M (fst (Dataflow xed ins)) s = Inr s' \<and> v_store (tview s') = v_store (tview s)"
proof -
  have "n \<in> fst ` set cmov_checks" using assms(4) by (elim insertE) (simp_all add: cmov_checks_def)
  then obtain f where f: "(n, f) \<in> set cmov_checks" by auto
  then have "\<not> f fl" for fl using assms(4) by (auto simp: cmov_checks_def cmov_checks_dead)
  moreover have "(n, Instrument_CMOVcc xed) \<in> set (instrument_entries xed)"
    using assms(4) by (elim insertE) (simp_all add: instrument_entries_defs)
  ultimately show ?thesis
    using run_store[OF assms(1) disc_CMOVcc Instrument_CMOVcc_view[OF assms(2) cmov_dispatch(1)[OF assms(3) f assms(5)]],
        of P M] cmov_dispatch(2)[OF assms(3) f assms(5)]
    by auto
qed

theorem cmov_set_flag_never_propagates_witness:
  "\<exists>s'. run_inserted sample_pin (sample_machine\<lparr>reg_value := \<lambda>r. 64\<rparr>)
      (fst (Dataflow position (sample_ins (position ''CMOVZ'') REG_ECX REG_EAX))) sample_state = Inr s' \<and>
    v_store (tview s') = v_store (tview sample_state)"
  by (rule cmov_set_flag_never_propagates[OF sample_state_inv _ position_inj, of _ "''CMOVZ''"])
    (simp_all add: readable_def sample_ins_def)


section \<open>The operations on the taint state\<close>

text \<open>C13: reading memory. The slot receives exactly the marks of the bytes in the range, of the
  base register and of the index register (when they are valid), whatever it held before;
  registers, memory, open branches and the other slots are unchanged. When the end of the
  range wraps around the address space, no byte is read.\<close>

theorem TaintForMemory_marks:
  assumes "state_inv s"
  shows "\<exists>s'. TaintForMemory P start sz bse idx x opcode to_profile s = Inr s' \<and> state_inv s' \<and>
    slot_marks s' = (slot_marks s)(x := (\<Union>a \<in> {start..<start + sz}. mem_marks s a) \<union>
      (if REG_valid P bse then reg_marks s bse else {}) \<union> (if REG_valid P idx then reg_marks s idx else {})) \<and>
    v_store (tview s') = v_store (tview s) \<and>
    (start + sz < start \<longrightarrow> {start..<start + sz} = {})"
proof -
  obtain s' where s': "TaintForMemory P start sz bse idx x opcode to_profile s = Inr s'" "state_inv s'"
      "tview s' = v_load_mem P start sz bse idx x (tview s)"
    using TaintForMemory_refines[OF assms] by (rule steps_toE)
  have "v_store (tview s') = v_store (tview s)" by (simp add: s'(3) v_store_def v_load_mem_def del: tview_sel)
  moreover have "slot_marks s' = (slot_marks s)(x := (\<Union>a \<in> {start..<start + sz}. mem_marks s a) \<union>
      (if REG_valid P bse then reg_marks s bse else {}) \<union> (if REG_valid P idx then reg_marks s idx else {}))"
    by (rule ext) (simp add: slot_marks_def s'(3) v_load_mem_def v_mem_marks_def mem_marks_def reg_marks_def del: tview_sel)
  ultimately show ?thesis using s'(1,2) by simp
qed

theorem TaintForMemory_marks_witness:
  "\<exists>s'. TaintForMemory sample_pin 15 4 REG_EAX REG_INVALID Src 7 True sample_state = Inr s' \<and> slot_marks s' Src = {1, 3}"
proof -
  have r: "{15..<15 + 4} = {15, 16, 17, 18 :: 32 word}"
    using set_addr_range[of 15 19] by (simp add: addr_range.simps)
  have "mem_marks sample_state a = (if a = 16 then {3} else {})" for a
    using sample_marks(3) by (simp add: mem_marks_def tview_def sample_state_def)
  then have "(\<Union>a \<in> {15..<15 + 4}. mem_marks sample_state a) = {3}" unfolding r by simp
  moreover have "reg_marks sample_state REG_EAX = {1}" by (simp add: reg_marks_def sample_marks)
  ultimately show ?thesis
    using TaintForMemory_marks[OF sample_state_inv, of sample_pin 15 4 REG_EAX REG_INVALID Src 7 True]
    by (auto simp: sample_pin_def)
qed

text \<open>C14: writing a register. A call that passes as many slots as it announces gives the register and
  all its sub-registers the union of the slots and of the marks of the open branches; other
  registers and memory keep theirs, and the stack pointers are never tainted.\<close>

theorem SetTaintForRegister_marks:
  assumes "state_inv s" "n = length args"
  shows "\<exists>s'. SetTaintForRegister P dst opcode to_profile n args s = Inr s' \<and> state_inv s' \<and>
    reg_marks s' = (\<lambda>r. if dst \<notin> {REG_ESP, REG_EBP} \<and> r \<in> set (dst # subregisters dst)
      then \<Union> (slot_marks s ` set args) \<union> ctl_marks (tview s) else reg_marks s r) \<and>
    mem_marks s' = mem_marks s \<and> ctl_marks (tview s') = ctl_marks (tview s)"
proof -
  have n: "n \<le> length args" "take n args = args" using assms(2) by simp_all
  obtain s' where s': "SetTaintForRegister P dst opcode to_profile n args s = Inr s'" "state_inv s'"
      "tview s' = v_SetTaintForRegister dst args (tview s)"
    using SetTaintForRegister_refines[OF assms(1) n(1), of P dst opcode to_profile] n(2) by (metis steps_toE)
  have "reg_marks s' = (\<lambda>r. if dst \<notin> {REG_ESP, REG_EBP} \<and> r \<in> set (dst # subregisters dst)
      then \<Union> (slot_marks s ` set args) \<union> ctl_marks (tview s) else reg_marks s r)"
    by (rule ext) (simp add: reg_marks_def slot_marks_def s'(3) v_SetTaintForRegister_def v_put_regs_def del: tview_sel)
  moreover have "mem_marks s' = mem_marks s" "ctl_marks (tview s') = ctl_marks (tview s)"
    by (simp_all add: mem_marks_def ctl_marks_def s'(3) v_SetTaintForRegister_def v_put_regs_def fun_eq_iff del: tview_sel)
  ultimately show ?thesis using s'(1,2) by blast
qed

theorem SetTaintForRegister_marks_witness:
  "\<exists>s'. SetTaintForRegister sample_pin REG_AX 7 True 2 [Src, Dest] sample_src = Inr s' \<and>
    reg_marks s' REG_AL = {0, 2} \<and> reg_marks s' REG_EAX = {1}"
proof -
  from SetTaintForRegister_marks[OF sample_src_inv, of 2 "[Src, Dest]" sample_pin REG_AX 7 True] obtain s' where
    s': "SetTaintForRegister sample_pin REG_AX 7 True 2 [Src, Dest] sample_src = Inr s'"
    "reg_marks s' = (\<lambda>r. if REG_AX \<notin> {REG_ESP, REG_EBP} \<and> r \<in> set (REG_AX # subregisters REG_AX)
      then \<Union> (slot_marks sample_src ` set [Src, Dest]) \<union> ctl_marks (tview sample_src) else reg_marks sample_src r)"
    by auto
  show ?thesis by (intro exI[of _ s']) (simp add: s' sample_src_marks)
qed

text \<open>C15: writing memory. Every byte of the range receives the union of the slots and of the marks
  of the open branches, the bytes outside and the registers keep theirs; reading the range back
  without address registers gives that union again (and, when the range is empty, nothing).\<close>

theorem SetTaintForMemory_marks:
  assumes "state_inv s" "n = length args" "\<not> REG_valid P REG_INVALID"
  shows "\<exists>s' s''. SetTaintForMemory start sz opcode to_profile n args s = Inr s' \<and> state_inv s' \<and>
    mem_marks s' = (\<lambda>a. if start \<le> a \<and> a < start + sz
      then \<Union> (slot_marks s ` set args) \<union> ctl_marks (tview s) else mem_marks s a) \<and>
    reg_marks s' = reg_marks s \<and> ctl_marks (tview s') = ctl_marks (tview s) \<and>
    TaintForMemory P start sz REG_INVALID REG_INVALID x opcode to_profile s' = Inr s'' \<and>
    slot_marks s'' x = (if start < start + sz then \<Union> (slot_marks s ` set args) \<union> ctl_marks (tview s) else {})"
proof -
  have n: "n \<le> length args" "take n args = args" using assms(2) by simp_all
  let ?m = "\<Union> (slot_marks s ` set args) \<union> ctl_marks (tview s)"
  obtain s' where s': "SetTaintForMemory start sz opcode to_profile n args s = Inr s'" "state_inv s'"
      "tview s' = v_SetTaintForMemory start sz args (tview s)"
    using SetTaintForMemory_refines[OF assms(1) n(1), of start sz opcode to_profile] n(2) by (metis steps_toE)
  have mem: "mem_marks s' = (\<lambda>a. if start \<le> a \<and> a < start + sz then ?m else mem_marks s a)"
    by (rule ext) (simp add: mem_marks_def slot_marks_def s'(3) v_SetTaintForMemory_def v_put_mem_def del: tview_sel)
  have rest: "reg_marks s' = reg_marks s" "ctl_marks (tview s') = ctl_marks (tview s)"
    by (simp_all add: reg_marks_def ctl_marks_def s'(3) v_SetTaintForMemory_def v_put_mem_def fun_eq_iff del: tview_sel)
  obtain s'' where s'': "TaintForMemory P start sz REG_INVALID REG_INVALID x opcode to_profile s' = Inr s''"
      "tview s'' = v_load_mem P start sz REG_INVALID REG_INVALID x (tview s')"
    using TaintForMemory_refines[OF s'(2)] by (metis steps_toE)
  have "slot_marks s'' x = (\<Union>a \<in> {start..<start + sz}. mem_marks s' a)"
    using assms(3) by (simp add: slot_marks_def s''(2) v_load_mem_def v_mem_marks_def mem_marks_def del: tview_sel)
  also have "\<dots> = (\<Union>a \<in> {start..<start + sz}. ?m)" by (rule SUP_cong) (simp_all add: mem)
  also have "\<dots> = (if start < start + sz then ?m else {})" by auto
  finally show ?thesis using s'(1,2) mem rest s''(1) by blast
qed

theorem SetTaintForMemory_marks_witness:
  "\<exists>s' s''. SetTaintForMemory 16 2 7 True 1 [Src] sample_src = Inr s' \<and>
    TaintForMemory sample_pin 16 2 REG_INVALID REG_INVALID Dest 7 True s' = Inr s'' \<and> slot_marks s'' Dest = {0, 2}"
  using SetTaintForMemory_marks[OF sample_src_inv, of 1 "[Src]" sample_pin 16 2 7 True Dest]
  by (auto simp: sample_pin_def sample_src_marks)

text \<open>C16: clearing. \<open>ClearTaintForRegister\<close> and \<open>ClearTaintForMemory\<close> leave the marks of the open
  branches in the entries that exist, for the register, its sub-registers and the bytes of the
  range, and nothing in the entries that do not exist; without open branches all of them end up
  without marks, and nothing else changes.\<close>

theorem ClearTaint_marks:
  assumes "state_inv s"
  shows "\<exists>s1 s2. ClearTaintForRegister P r opcode to_profile s = Inr s1 \<and> state_inv s1 \<and>
    reg_marks s1 = (\<lambda>q. if q \<in> set (r # subregisters r) \<and> regTaintMap s q \<noteq> None then ctl_marks (tview s) else reg_marks s q) \<and>
    mem_marks s1 = mem_marks s \<and>
    ClearTaintForMemory start sz opcode to_profile s = Inr s2 \<and> state_inv s2 \<and>
    mem_marks s2 = (\<lambda>a. if start \<le> a \<and> a < start + sz \<and> memTaintMap s a \<noteq> None then ctl_marks (tview s) else mem_marks s a) \<and>
    reg_marks s2 = reg_marks s \<and>
    (ctl_marks (tview s) = {} \<longrightarrow> reg_marks s1 = (\<lambda>q. if q \<in> set (r # subregisters r) then {} else reg_marks s q) \<and>
      mem_marks s2 = (\<lambda>a. if start \<le> a \<and> a < start + sz then {} else mem_marks s a))"
proof -
  obtain s1 where s1: "ClearTaintForRegister P r opcode to_profile s = Inr s1" "state_inv s1"
      "tview s1 = v_ClearTaintForRegister r (tview s)"
    using ClearTaintForRegister_refines[OF assms] by (rule steps_toE)
  obtain s2 where s2: "ClearTaintForMemory start sz opcode to_profile s = Inr s2" "state_inv s2"
      "tview s2 = v_ClearTaintForMemory start sz (tview s)"
    using ClearTaintForMemory_refines[OF assms] by (rule steps_toE)
  have m: "reg_marks s1 = (\<lambda>q. if q \<in> set (r # subregisters r) \<and> regTaintMap s q \<noteq> None then ctl_marks (tview s) else reg_marks s q)"
      "mem_marks s1 = mem_marks s" "reg_marks s2 = reg_marks s"
      "mem_marks s2 = (\<lambda>a. if start \<le> a \<and> a < start + sz \<and> memTaintMap s a \<noteq> None then ctl_marks (tview s) else mem_marks s a)"
    unfolding reg_marks_def[abs_def] mem_marks_def[abs_def] s1(3) s2(3) v_ClearTaintForRegister_def v_clear_regs_def
      v_ClearTaintForMemory_def v_clear_mem_def
    by (auto simp: fun_eq_iff)
  have "reg_marks s q = {}" if "regTaintMap s q = None" for q using that by (simp add: reg_marks_def)
  moreover have "mem_marks s a = {}" if "memTaintMap s a = None" for a using that by (simp add: mem_marks_def)
  ultimately have "ctl_marks (tview s) = {} \<longrightarrow>
      reg_marks s1 = (\<lambda>q. if q \<in> set (r # subregisters r) then {} else reg_marks s q) \<and>
      mem_marks s2 = (\<lambda>a. if start \<le> a \<and> a < start + sz then {} else mem_marks s a)"
    unfolding m by (auto simp: fun_eq_iff)
  with s1(1,2) s2(1,2) m show ?thesis by (intro exI[of _ s1] exI[of _ s2]) (simp only: simp_thms)
qed

theorem ClearTaint_marks_witness:
  "\<exists>s1 s2. ClearTaintForRegister sample_pin REG_EAX 7 True sample_open = Inr s1 \<and>
    reg_marks s1 REG_EAX = {1, 3} \<and> reg_marks s1 REG_AL = {} \<and>
    ClearTaintForMemory 15 4 7 True sample_open = Inr s2 \<and> mem_marks s2 16 = {1, 3} \<and> mem_marks s2 17 = {}"
proof -
  have e: "regTaintMap sample_open REG_EAX \<noteq> None" "regTaintMap sample_open REG_AL = None"
      "memTaintMap sample_open 16 \<noteq> None" "memTaintMap sample_open 17 = None"
    by (simp_all add: sample_open_def sample_state_def)
  then have n: "reg_marks sample_open REG_AL = {}" "mem_marks sample_open 17 = {}"
    by (simp_all add: reg_marks_def mem_marks_def)
  obtain s1 s2 where s: "ClearTaintForRegister sample_pin REG_EAX 7 True sample_open = Inr s1"
      "ClearTaintForMemory 15 4 7 True sample_open = Inr s2"
      "reg_marks s1 = (\<lambda>q. if q \<in> set (REG_EAX # subregisters REG_EAX) \<and> regTaintMap sample_open q \<noteq> None
        then ctl_marks (tview sample_open) else reg_marks sample_open q)"
      "mem_marks s2 = (\<lambda>a. if 15 \<le> a \<and> a < 15 + 4 \<and> memTaintMap sample_open a \<noteq> None
        then ctl_marks (tview sample_open) else mem_marks sample_open a)"
    using ClearTaint_marks[OF sample_open_inv, of sample_pin REG_EAX 7 True 15 4] by blast
  show ?thesis by (intro exI[of _ s1] exI[of _ s2]) (simp add: s(1,2) s(3,4) e n sample_open_ctl)
qed

text \<open>C17: a branch and its join. When the flags have no marks, reaching a branch changes nothing.
  Otherwise the branch at the address is open afterwards with the marks that it had already, when it
  was open, together with those of the flags; other branches, registers and memory stay. When the
  branch was not open before, the join closes it again and the taint of registers, memory and
  branches is back to what it was. Tracing both does not change this.\<close>

theorem branch_join_round_trip:
  assumes "state_inv s"
  shows "\<exists>s1 s2. PushControl a s = Inr s1 \<and> state_inv s1 \<and>
    tview s1 = (if reg_marks s REG_EFLAGS = {} then tview s
      else (tview s)\<lparr>v_ctl := (v_ctl (tview s))
        (a \<mapsto> (case v_ctl (tview s) a of Some m \<Rightarrow> m | None \<Rightarrow> {}) \<union> reg_marks s REG_EFLAGS)\<rparr>) \<and>
    ctl_marks (tview s1) = ctl_marks (tview s) \<union> reg_marks s REG_EFLAGS \<and>
    PopControl 1 [a] s1 = Inr s2 \<and> state_inv s2 \<and> v_ctl (tview s2) a = None \<and>
    (map_find (controlTaintMap s) a = None \<longrightarrow> tview s2 = tview s) \<and>
    (\<forall>tracing l. same_taint l s1 (traced_PushControl tracing a (s, l)) \<and>
      same_taint l s2 (traced_PopControl tracing 1 [a] (s1, l)))"
proof -
  let ?m = "reg_marks s REG_EFLAGS"
  obtain s1 where s1: "PushControl a s = Inr s1" "state_inv s1" "tview s1 = v_PushControl a (tview s)"
    using PushControl_refines[OF assms] by (rule steps_toE)
  obtain s2 where s2: "PopControl 1 [a] s1 = Inr s2" "state_inv s2" "tview s2 = v_PopControl (take 1 [a]) (tview s1)"
    using PopControl_refines[OF s1(2), of 1 "[a]"] by (metis steps_toE le_refl length_Cons list.size(3) One_nat_def)
  have v1: "tview s1 = (if ?m = {} then tview s
      else (tview s)\<lparr>v_ctl := (v_ctl (tview s))(a \<mapsto> (case v_ctl (tview s) a of Some m \<Rightarrow> m | None \<Rightarrow> {}) \<union> ?m)\<rparr>)"
    by (simp add: s1(3) v_PushControl_def reg_marks_def Let_def marks_of_def del: tview_sel)
  have ctl: "ctl_marks (tview s1) = ctl_marks (tview s) \<union> ?m"
    using ran_upd_union[of "v_ctl (tview s)" a ?m] by (simp add: ctl_marks_def v1 del: tview_sel)
  have v2: "tview s2 = (tview s1)\<lparr>v_ctl := (v_ctl (tview s1))(a := None)\<rparr>"
    by (simp add: s2(3) fun_upd_idem del: tview_sel)
  have restored: "tview s2 = tview s" if "map_find (controlTaintMap s) a = None"
  proof -
    have "v_ctl (tview s) a = None" using that by simp
    then show ?thesis by (simp add: v2 v1 fun_upd_idem del: tview_sel)
  qed
  have tr1: "same_taint l s1 (traced_PushControl tracing a (s, l))" for tracing l
    using PushControl_traced[OF assms, of a l tracing] s1(1) by auto
  have tr2: "same_taint l s2 (traced_PopControl tracing 1 [a] (s1, l))" for tracing l
    using PopControl_traced[OF s1(2), of 1 "[a]" l tracing] s2(1) by auto
  have closed: "v_ctl (tview s2) a = None" by (simp add: v2 del: tview_sel)
  show ?thesis
    by (intro exI[of _ s1] exI[of _ s2] conjI allI impI s1(1,2) s2(1,2) v1 ctl closed tr1 tr2) (rule restored)
qed

theorem branch_join_round_trip_witness:
  "\<exists>s1 s2. PushControl 12 sample_flags = Inr s1 \<and> ctl_marks (tview s1) = {1} \<and>
    PopControl 1 [12] s1 = Inr s2 \<and> tview s2 = tview sample_flags"
proof -
  have "reg_marks sample_flags REG_EFLAGS = {1}" "map_find (controlTaintMap sample_flags) 12 = None"
      "ctl_marks (tview sample_flags) = {}"
    by (simp_all add: reg_marks_def sample_flags_def sample_marks ctl_marks_def) (simp_all add: sample_state_def tview_def)
  then show ?thesis using branch_join_round_trip[OF sample_flags_inv, of 12] by auto
qed

text \<open>C18: joins. With as many addresses as announced, a join closes the branches of the list up to the
  first one that is not open and leaves all later ones open; it closes all of them only when
  all are open.\<close>

theorem PopControl_prefix:
  assumes "state_inv s" "distinct addrs"
  shows "\<exists>s'. PopControl (length addrs) addrs s = Inr s' \<and> state_inv s' \<and>
    (\<forall>b. v_ctl (tview s') b = (if b \<in> set (takeWhile (\<lambda>a. v_ctl (tview s) a \<noteq> None) addrs) then None else v_ctl (tview s) b)) \<and>
    v_reg (tview s') = v_reg (tview s) \<and> v_mem (tview s') = v_mem (tview s)"
proof -
  obtain s' where s': "PopControl (length addrs) addrs s = Inr s'" "state_inv s'"
      "tview s' = v_PopControl addrs (tview s)"
    using PopControl_refines[OF assms(1), of "length addrs" addrs] by (metis steps_toE le_refl take_all)
  then show ?thesis by (intro exI[of _ s']) (simp add: v_PopControl_prefix[OF assms(2)] del: tview_sel)
qed

theorem PopControl_prefix_witness:
  "\<exists>s'. PopControl (length [12, 16, 20]) [12, 16, 20] sample_open = Inr s' \<and>
    v_ctl (tview s') 12 = None \<and> v_ctl (tview s') 20 = Some {3}"
proof -
  have c: "v_ctl (tview sample_open) = [12 \<mapsto> {1}, 20 \<mapsto> {3}]"
    by (rule ext) (simp add: sample_open_def sample_marks)
  have "takeWhile (\<lambda>a. v_ctl (tview sample_open) a \<noteq> None) [12, 16, 20] = [12]" by (simp add: c del: tview_sel)
  with PopControl_prefix[OF sample_open_inv, of "[12, 16, 20]"] show ?thesis by (auto simp: c simp del: tview_sel)
qed

text \<open>C19: new taint. An explicit mark below the number of marks becomes the only mark of every byte of
  the range, a mark that is too large aborts, a negative one (other than the request for the next
  mark) fails the assertion of the bitset, and the request for the next mark takes one in range.\<close>

theorem SetNewTaintForMemory_cases:
  assumes "state_inv s" "gen_ok s"
  shows "(0 \<le> m \<and> m < NUMBER_OF_TAINT_MARKS s \<longrightarrow> (\<exists>s'. SetNewTaintForMemory addr sz m s = Inr s' \<and> state_inv s' \<and>
      mem_marks s' = (\<lambda>a. if addr \<le> a \<and> a < addr + sz then {nat m} else mem_marks s a) \<and> reg_marks s' = reg_marks s)) \<and>
    (NUMBER_OF_TAINT_MARKS s \<le> m \<longrightarrow> SetNewTaintForMemory addr sz m s = Inl (Abort ''Illegal taint mark'')) \<and>
    (- (2 ^ 31) \<le> m \<and> m < -1 \<longrightarrow> SetNewTaintForMemory addr sz m s = Inl Assert_failed) \<and>
    (\<exists>k s'. SetNewTaintForMemory addr sz (-1) s = Inr s' \<and> state_inv s' \<and> gen_ok s' \<and> k < nat (NUMBER_OF_TAINT_MARKS s) \<and>
      mem_marks s' = (\<lambda>a. if addr \<le> a \<and> a < addr + sz then {k} else mem_marks s a) \<and> reg_marks s' = reg_marks s)"
proof -
  have put: "tview s' = v_put_mem {addr..<addr + sz} {k} (tview s) \<Longrightarrow>
      mem_marks s' = (\<lambda>a. if addr \<le> a \<and> a < addr + sz then {k} else mem_marks s a) \<and> reg_marks s' = reg_marks s" for s' k
    by (simp add: mem_marks_def[abs_def] reg_marks_def[abs_def] v_put_mem_def fun_eq_iff del: tview_sel)
  have 1: "\<exists>s'. SetNewTaintForMemory addr sz m s = Inr s' \<and> state_inv s' \<and>
      mem_marks s' = (\<lambda>a. if addr \<le> a \<and> a < addr + sz then {nat m} else mem_marks s a) \<and> reg_marks s' = reg_marks s"
    if "0 \<le> m \<and> m < NUMBER_OF_TAINT_MARKS s"
    using SetNewTaintForMemory_mark[OF assms(1) that[THEN conjunct1] that[THEN conjunct2], of addr sz] put
    by (auto elim!: steps_toE)
  have 2: "NUMBER_OF_TAINT_MARKS s \<le> m \<longrightarrow> SetNewTaintForMemory addr sz m s = Inl (Abort ''Illegal taint mark'')"
    using state_invD(1)[OF assms(1)] by (auto intro: SetNewTaintForMemory_illegal)
  have 3: "\<exists>k s'. SetNewTaintForMemory addr sz (-1) s = Inr s' \<and> state_inv s' \<and> gen_ok s' \<and> k < nat (NUMBER_OF_TAINT_MARKS s) \<and>
      mem_marks s' = (\<lambda>a. if addr \<le> a \<and> a < addr + sz then {k} else mem_marks s a) \<and> reg_marks s' = reg_marks s"
    using SetNewTaintForMemory_draw[OF assms, of addr sz] put by blast
  show ?thesis using 1 2 3 negative_mark_refused[OF assms(1)] by simp
qed

theorem SetNewTaintForMemory_cases_witness:
  "(\<exists>s'. SetNewTaintForMemory 64 2 5 sample_state = Inr s' \<and> mem_marks s' 65 = {5} \<and> mem_marks s' 16 = {3}) \<and>
   SetNewTaintForMemory 64 2 8 sample_state = Inl (Abort ''Illegal taint mark'') \<and>
   SetNewTaintForMemory 64 2 (-7) sample_state = Inl Assert_failed"
proof -
  have n: "NUMBER_OF_TAINT_MARKS sample_state = 8" "mem_marks sample_state 16 = {3}"
    by (simp_all add: mem_marks_def sample_marks) (simp add: sample_state_def)
  show ?thesis
    using SetNewTaintForMemory_cases[OF sample_state_inv sample_gen_ok, of 5 64 2]
      SetNewTaintForMemory_cases[OF sample_state_inv sample_gen_ok, of 8 64 2]
      SetNewTaintForMemory_cases[OF sample_state_inv sample_gen_ok, of "-7" 64 2] n by auto
qed



section \<open>Bitsets and generators\<close>

text \<open>C21: the combining operations. On two well-formed bitsets of the same size, union, intersection,
  difference and symmetric difference succeed, give a well-formed bitset and act on the marks as
  the set operations; bitsets of different sizes fail the assertion of each.\<close>

theorem bitset_algebra:
  assumes "bitset_wf nb a" "bitset_wf nb b"
  shows "(\<exists>r. bitset_union a b = Inr r \<and> bitset_wf nb r \<and> marks r = marks a \<union> marks b) \<and>
    (\<exists>r. bitset_intersection a b = Inr r \<and> bitset_wf nb r \<and> marks r = marks a \<inter> marks b) \<and>
    (\<exists>r. bitset_difference a b = Inr r \<and> bitset_wf nb r \<and> marks r = marks a - marks b) \<and>
    (\<exists>r. bitset_xor a b = Inr r \<and> bitset_wf nb r \<and> marks r = (marks a - marks b) \<union> (marks b - marks a)) \<and>
    (\<forall>c. nbits c \<noteq> nb \<longrightarrow> (\<forall>f \<in> {bitset_union, bitset_intersection, bitset_difference, bitset_xor}. f a c = Inl Assert_failed))"
proof -
  have "nbits a = nb" using bitset_wfD[OF assms(1)] by simp
  then show ?thesis
    using bitset_union_ok[OF assms] bitset_intersection_ok[OF assms] bitset_difference_ok[OF assms] bitset_xor_ok[OF assms]
    by (auto simp: bitset_union_def bitset_intersection_def bitset_difference_def bitset_xor_def bitset_combine_def cassert_def)
qed

theorem bitset_algebra_witness:
  "\<exists>r. bitset_xor (sample_bits 5) (sample_bits 8) = Inr r \<and> marks r = {0, 2, 3}"
  using bitset_algebra[OF sample_bits_wf[of 5] sample_bits_wf[of 8]] by (auto simp: sample_marks)

text \<open>C22: single bits. Below the size, setting, clearing and toggling a bit change exactly that mark and
  no other, testing it reads it, and toggling it twice gives the same bitset again; at or above the size all four fail the assertion.\<close>

theorem bitset_bits:
  assumes "bitset_wf nb s"
  shows "(pos < nb \<longrightarrow>
      (\<exists>s'. bitset_set_bit s pos = Inr s' \<and> bitset_wf nb s' \<and> marks s' = insert (unat pos) (marks s) \<and>
        bitset_test_bit s' pos = Inr True) \<and>
      (\<exists>s'. bitset_clear_bit s pos = Inr s' \<and> bitset_wf nb s' \<and> marks s' = marks s - {unat pos} \<and>
        bitset_test_bit s' pos = Inr False) \<and>
      (\<exists>s' s''. bitset_toggle_bit s pos = Inr s' \<and> bitset_wf nb s' \<and>
        marks s' = (if unat pos \<in> marks s then marks s - {unat pos} else insert (unat pos) (marks s)) \<and>
        bitset_toggle_bit s' pos = Inr s'' \<and> s'' = s)) \<and>
    (nb \<le> pos \<longrightarrow> bitset_set_bit s pos = Inl Assert_failed \<and> bitset_clear_bit s pos = Inl Assert_failed \<and>
      bitset_toggle_bit s pos = Inl Assert_failed \<and> bitset_test_bit s pos = Inl Assert_failed)"
proof (cases "pos < nb")
  case True
  obtain s1 where s1: "bitset_set_bit s pos = Inr s1" "bitset_wf nb s1" "marks s1 = insert (unat pos) (marks s)"
    using bitset_set_bit_ok[OF assms True] by blast
  obtain s2 where s2: "bitset_clear_bit s pos = Inr s2" "bitset_wf nb s2" "marks s2 = marks s - {unat pos}"
    using bitset_clear_bit_ok[OF assms True] by blast
  obtain s3 where s3: "bitset_toggle_bit s pos = Inr s3" "bitset_wf nb s3"
      "marks s3 = (if unat pos \<in> marks s then marks s - {unat pos} else insert (unat pos) (marks s))"
    using bitset_toggle_bit_ok[OF assms True] by blast
  obtain s4 where s4: "bitset_toggle_bit s3 pos = Inr s4" "bitset_wf nb s4"
      "marks s4 = (if unat pos \<in> marks s3 then marks s3 - {unat pos} else insert (unat pos) (marks s3))"
    using bitset_toggle_bit_ok[OF s3(2) True] by blast
  have "marks s4 = marks s" using s3(3) s4(3) by (auto split: if_splits)
  then have "s4 = s" using bitset_eq_iff[OF s4(2) assms] by simp
  then show ?thesis
    using True s1 s2 s3 s4(1) bitset_test_bit_ok[OF s1(2) True] bitset_test_bit_ok[OF s2(2) True] by auto
next
  case False
  then show ?thesis
    using bitset_wfD(2)[OF assms]
    by (simp add: bitset_set_bit_def bitset_clear_bit_def bitset_toggle_bit_def bitset_test_bit_def)
qed

theorem bitset_bits_witness:
  "(\<exists>s'. bitset_set_bit (sample_bits 5) 3 = Inr s' \<and> marks s' = {0, 2, 3}) \<and>
   bitset_set_bit (sample_bits 5) 8 = Inl Assert_failed"
  using bitset_bits[OF sample_bits_wf[of 5], of 3] bitset_bits[OF sample_bits_wf[of 5], of 8]
  by (auto simp: sample_marks)

text \<open>The printed form. \<open>bitset_str\<close> prints one digit for every mark, in order, and two bitsets of
  the same size print alike only when they are equal: the keys of the profile do not confuse
  different sets of marks.\<close>

theorem bitset_str_injective:
  assumes "bitset_wf nb a" "bitset_wf nb b"
  shows "\<exists>x y. bitset_str a = Inr x \<and> bitset_str b = Inr y \<and> length x = unat nb \<and>
    (\<forall>i < unat nb. x ! i = (if i \<in> marks a then CHR ''1'' else CHR ''0'')) \<and> (x = y \<longleftrightarrow> a = b)"
proof -
  have "mark_string (unat nb) (marks a) = mark_string (unat nb) (marks b) \<longleftrightarrow> a = b"
    using mark_string_inj[OF marks_bound[OF assms(1)] marks_bound[OF assms(2)]] bitset_eq_iff[OF assms] by simp
  then show ?thesis
    using bitset_str_ok[OF assms(1)] bitset_str_ok[OF assms(2)] by (simp add: mark_string_def)
qed

theorem bitset_str_injective_witness:
  "\<exists>x y. bitset_str (sample_bits 5) = Inr x \<and> bitset_str (sample_bits 8) = Inr y \<and> x \<noteq> y"
  using bitset_str_injective[OF sample_bits_wf[of 5] sample_bits_wf[of 8]] by (auto simp: sample_bits_def)

text \<open>C23: observations. Equality, emptiness and the population are those of the sets of marks (the
  population never wraps around); \<open>bitset_is_subset a b\<close> says that \<open>b\<close> is a subset of \<open>a\<close>.
  \<open>bitset_str\<close> prints one digit for every mark, in order, and two bitsets of the same size print
  alike only when they are equal: the keys of the profile do not confuse sets of marks.\<close>

theorem bitset_observations:
  assumes "bitset_wf nb a" "bitset_wf nb b"
  shows "bitset_equal a b = Inr (marks a = marks b) \<and> bitset_is_empty a = Inr (marks a = {}) \<and>
    bitset_is_subset a b = Inr (marks b \<subseteq> marks a) \<and>
    (\<exists>n. bitset_population a = Inr n \<and> unat n = card (marks a) \<and> unat n \<le> unat nb) \<and>
    (\<exists>x y. bitset_str a = Inr x \<and> bitset_str b = Inr y \<and> length x = unat nb \<and>
      (\<forall>i < unat nb. x ! i = (if i \<in> marks a then CHR ''1'' else CHR ''0'')) \<and> (x = y \<longleftrightarrow> a = b))"
proof -
  have "card (marks a) \<le> card {..<unat nb}" using marks_bound[OF assms(1)] by (intro card_mono) auto
  moreover have "unat nb < 2 ^ 32" using unsigned_less[of nb] by simp
  ultimately show ?thesis
    using bitset_equal_ok[OF assms] bitset_is_empty_ok[OF assms(1)] bitset_is_subset_ok[OF assms]
      bitset_population_ok[OF assms(1)] bitset_str_injective[OF assms] by (simp add: unat_of_nat)
qed

theorem bitset_observations_witness:
  "bitset_is_subset (sample_bits 5) (sample_bits 8) = Inr False \<and> bitset_is_subset (sample_bits 5) (sample_bits 0) = Inr True \<and>
   (\<exists>n. bitset_population (sample_bits 5) = Inr n \<and> unat n = 2)"
proof -
  have "marks (sample_bits 0) = {}" by (simp add: sample_bits_marks)
  then show ?thesis
    using bitset_observations[OF sample_bits_wf[of 5] sample_bits_wf[of 8]]
      bitset_observations[OF sample_bits_wf[of 5] sample_bits_wf[of 0]] by (auto simp: sample_marks)
qed

text \<open>C24: the generator. After its constructor, the increasing generator never fails and its marks go
  through \<open>0\<close>, \<open>1\<close>, \dots, \<open>n - 1\<close> again and again. When fewer than \<open>n\<close> marks have been drawn,
  \<open>setStart(getCurrent())\<close> reserves them: they are never drawn again. When exactly \<open>n\<close> marks have been
  drawn, the generator is back at 0 and the same call reserves nothing.\<close>

theorem generator_marks:
  assumes "0 < n" "n < 2 ^ 31"
  shows "\<exists>g. draw_marks k (new_TaintGenerator 0 n) = Inr (map (\<lambda>i. int i mod n) [0..<k], g) \<and>
    (int k < n \<longrightarrow> (\<forall>j. \<exists>ms g'. draw_marks j (setStart (getCurrent g) g) = Inr (ms, g') \<and> length ms = j \<and>
      set ms \<inter> set (map (\<lambda>i. int i mod n) [0..<k]) = {})) \<and>
    (int k = n \<longrightarrow> setStart (getCurrent g) g = new_TaintGenerator 0 n)"
proof -
  obtain g where g: "draw_marks k (new_TaintGenerator 0 n) = Inr (map (\<lambda>i. int i mod n) [0..<k], g)"
    using draw_marks_cycle[of "\<lparr>gen_start = 0, gen_current = 0, gen_max = n\<rparr>" k] assms by (auto simp: new_TaintGenerator_def)
  have "\<exists>ms g'. draw_marks j (setStart (getCurrent g) g) = Inr (ms, g') \<and> length ms = j \<and>
      set ms \<inter> set (map (\<lambda>i. int i mod n) [0..<k]) = {}" if "int k < n" for j
  proof -
    have "g = TaintGenerator \<lparr>gen_start = 0, gen_current = int k, gen_max = n\<rparr>"
      using draw_marks_current[of "\<lparr>gen_start = 0, gen_current = 0, gen_max = n\<rparr>" k] that assms g
      by (simp add: new_TaintGenerator_def)
    then have "gen_inv (int k) n (setStart (getCurrent g) g)"
      using that assms by (simp add: getCurrent_def)
    from tg.draw_ok[OF this, of j] obtain ms g' where
      "draw_marks j (setStart (getCurrent g) g) = Inr (ms, g')" "length ms = j" "set ms \<subseteq> {int k..<n}" by blast
    moreover have "set (map (\<lambda>i. int i mod n) [0..<k]) \<subseteq> {0..<int k}" using that by auto
    ultimately show ?thesis by fastforce
  qed
  moreover have "setStart (getCurrent g) g = new_TaintGenerator 0 n" if "int k = n"
    using draw_marks_full[of "\<lparr>gen_start = 0, gen_current = 0, gen_max = n\<rparr>" k] that assms g
    by (auto simp: new_TaintGenerator_def getCurrent_def)
  ultimately show ?thesis using g by blast
qed

theorem generator_marks_witness:
  "\<exists>g. draw_marks 5 (new_TaintGenerator 0 3) = Inr ([0, 1, 2, 0, 1], g)"
  using generator_marks[of 3 5] by (auto simp: upt_rec)


section \<open>Sources of taint\<close>

text \<open>C25: a watched file, from start-up to taint. When \<open>main\<close> is given one path source with the
  granularity \<open>PerByte\<close> and \<open>N\<close> marks, then opening that file and reading \<open>r\<close> bytes from
  the descriptor (possibly in another thread) taints byte number \<open>i\<close> of the buffer with
  exactly mark \<open>i mod N\<close> and no byte outside the buffer. The system calls that \<open>main\<close>
  observes have distinct numbers, the path can be read, and the number of marks lies between 1 and
  4096 and is not given as the text \<open>1\<close>, which selects the constant generator of mark 5 (C38).\<close>

theorem watched_file_per_byte:
  assumes "inj_on (SYS E) observed_names"
    and "sources conf = [\<lparr>src_type = ''path'', granularity = ''PerByte'', details = [p]\<rparr>]" "p \<noteq> ''*''"
    and "num_markings conf \<noteq> ''1''" "num_markings conf \<noteq> []" "convertTo_int (num_markings conf) = Inr N" "1 \<le> N" "N \<le> 4096"
    and "cstring E name = p" "sint fd \<noteq> -1" "0 < sint r" "unat buf + unat r < 2 ^ 32" "can_read E name"
  shows "\<exists>st st'. main_setup E junk uninit cb conf = Inr st \<and>
    rfold (sys_step E) [SysBefore t (SYS E ''open'') name a1 a2 a3 a4 a5, SysAfter t fd e,
      SysBefore u (SYS E ''read'') fd buf b2 b3 b4 b5, SysAfter u r e'] st = Inr st' \<and>
    state_inv (taint (snd st')) \<and>
    (\<forall>i < unat r. mem_marks (taint (snd st')) (buf + of_nat i) = {i mod nat N}) \<and>
    (\<forall>a. a \<notin> {buf..<buf + r} \<longrightarrow> mem_marks (taint (snd st')) a = {})"
proof -
  obtain m w where st: "main_setup E junk uninit cb conf = Inr (m, w)" "watches E p PerByte (m, w)"
      "memTaintMap (taint w) = (\<lambda>a. None)" "taintGen (taint w) = Some (new_TaintGenerator 0 N)" "state_inv (taint w)"
      "gen_ok (taint w)"
    using main_setup_watches[OF assms(1-8), of junk uninit cb] by auto
  obtain m1 w1 where o: "rfold (sys_step E) [SysBefore t (SYS E ''open'') name a1 a2 a3 a4 a5, SysAfter t fd e] (m, w) = Inr (m1, w1)"
      "watches E p PerByte (m1, w1)" "fd_table (m1, w1) (sint fd) = Some p" "taint w1 = taint w"
    using open_events[OF st(2) assms(10,13), of t a1 a2 a3 a4 a5 e] assms(9) by auto
  let ?args = "\<lparr>num = SYS E ''read'', arg0 = fd, arg1 = buf, arg2 = b2, arg3 = b3, arg4 = b4, arg5 = b5, ret = r, err = e'\<rparr>"
  obtain s' where s': "pathSourceReadCallbackPerByte p ?args (taint w) = Inr s'" "state_inv s'"
      "\<forall>i < unat r. mem_marks s' (buf + of_nat i) = {i mod nat N}"
      "\<forall>a. a \<notin> {buf..<buf + r} \<longrightarrow> mem_marks s' a = mem_marks (taint w) a"
    using per_byte_marks[OF st(5,6,4) assms(7,8), of ?args p] assms(11,12) by auto
  have r: "sint r \<noteq> -1" using assms(11) by simp
  have "rfold (sys_step E) ([SysBefore t (SYS E ''open'') name a1 a2 a3 a4 a5, SysAfter t fd e] @
      [SysBefore u (SYS E ''read'') fd buf b2 b3 b4 b5, SysAfter u r e']) (m, w) =
      Inr (beginSyscall u (SYS E ''read'') fd buf b2 b3 b4 b5 m1, w1\<lparr>taint := s'\<rparr>)"
    unfolding rfold_append o(1) rbind.simps read_watched[OF o(2) r o(3)] path_read_callback.simps o(4) s'(1) ..
  moreover have "mem_marks (taint w) a = {}" for a using st(3) by (simp add: mem_marks_def)
  ultimately show ?thesis using st(1) s'(2-4) by auto
qed

theorem watched_file_per_byte_witness:
  "\<exists>st st'. main_setup numbered_env sample_junk (sample_bits 0) None sample_conf = Inr st \<and>
    rfold (sys_step numbered_env)
      [SysBefore 1 (SYS numbered_env ''open'') 64 0 0 0 0 0, SysAfter 1 4 0,
       SysBefore 2 (SYS numbered_env ''read'') 4 80 100 0 0 0, SysAfter 2 10 0] st = Inr st' \<and>
    mem_marks (taint (snd st')) 83 = {3} \<and> mem_marks (taint (snd st')) 89 = {1}"
proof -
  have c: "convertTo_int ''8'' = Inr 8" by code_simp
  have p: "cstring numbered_env 64 = ''input.txt''" "can_read numbered_env 64" by (simp_all add: numbered_env_def sample_env_def)
  obtain st st' where s: "main_setup numbered_env sample_junk (sample_bits 0) None sample_conf = Inr st"
    "rfold (sys_step numbered_env) [SysBefore 1 (SYS numbered_env ''open'') 64 0 0 0 0 0, SysAfter 1 4 0,
       SysBefore 2 (SYS numbered_env ''read'') 4 80 100 0 0 0, SysAfter 2 10 0] st = Inr st'"
    "\<forall>i < unat (10 :: 32 word). mem_marks (taint (snd st')) (80 + of_nat i) = {i mod nat 8}"
    using watched_file_per_byte[OF numbered_env_inj(1), of sample_conf "''input.txt''" 8 64 4 10 80 sample_junk
        "sample_bits 0" None 1 0 0 0 0 0 0 2 100 0 0 0 0] c p
    by (auto simp: sample_conf_def)
  have "mem_marks (taint (snd st')) 83 = {3}" "mem_marks (taint (snd st')) 89 = {1}"
    using s(3)[rule_format, of 3] s(3)[rule_format, of 9] by simp_all
  with s(1,2) show ?thesis by (intro exI[of _ st] exI[of _ st']) simp
qed

text \<open>C26: a read as a whole. In a state that watches a file with the granularity \<open>PerRead\<close>, a read from a
  descriptor that belongs to the file gives all bytes read the same single mark, below the number
  of marks, and leaves all other bytes alone; a read that returns nothing taints nothing.\<close>

theorem watched_file_per_read:
  assumes "watches E p PerRead (m, w)" "fd_table (m, w) (sint fd) = Some p" "state_inv (taint w)" "gen_ok (taint w)"
    and "sint r \<noteq> -1" "unat buf + unat r < 2 ^ 32"
  shows "\<exists>st' k. rfold (sys_step E) [SysBefore u (SYS E ''read'') fd buf b2 b3 b4 b5, SysAfter u r e'] (m, w) = Inr st' \<and>
    state_inv (taint (snd st')) \<and> k < nat (NUMBER_OF_TAINT_MARKS (taint w)) \<and>
    mem_marks (taint (snd st')) = (\<lambda>a. if 0 < sint r \<and> buf \<le> a \<and> a < buf + r then {k} else mem_marks (taint w) a)"
proof -
  let ?args = "\<lparr>num = SYS E ''read'', arg0 = fd, arg1 = buf, arg2 = b2, arg3 = b3, arg4 = b4, arg5 = b5, ret = r, err = e'\<rparr>"
  have run: "rfold (sys_step E) [SysBefore u (SYS E ''read'') fd buf b2 b3 b4 b5, SysAfter u r e'] (m, w) =
      rbind (pathSourceReadCallbackPerRead p ?args (taint w))
        (\<lambda>s. Inr (beginSyscall u (SYS E ''read'') fd buf b2 b3 b4 b5 m, w\<lparr>taint := s\<rparr>))"
    unfolding read_watched[OF assms(1,5,2)] path_read_callback.simps ..
  show ?thesis
  proof (cases "0 < sint r")
    case True
    obtain k s' where s': "pathSourceReadCallbackPerRead p ?args (taint w) = Inr s'" "state_inv s'"
        "k < nat (NUMBER_OF_TAINT_MARKS (taint w))" "tview s' = v_put_mem {buf..<buf + r} {k} (tview (taint w))"
      using pathSourceReadCallbackPerRead_ok[OF assms(3,4), of ?args p] True by auto
    have "mem_marks s' = (\<lambda>a. if 0 < sint r \<and> buf \<le> a \<and> a < buf + r then {k} else mem_marks (taint w) a)"
      unfolding mem_marks_def s'(4) v_put_mem_def using True by (simp add: fun_eq_iff)
    with s'(2,3) show ?thesis unfolding run s'(1) by auto
  next
    case False
    then have "pathSourceReadCallbackPerRead p ?args (taint w) = Inr (taint w)"
      by (simp add: pathSourceReadCallbackPerRead_def)
    moreover have "\<exists>k. k < nat (NUMBER_OF_TAINT_MARKS (taint w))" using state_invD(1)[OF assms(3)] by (intro exI[of _ 0]) simp
    ultimately show ?thesis using assms(3) False unfolding run by auto
  qed
qed

theorem watched_file_per_read_witness:
  "\<exists>m w st' k. watches numbered_env ''input.txt'' PerRead (m, w) \<and>
    rfold (sys_step numbered_env) [SysBefore 2 (SYS numbered_env ''read'') 4 80 100 0 0 0, SysAfter 2 10 0] (m, w) = Inr st' \<and>
    mem_marks (taint (snd st')) 80 = {k} \<and> mem_marks (taint (snd st')) 89 = {k}"
proof -
  let ?conf = "sample_conf\<lparr>sources := [\<lparr>src_type = ''path'', granularity = ''PerRead'', details = [''input.txt'']\<rparr>]\<rparr>"
  have c: "convertTo_int ''8'' = Inr 8" by code_simp
  obtain m w where st: "watches numbered_env ''input.txt'' PerRead (m, w)" "state_inv (taint w)" "gen_ok (taint w)"
    using main_setup_watches[OF numbered_env_inj(1), of ?conf "''PerRead''" "''input.txt''" 8 sample_junk "sample_bits 0" None] c
    by (auto simp: sample_conf_def)
  obtain m1 w1 where o: "watches numbered_env ''input.txt'' PerRead (m1, w1)" "fd_table (m1, w1) (sint (4 :: 32 word)) = Some ''input.txt''"
      "taint w1 = taint w"
    using open_events[OF st(1), of 4 64 1 0 0 0 0 0 0] by (auto simp: numbered_env_def sample_env_def)
  obtain st' k where s: "rfold (sys_step numbered_env) [SysBefore 2 (SYS numbered_env ''read'') 4 80 100 0 0 0, SysAfter 2 10 0] (m1, w1) = Inr st'"
    "mem_marks (taint (snd st')) = (\<lambda>a. if 0 < sint (10 :: 32 word) \<and> 80 \<le> a \<and> a < 80 + 10 then {k} else mem_marks (taint w1) a)"
    using watched_file_per_read[OF o(1,2), of 10 80 2 100 0 0 0 0] st(2,3) o(3) by auto
  show ?thesis using o(1) s(1) by (intro exI[of _ m1] exI[of _ w1] exI[of _ st'] exI[of _ k]) (simp add: s(2))
qed

text \<open>C27: other files. With one path source, whatever its granularity: after the watched file was opened and
  its descriptor closed, a read from the descriptor taints nothing, and when the descriptor is used
  again for another file, a read from it taints nothing either. (Both paths can be read, and the number
  of marks lies between 1 and 4096 and is not given as the text \<open>1\<close>, as in C25.)\<close>

theorem other_files_untracked:
  assumes "inj_on (SYS E) observed_names"
    and "sources conf = [\<lparr>src_type = ''path'', granularity = g, details = [p]\<rparr>]" "p \<noteq> ''*''"
    and "num_markings conf \<noteq> ''1''" "num_markings conf \<noteq> []" "convertTo_int (num_markings conf) = Inr N" "1 \<le> N" "N \<le> 4096"
    and "cstring E other \<noteq> p" "sint fd \<noteq> -1" "sint r \<noteq> -1" "sint c \<noteq> -1" "can_read E name" "can_read E other"
  shows "\<exists>st st1 st2. main_setup E junk uninit cb conf = Inr st \<and>
    rfold (sys_step E) [SysBefore t (SYS E ''open'') name a1 a2 a3 a4 a5, SysAfter t fd e,
      SysBefore t (SYS E ''close'') fd a1 a2 a3 a4 a5, SysAfter t c e,
      SysBefore t (SYS E ''read'') fd buf a2 a3 a4 a5, SysAfter t r e] st = Inr st1 \<and>
    taint (snd st1) = taint (snd st) \<and>
    rfold (sys_step E) [SysBefore t (SYS E ''open'') other a1 a2 a3 a4 a5, SysAfter t fd e,
      SysBefore t (SYS E ''read'') fd buf a2 a3 a4 a5, SysAfter t r e] st1 = Inr st2 \<and>
    taint (snd st2) = taint (snd st) \<and> (\<forall>a. mem_marks (taint (snd st)) a = {})"
proof -
  let ?ty = "if g = ''PerByte'' then PerByte else PerRead"
  let ?pm = "observePath p (path_read_callback ?ty) (registerDefault pathSourceReadDefault (new_PathMonitor False))"
  obtain m w where st: "main_setup E junk uninit cb conf = Inr (m, w)" "watches E p ?ty (m, w)" "pathMonitors w = [?pm]"
      "memTaintMap (taint w) = (\<lambda>a. None)"
    using main_setup_watches[OF assms(1-8), of junk uninit cb] by auto
  obtain m1 w1 where o: "rfold (sys_step E) [SysBefore t (SYS E ''open'') name a1 a2 a3 a4 a5, SysAfter t fd e] (m, w) = Inr (m1, w1)"
      "watches E p ?ty (m1, w1)" "taint w1 = taint w"
      "pathMonitors w1 = map (addActiveFileDescriptor (sint fd) (cstring E name)) (pathMonitors w)"
    using open_events[OF st(2) assms(10,13), of t a1 a2 a3 a4 a5 e] by blast
  obtain m2 w2 where c: "rfold (sys_step E) [SysBefore t (SYS E ''close'') fd a1 a2 a3 a4 a5, SysAfter t c e] (m1, w1) = Inr (m2, w2)"
      "watches E p ?ty (m2, w2)" "fd_table (m2, w2) = (fd_table (m1, w1))(sint fd := None)" "taint w2 = taint w1"
      "pathMonitors w2 = map (removeActiveFileDescriptor (sint fd)) (pathMonitors w1)"
    using close_events[OF o(2) assms(12), of t fd a1 a2 a3 a4 a5 e] by blast
  obtain m3 where r: "rfold (sys_step E) [SysBefore t (SYS E ''read'') fd buf a2 a3 a4 a5, SysAfter t r e] (m2, w2) = Inr (m3, w2)"
      "watches E p ?ty (m3, w2)"
    using read_unwatched[OF c(2) assms(11), of fd t buf a2 a3 a4 a5 e] c(3) by auto
  obtain m4 w4 where q: "rfold (sys_step E) [SysBefore t (SYS E ''open'') other a1 a2 a3 a4 a5, SysAfter t fd e] (m3, w2) = Inr (m4, w4)"
      "watches E p ?ty (m4, w4)" "fd_table (m4, w4) = (fd_table (m3, w2))(sint fd \<mapsto> cstring E other)" "taint w4 = taint w2"
      "pathMonitors w4 = map (addActiveFileDescriptor (sint fd) (cstring E other)) (pathMonitors w2)"
    using open_events[OF r(2) assms(10,14), of t a1 a2 a3 a4 a5 e] by blast
  let ?pm' = "addActiveFileDescriptor (sint fd) (cstring E other) (removeActiveFileDescriptor (sint fd)
      (addActiveFileDescriptor (sint fd) (cstring E name) ?pm))"
  have fd4: "fd_table (m4, w4) (sint fd) = Some (cstring E other)" using q(3) by simp
  have pm4: "pathMonitors w4 = [?pm']" by (simp only: q(5) c(5) o(4) st(3) list.map)
  have "pathObservers ?pm' (cstring E other) = None" "\<not> observeEverything ?pm'"
      "pathDefaultObserver ?pm' = Some pathSourceReadDefault"
    using assms(9) by (simp_all add: addActiveFileDescriptor_def removeActiveFileDescriptor_def observePath_def
        registerDefault_def new_PathMonitor_def)
  from read_other[OF q(2) assms(11) fd4 pm4 this] obtain m5 where
    x: "rfold (sys_step E) [SysBefore t (SYS E ''read'') fd buf a2 a3 a4 a5, SysAfter t r e] (m4, w4) = Inr (m5, w4)" by blast
  have "rfold (sys_step E) ([SysBefore t (SYS E ''open'') name a1 a2 a3 a4 a5, SysAfter t fd e] @
      [SysBefore t (SYS E ''close'') fd a1 a2 a3 a4 a5, SysAfter t c e] @
      [SysBefore t (SYS E ''read'') fd buf a2 a3 a4 a5, SysAfter t r e]) (m, w) = Inr (m3, w2)"
    unfolding rfold_append by (simp only: o(1) c(1) r(1) rbind.simps)
  moreover have "rfold (sys_step E) ([SysBefore t (SYS E ''open'') other a1 a2 a3 a4 a5, SysAfter t fd e] @
      [SysBefore t (SYS E ''read'') fd buf a2 a3 a4 a5, SysAfter t r e]) (m3, w2) = Inr (m5, w4)"
    unfolding rfold_append by (simp only: q(1) x rbind.simps)
  ultimately show ?thesis
    using st(1,4) o(3) c(4) q(4)
    by (intro exI[of _ "(m, w)"] exI[of _ "(m3, w2)"] exI[of _ "(m5, w4)"]) (simp add: mem_marks_def)
qed

theorem other_files_untracked_witness:
  "\<exists>st st1 st2. main_setup two_files_env sample_junk (sample_bits 0) None sample_conf = Inr st \<and>
    rfold (sys_step two_files_env) [SysBefore 1 (SYS two_files_env ''open'') 64 0 0 0 0 0, SysAfter 1 4 0,
      SysBefore 1 (SYS two_files_env ''close'') 4 0 0 0 0 0, SysAfter 1 4 0,
      SysBefore 1 (SYS two_files_env ''read'') 4 80 0 0 0 0, SysAfter 1 4 0] st = Inr st1 \<and>
    rfold (sys_step two_files_env) [SysBefore 1 (SYS two_files_env ''open'') 72 0 0 0 0 0, SysAfter 1 4 0,
      SysBefore 1 (SYS two_files_env ''read'') 4 80 0 0 0 0, SysAfter 1 4 0] st1 = Inr st2 \<and>
    taint (snd st1) = taint (snd st) \<and> taint (snd st2) = taint (snd st)"
proof -
  have c: "convertTo_int ''8'' = Inr 8" by code_simp
  have p: "cstring two_files_env 72 \<noteq> ''input.txt''" "can_read two_files_env 64" "can_read two_files_env 72"
    by (simp_all add: two_files_env_def numbered_env_def sample_env_def)
  have i: "inj_on (SYS two_files_env) observed_names" using numbered_env_inj(1) by (simp add: two_files_env_def)
  show ?thesis
    using other_files_untracked[OF i, of sample_conf "''PerByte''" "''input.txt''" 8 72 4 4 4 64
        sample_junk "sample_bits 0" None 1 0 0 0 0 0 0 80] c p
    by (auto simp: sample_conf_def)
qed


text \<open>C28: threads. Whatever system calls other threads begin and end while a thread is inside one, when
  the call of the thread ends its observers are called, in the order of their registration, with
  the number and the arguments with which it began and the result with which it ended.\<close>

theorem syscall_arguments_per_thread:
  assumes "rfold (sys_step E) (SysBefore tid n a0 a1 a2 a3 a4 a5 # evs) (m, w) = Inr (m1, w1)"
    and "list_all (\<lambda>ev. event_thread ev \<noteq> tid) evs" "observers m n = Some cbs"
  shows "sys_step E (SysAfter tid r e) (m1, w1) =
    rbind (rfold (\<lambda>cb. cb E n \<lparr>num = n, arg0 = a0, arg1 = a1, arg2 = a2, arg3 = a3, arg4 = a4, arg5 = a5, ret = r, err = e\<rparr>) cbs w1)
      (\<lambda>w'. Inr (m1, w'))"
proof -
  from assms(1) have "rfold (sys_step E) evs (beginSyscall tid n a0 a1 a2 a3 a4 a5 m, w) = Inr (m1, w1)" by simp
  from other_threads_pending[OF this assms(2)] assms(3) have
    "pendingSyscalls m1 tid = Some \<lparr>num = n, arg0 = a0, arg1 = a1, arg2 = a2, arg3 = a3, arg4 = a4, arg5 = a5, ret = 0, err = 0\<rparr>"
    "observers m1 n = Some cbs"
    by (simp_all add: beginSyscall_def)
  then show ?thesis by (simp add: endSyscall_def Let_def fun_upd_idem)
qed

theorem syscall_arguments_per_thread_witness:
  "sys_step sample_env (SysAfter 1 0 0)
      (beginSyscall 2 6 5 0 0 0 0 0 (beginSyscall 1 197 9 16 0 0 0 0 (addObserver 197 Handle_FSTAT64 (new_SyscallMonitor None))),
       \<lparr>taint = sample_state, openFiles = (\<lambda>fd. None)\<rparr>) =
   rbind (Handle_FSTAT64 sample_env 197 \<lparr>num = 197, arg0 = 9, arg1 = 16, arg2 = 0, arg3 = 0, arg4 = 0, arg5 = 0, ret = 0, err = 0\<rparr>
       \<lparr>taint = sample_state, openFiles = (\<lambda>fd. None)\<rparr>)
     (\<lambda>w'. Inr (beginSyscall 2 6 5 0 0 0 0 0 (beginSyscall 1 197 9 16 0 0 0 0 (addObserver 197 Handle_FSTAT64 (new_SyscallMonitor None))), w'))"
  using syscall_arguments_per_thread[of sample_env 1 197 9 16 0 0 0 0 "[SysBefore 2 6 5 0 0 0 0 0]"
      "addObserver 197 Handle_FSTAT64 (new_SyscallMonitor None)" "\<lparr>taint = sample_state, openFiles = (\<lambda>fd. None)\<rparr>" _ _
      "[Handle_FSTAT64]" 0 0]
  by (simp add: addObserver_def new_SyscallMonitor_def rbind_assoc)

text \<open>C29: system calls that fill a buffer. Each handler removes the taint of the ranges that it computes
  from the arguments of the call: the whole structure behind a pointer, the count that the program
  passed to \<open>getdents64\<close>, the length that it passed to \<open>mmap\<close>; the result of the call only enters for
  \<open>readlink\<close> (the length) and \<open>mmap\<close> (the start), and no handler tests whether the call failed.
  \<open>rt_sigaction\<close>, \<open>rt_sigprocmask\<close> and \<open>time\<close> do nothing for a null pointer, \<open>gettimeofday\<close> clears
  both of its structures. A range whose end wraps around the address space is empty. The invariant,
  the registers, the open branches, the other bytes and the open files stay as they are.\<close>

theorem handlers_untaint:
  assumes "(h, ranges) \<in> set [(Handle_FSTAT64, [(arg1 args, sizeof_stat64 E)]), (Handle_STAT64, [(arg1 args, sizeof_stat64 E)]),
      (Handle_LSTAT64, [(arg1 args, sizeof_stat64 E)]), (Handle_GETDENTS64, [(arg1 args, arg2 args)]),
      (Handle_MMAP, [(ret args, arg1 args)]), (Handle_MMAP2, [(ret args, arg1 args)]),
      (Handle_READLINK, [(arg1 args, ret args)]), (Handle_UNAME, [(arg0 args, sizeof_utsname E)]),
      (Handle_GETTIMEOFDAY, [(arg0 args, sizeof_timeval E), (arg1 args, sizeof_timezone E)]),
      (Handle_RT_SIGACTION, if arg2 args = 0 then [] else [(arg2 args, sizeof_sigaction E)]),
      (Handle_RT_SIGPROCMASK, if arg2 args = 0 then [] else [(arg2 args, sizeof_sigset_t E)]),
      (Handle_TIME, if arg0 args = 0 then [] else [(arg0 args, sizeof_time_t E)])]"
    and "state_inv (taint w)"
  shows "\<exists>w'. h E n args w = Inr w' \<and> state_inv (taint w') \<and>
    mem_marks (taint w') = (\<lambda>a. if \<exists>(start, len) \<in> set ranges. start \<le> a \<and> a < start + len then {} else mem_marks (taint w) a) \<and>
    reg_marks (taint w') = reg_marks (taint w) \<and> v_ctl (tview (taint w')) = v_ctl (tview (taint w)) \<and> openFiles w' = openFiles w"
proof -
  have "h E n args w = rfold (\<lambda>(start, len). erase_mem start len) ranges w"
    using assms(1) by (auto simp: Handle_FSTAT64_def Handle_STAT64_def Handle_LSTAT64_def
        Handle_GETDENTS64_def Handle_MMAP_def Handle_MMAP2_def Handle_READLINK_def Handle_UNAME_def Handle_GETTIMEOFDAY_def
        Handle_RT_SIGACTION_def Handle_RT_SIGPROCMASK_def Handle_TIME_def erase_mem_def)
  with erase_ranges_marks[OF assms(2), of ranges] show ?thesis by simp
qed

theorem handlers_untaint_witness:
  "\<exists>w'. Handle_GETTIMEOFDAY sample_env 78 (zero_args\<lparr>arg0 := 10, arg1 := 40\<rparr>) \<lparr>taint = sample_state, openFiles = (\<lambda>fd. None)\<rparr> = Inr w' \<and>
    mem_marks (taint w') 16 = {} \<and> reg_marks (taint w') REG_EAX = {1}"
proof -
  let ?w = "\<lparr>taint = sample_state, openFiles = (\<lambda>fd. None)\<rparr>"
  obtain w' where w': "Handle_GETTIMEOFDAY sample_env 78 (zero_args\<lparr>arg0 := 10, arg1 := 40\<rparr>) ?w = Inr w'"
    "mem_marks (taint w') = (\<lambda>a. if \<exists>(start, len) \<in> set [(10, sizeof_timeval sample_env), (40, sizeof_timezone sample_env)].
      start \<le> a \<and> a < start + len then {} else mem_marks (taint ?w) a)"
    "reg_marks (taint w') = reg_marks (taint ?w)"
    using handlers_untaint[of Handle_GETTIMEOFDAY "[(10, sizeof_timeval sample_env), (40, sizeof_timezone sample_env)]"
        "zero_args\<lparr>arg0 := 10, arg1 := 40\<rparr>" sample_env ?w 78]
      sample_state_inv by auto
  then show ?thesis by (intro exI[of _ w']) (simp add: sample_env_def reg_marks_def sample_marks)
qed

text \<open>C30: sources that never taint. When \<open>main\<close> is given sources of the network (lists of addresses and
  ports, or the wildcard), of functions, or of unknown types, no sequence of system calls that the tool
  survives ever taints a byte: a source for particular addresses remembers no connection, because
  the monitor does so only when it observes everything, and under the wildcard there is nothing to
  remember either, because its map of addresses is empty (C12 shows what a receive does then). What a
  function source does when a routine returns changes nothing, and the object that
  \<open>set_framework_options\<close> creates inserts no call.\<close>

theorem network_source_never_taints:
  assumes "sources conf \<noteq> []" "list_all quiet_source (sources conf)" "list_all (src_ok E) (sources conf)"
    and "markings_ok (num_markings conf)" "0 \<notin> {SYS E ''open'', SYS E ''socketcall''}"
    and "list_all (event_ok E (net_policies E conf)) evs"
  shows "\<exists>st st'. main_setup E junk uninit cb conf = Inr st \<and> rfold (sys_step E) evs st = Inr st' \<and>
    (\<forall>a. mem_marks (taint (snd st')) a = {}) \<and> ImageLoad byname new_FunctionTaintSource = [] \<and>
    (\<forall>rout src. routine_returns rout (ImageLoad byname src) (taint (snd st')) = taint (snd st'))"
proof -
  obtain st where st: "main_setup E junk uninit cb conf = Inr st" "quiet_state E (net_policies E conf) st"
    using main_setup_quiet[OF assms(1-5)] by blast
  obtain st' where st': "rfold (sys_step E) evs st = Inr st'" "quiet_state E (net_policies E conf) st'"
    using quiet.run_safe[OF st(2) assms(6)] by blast
  have "mem_marks (taint (snd st')) a = {}" for a
    using st'(2) by (auto simp: quiet_state_def untainted_def mem_marks_def)
  with st(1) st'(1) show ?thesis
    by (intro exI[of _ st] exI[of _ st']) (simp add: routine_returns_same)
qed

theorem network_source_never_taints_witness:
  "\<exists>st st'. main_setup sample_env sample_junk (sample_bits 0) None (sample_conf\<lparr>sources :=
        [\<lparr>src_type = ''network'', granularity = ''PerByte'', details = [''127.0.0.1'', ''80'']\<rparr>,
         \<lparr>src_type = ''function'', granularity = ''PerRead'', details = []\<rparr>]\<rparr>) = Inr st \<and>
    rfold (sys_step sample_env) [SysBefore 1 102 3 64 0 0 0 0, SysAfter 1 0 0, SysBefore 1 102 10 64 0 0 0 0, SysAfter 1 4 0,
      SysBefore 1 3 2 80 4 0 0 0, SysAfter 1 4 0] st = Inr st' \<and> (\<forall>a. mem_marks (taint (snd st')) a = {})"
proof -
  let ?conf = "sample_conf\<lparr>sources :=
        [\<lparr>src_type = ''network'', granularity = ''PerByte'', details = [''127.0.0.1'', ''80'']\<rparr>,
         \<lparr>src_type = ''function'', granularity = ''PerRead'', details = []\<rparr>]\<rparr>"
  let ?evs = "[SysBefore 1 102 3 64 0 0 0 0, SysAfter 1 0 0, SysBefore 1 102 10 64 0 0 0 0, SysAfter 1 4 0,
      SysBefore 1 3 2 80 4 0 0 0, SysAfter 1 4 0]"
  have "convertTo_int ''8'' = Inr 8" by code_simp
  then have nm: "markings_ok (num_markings ?conf)" by (simp add: markings_ok_def sample_conf_def)
  have a: "detail_addresses sample_env [''127.0.0.1'', ''80''] = Inr [sample_address]"
    by (rule sample_addresses) (simp add: sample_env_def)
  have ok: "list_all (src_ok sample_env) (sources ?conf)" and ps: "net_policies sample_env ?conf = [(False, [sample_address])]"
    using a sample_strict(1) by (simp_all add: src_ok_def net_policies_def source_policies_def del: detail_addresses.simps)
  have n: "SYS sample_env ''open'' = 5" "SYS sample_env ''socketcall'' = 102" by (simp_all add: sample_env_def)
  from sample_socketcalls have evs: "list_all (event_ok sample_env (net_policies sample_env ?conf)) ?evs"
    unfolding ps by (simp add: args_ok_def n sample_net_args)
  have src: "sources ?conf \<noteq> []" "list_all quiet_source (sources ?conf)" by (simp_all add: quiet_source_def)
  have "0 \<notin> {SYS sample_env ''open'', SYS sample_env ''socketcall''}" by (simp add: n)
  from network_source_never_taints[OF src ok nm this evs, of sample_junk "sample_bits 0" None "\<lambda>f. None :: nat option"]
  show ?thesis by blast
qed



text \<open>The order of network addresses. Two addresses are equivalent for the map exactly when their address
  and port agree, but the order is not a strict order: there are addresses each of which comes
  before the other.\<close>

theorem NetworkAddress_order:
  "(\<forall>a b. addr_equiv a b \<longleftrightarrow> ip a = ip b \<and> port a = port b) \<and>
   (\<exists>a b. NetworkAddress_cmp a b \<and> NetworkAddress_cmp b a)"
proof -
  have "NetworkAddress_cmp \<lparr>ip = 1, port = 2, strAddress = []\<rparr> \<lparr>ip = 2, port = 1, strAddress = []\<rparr>"
      "NetworkAddress_cmp \<lparr>ip = 2, port = 1, strAddress = []\<rparr> \<lparr>ip = 1, port = 2, strAddress = []\<rparr>"
    by (simp_all add: NetworkAddress_cmp_def word_sless_alt)
  then show ?thesis using addr_equiv_iff by blast
qed

section \<open>The interface for the monitored program\<close>

text \<open>C31: tagging and displaying. Tagging a non-empty range with a name succeeds; displaying the range afterwards
  prints exactly the mark of the name (with the marks of the open branches), and tagging another
  range with the same name uses the same mark again.\<close>

theorem tag_display:
  assumes "api_inv a" "start < start + sz" "start2 < start2 + sz2"
  shows "\<exists>m a1 a2. AssignTagToByteRange start sz ident a = Inr a1 \<and> api_inv a1 \<and> m < nat (NUMBER_OF_TAINT_MARKS (api_taint a)) \<and>
    DisplayTagsForByteRange start sz msg a1 =
      Inr (print_out (msg @ '' at a location '' @ show_alt_hex start @ ''-'' @ show_alt_hex (start + sz - 1) @ '' has taint marks: ['' @
        marks_text (nat (NUMBER_OF_TAINT_MARKS (api_taint a))) ({m} \<union> ctl_marks (tview (api_taint a))) @
        ''] with active control flow taint marks['' @
        marks_text (nat (NUMBER_OF_TAINT_MARKS (api_taint a))) (ctl_marks (tview (api_taint a))) @ CHR '']'' # [CHR 0x0A]) a1) \<and>
    AssignTagToByteRange start2 sz2 ident a1 = Inr a2 \<and> (\<forall>b \<in> {start2..<start2 + sz2}. mem_marks (api_taint a2) b = {m})"
proof -
  obtain k a1 where a1: "AssignTagToByteRange start sz ident a = Inr a1" "api_inv a1" "0 \<le> k" "k < NUMBER_OF_TAINT_MARKS (api_taint a)"
      "tagMap a1 (show_dec (unat ident)) = Some k" "src_cfg (api_taint a1) = src_cfg (api_taint a)"
      "tview (api_taint a1) = v_put_mem {start..<start + sz} {nat k} (tview (api_taint a))"
    using assign_tag_ok[OF assms(1), of "''assigned location ''" start sz ident] unfolding AssignTagToByteRange_def by auto
  obtain k2 a2 where a2: "AssignTagToByteRange start2 sz2 ident a1 = Inr a2" "\<forall>m0. tagMap a1 (show_dec (unat ident)) = Some m0 \<longrightarrow> k2 = m0"
      "tview (api_taint a2) = v_put_mem {start2..<start2 + sz2} {nat k2} (tview (api_taint a1))"
    using assign_tag_ok[OF a1(2), of "''assigned location ''" start2 sz2 ident] unfolding AssignTagToByteRange_def by auto
  have N: "NUMBER_OF_TAINT_MARKS (api_taint a1) = NUMBER_OF_TAINT_MARKS (api_taint a)" using a1(6) by (simp add: src_cfg_def)
  have mem: "mem_marks (api_taint a1) b = {nat k}" if "b \<in> {start..<start + sz}" for b
    unfolding mem_marks_def a1(7) v_put_mem_def using that by simp
  have "(\<Union>b \<in> {start..<start + sz}. mem_marks (api_taint a1) b) = (\<Union>b \<in> {start..<start + sz}. {nat k})"
    by (rule SUP_cong) (simp_all add: mem)
  also have "\<dots> = {nat k}" using assms(2) by auto
  finally have U: "(\<Union>b \<in> {start..<start + sz}. mem_marks (api_taint a1) b) = {nat k}" .
  have ctl: "ctl_marks (tview (api_taint a1)) = ctl_marks (tview (api_taint a))"
    unfolding ctl_marks_def a1(7) v_put_mem_def by simp
  have inv: "state_inv (api_taint a1)" using a1(2) by (simp add: api_inv_def)
  have "\<forall>b \<in> {start2..<start2 + sz2}. mem_marks (api_taint a2) b = {nat k}"
    unfolding mem_marks_def a2(3) v_put_mem_def using a2(2) a1(5) by simp
  moreover have "nat k < nat (NUMBER_OF_TAINT_MARKS (api_taint a))" using a1(3,4) by simp
  ultimately show ?thesis
    using a1(1,2) a2(1) DisplayTagsForByteRange_ok[OF inv, of start sz msg, unfolded U N ctl] by blast
qed

theorem tag_display_witness:
  "\<exists>a1 a2. AssignTagToByteRange 64 4 7 \<lparr>api_taint = sample_state, tagMap = (\<lambda>n. None), tracing = False, out = []\<rparr> = Inr a1 \<and>
    AssignTagToByteRange 80 2 7 a1 = Inr a2 \<and> (\<exists>m. \<forall>b \<in> {80..<80 + 2}. mem_marks (api_taint a2) b = {m})"
proof -
  let ?a = "\<lparr>api_taint = sample_state, tagMap = (\<lambda>n. None), tracing = False, out = []\<rparr>"
  have "api_inv ?a" using sample_state_inv sample_gen_ok by (simp add: api_inv_def)
  from tag_display[OF this, of 64 4 80 2 7 "[]"] show ?thesis by auto
qed

text \<open>C32: freeing. The loop of \<open>ClearTagsForByteRange\<close> ends for every state; it removes the taint of all
  consecutive tainted bytes from the given address on, whatever allocation they belong to, and
  stops at the first byte without taint (or when it has gone round the whole address space).\<close>

theorem free_clears_run:
  "\<exists>k. (\<forall>i < k. memTaintMap (api_taint a) (start + of_nat i) \<noteq> None) \<and>
     memTaintMap (api_taint (ClearTagsForByteRange start a)) =
       (\<lambda>b. if b \<in> (\<lambda>i. start + of_nat i) ` {..<k} then None else memTaintMap (api_taint a) b) \<and>
     memTaintMap (api_taint (ClearTagsForByteRange start a)) (start + of_nat k) = None \<and>
     regTaintMap (api_taint (ClearTagsForByteRange start a)) = regTaintMap (api_taint a)"
proof -
  obtain k where k: "\<forall>i < k. memTaintMap (api_taint a) (start + of_nat i) \<noteq> None"
     "snd (clear_run start start (api_taint a)) = (api_taint a)\<lparr>memTaintMap :=
        \<lambda>b. if b \<in> (\<lambda>i. start + of_nat i) ` {..<k} then None else memTaintMap (api_taint a) b\<rparr>"
     "memTaintMap (api_taint a) (start + of_nat k) = None \<or> start + of_nat k \<in> (\<lambda>i. start + of_nat i) ` {..<k}"
    using clear_run_spec[of "api_taint a" start start] by blast
  have "api_taint (ClearTagsForByteRange start a) = snd (clear_run start start (api_taint a))"
    by (simp add: ClearTagsForByteRange_def case_prod_beta Let_def)
  with k show ?thesis by (intro exI[of _ k]) auto
qed

theorem free_clears_run_witness:
  "memTaintMap (api_taint (ClearTagsForByteRange 16
      \<lparr>api_taint = sample_state, tagMap = (\<lambda>n. None), tracing = False, out = []\<rparr>)) 16 = None"
proof -
  let ?a = "\<lparr>api_taint = sample_state, tagMap = (\<lambda>n. None), tracing = False, out = []\<rparr>"
  obtain k where k: "memTaintMap (api_taint (ClearTagsForByteRange 16 ?a)) =
       (\<lambda>b. if b \<in> (\<lambda>i. 16 + of_nat i) ` {..<k} then None else memTaintMap (api_taint ?a) b)"
     "memTaintMap (api_taint (ClearTagsForByteRange 16 ?a)) (16 + of_nat k) = None"
    using free_clears_run[of ?a 16] by blast
  show ?thesis
  proof (cases k)
    case 0 then show ?thesis using k(2) by simp
  next
    case (Suc j)
    then have "16 \<in> (\<lambda>i. 16 + of_nat i :: 32 word) ` {..<k}" by (intro image_eqI[of _ _ 0]) simp_all
    then show ?thesis unfolding k(1) by simp
  qed
qed

text \<open>C33: the arguments of main. With the increasing generator at its start and at least \<open>argc + 1\<close> marks, the
  wrapper of \<open>main\<close> taints memory only with the marks \<open>0\<close> to \<open>argc\<close>. When there are more marks than
  that, every mark drawn later is larger (they go round from \<open>argc + 1\<close> to the last one): the marks of
  the arguments are reserved. When there are exactly \<open>argc + 1\<close> marks, the generator has wrapped
  around before \<open>SetNewTaintStart\<close> is called, nothing is reserved, and later marks start at 0
  again.\<close>

theorem main_arguments_reserved:
  assumes "fresh_from 0 s" "0 \<le> sint (load32 E argcAddr)" "sint (load32 E argcAddr) + 1 \<le> NUMBER_OF_TAINT_MARKS s"
    and "lo = (if sint (load32 E argcAddr) + 1 = NUMBER_OF_TAINT_MARKS s then 0 else sint (load32 E argcAddr) + 1)"
  shows "\<exists>s' g. main_wrapper_func E argcAddr argvAddr s = Inr s' \<and> state_inv s' \<and> taintGen s' = Some g \<and>
    (\<forall>a. mem_marks s' a \<subseteq> mem_marks s a \<union> nat ` {0..sint (load32 E argcAddr)}) \<and>
    (\<forall>k. \<exists>g'. draw_marks k g = Inr (map (\<lambda>i. lo + int i mod (NUMBER_OF_TAINT_MARKS s - lo)) [0..<k], g')) \<and>
    (sint (load32 E argcAddr) + 1 < NUMBER_OF_TAINT_MARKS s \<longrightarrow>
      (\<forall>k. \<exists>ms g'. draw_marks k g = Inr (ms, g') \<and> length ms = k \<and>
        set ms \<subseteq> {sint (load32 E argcAddr) + 1..<NUMBER_OF_TAINT_MARKS s}))"
proof -
  let ?n = "sint (load32 E argcAddr)" and ?N = "NUMBER_OF_TAINT_MARKS s"
  obtain s' f where s': "main_wrapper_func E argcAddr argvAddr s = Inr s'" "state_inv s'" "taintGen s' = Some (TaintGenerator f)"
      "gen_max f = ?N" "gen_current f = gen_start f" "gen_start f = lo"
      "\<forall>a. mem_marks s' a \<subseteq> mem_marks s a \<union> nat ` {0..?n}"
    using main_wrapper_func_ok[OF assms(1-3), of argvAddr] assms(4) by (auto simp: wrapped_def)
  have N: "?N < 2 ^ 31" "0 < ?N" using assms(1) state_invD(1,2)[of s] by (simp_all add: fresh_from_def)
  have lo: "0 \<le> lo" "lo < ?N" using assms(2-4) N(2) by (auto split: if_splits)
  have draws: "\<exists>g'. draw_marks k (TaintGenerator f) = Inr (map (\<lambda>i. lo + int i mod (?N - lo)) [0..<k], g')" for k
    using draw_marks_cycle[of f k] s'(4-6) lo N(1) by simp
  have "\<exists>ms g'. draw_marks k (TaintGenerator f) = Inr (ms, g') \<and> length ms = k \<and> set ms \<subseteq> {?n + 1..<?N}" if "?n + 1 < ?N" for k
  proof -
    have "lo = ?n + 1" using assms(4) that by simp
    then have "gen_inv (?n + 1) ?N (TaintGenerator f)" using s'(4-6) lo N(1) by simp
    from tg.draw_ok[OF this, of k] show ?thesis by blast
  qed
  with draws s'(1-3,7) show ?thesis by blast
qed

theorem main_arguments_reserved_witness:
  "\<exists>s' g. main_wrapper_func sample_env 64 68 sample_state = Inr s' \<and> taintGen s' = Some g \<and>
    (\<exists>ms g'. draw_marks 9 g = Inr (ms, g') \<and> set ms \<subseteq> {3..<8})"
proof -
  have "fresh_from 0 sample_state" "sint (load32 sample_env 64) = 2" "NUMBER_OF_TAINT_MARKS sample_state = 8"
    using sample_state_inv by (simp_all add: fresh_from_def sample_state_def new_TaintGenerator_def sample_env_def)
  with main_arguments_reserved[OF _ _ _ refl, of sample_state sample_env 64 68] obtain s' g where
    s': "main_wrapper_func sample_env 64 68 sample_state = Inr s'" "taintGen s' = Some g"
      "\<forall>k. \<exists>ms g'. draw_marks k g = Inr (ms, g') \<and> length ms = k \<and> set ms \<subseteq> {3..<8}" by auto
  from s'(3) obtain ms g' where "draw_marks 9 g = Inr (ms, g')" "set ms \<subseteq> {3..<8}" by blast
  with s'(1,2) show ?thesis by blast
qed

section \<open>Control flow\<close>

text \<open>C34: the control flow graph and its post-dominators. For a routine whose instructions have
  distinct addresses outside the addresses that the code uses as flags, and whose last instruction
  is neither a call nor a branch, the three passes end without following a null pointer (when the
  memory of new blocks holds a null post-dominator): the post-dominator pointers have no cycle, the
  post-dominator of a block lies on a path from it, and the blocks whose chain of post-dominators
  leads to the return block are those from which the flow can reach it.\<close>

theorem routine_graph_tree:
  assumes "\<forall>i. junk_PostDominator (u i) = None" "rtn \<noteq> []"
    and "distinct (map INS_Address rtn)" "INS_Address ` set rtn \<inter> flags = {}"
    and "\<not> INS_IsBranch (last rtn)" "\<not> INS_IsCall (last rtn)"
  shows "\<exists>g. initializeRoutineInfo ptr u nm rtn = Inr g \<and> EntranceNode g = Some 0 \<and> ReturnNode g = Some 1 \<and>
    acyclic (post_dominator_edges (blocks g)) \<and> post_dominator_edges (blocks g) \<subseteq> (flow_edges (blocks g))\<^sup>+ \<and>
    (\<forall>b. (b, 1) \<in> (post_dominator_edges (blocks g))\<^sup>* \<longleftrightarrow> (b, 1) \<in> (flow_edges (blocks g))\<^sup>*)"
proof -
  obtain g where "initializeRoutineInfo ptr u nm rtn = Inr g" "EntranceNode g = Some 0" "ReturnNode g = Some 1"
      "acyclic (post_dominator_edges (blocks g))" "post_dominator_edges (blocks g) \<subseteq> (flow_edges (blocks g))\<^sup>+"
      "\<forall>b. (b, 1) \<in> (flow_edges (blocks g))\<^sup>* \<longleftrightarrow> (b, 1) \<in> (post_dominator_edges (blocks g))\<^sup>*"
    using initializeRoutineInfo_ok[OF assms] .
  then show ?thesis by blast
qed

theorem routine_graph_tree_witness:
  "\<exists>g. initializeRoutineInfo word_of_nat sample_uninit (\<lambda>a. None) sample_routine = Inr g \<and>
    acyclic (post_dominator_edges (blocks g))"
  using routine_graph_tree[of sample_uninit sample_routine word_of_nat "\<lambda>a. None", OF _ _ sample_routine_addresses]
  by (auto simp: sample_uninit_def routine_ins_defs)

text \<open>C35: opening and closing branches. For such a routine, \<open>Controlflow\<close> fails (it follows a null
  pointer) exactly when the return block cannot be reached from the block of some conditional
  branch. Otherwise it opens every conditional branch at its address, and it closes a branch at an
  instruction exactly when that is where its post-dominator starts, with as many addresses as
  announced; a branch whose post-dominator is the return block is never closed. Routines of shared
  libraries get no calls.\<close>

theorem Controlflow_placement:
  assumes "\<forall>i. junk_PostDominator (u i) = None" "rtn \<noteq> []"
    and "distinct (map INS_Address rtn)" "INS_Address ` set rtn \<inter> flags = {}"
    and "\<not> INS_IsBranch (last rtn)" "\<not> INS_IsCall (last rtn)"
  shows "Controlflow ptr u nm True rtn = Inr [] \<and>
    (\<exists>g. initializeRoutineInfo ptr u nm rtn = Inr g \<and>
       (if \<forall>a \<in> set (cond_branches rtn). can_return g a
        then \<exists>pops. Controlflow ptr u nm False rtn = Inr (map Push_at (cond_branches rtn) @ pops) \<and>
          (\<forall>c \<in> set pops. \<exists>x s. c = Pop_at x (length s) s \<and> x \<in> INS_Address ` set rtn) \<and>
          (\<forall>a \<in> set (cond_branches rtn). \<forall>x \<in> INS_Address ` set rtn.
             (\<exists>n s. Pop_at x n s \<in> set pops \<and> a \<in> set s) \<longleftrightarrow> x = post_dominator_of g a) \<and>
          (\<forall>a \<in> set (cond_branches rtn). post_dominator_of g a = 2 \<longrightarrow> (\<forall>x n s. Pop_at x n s \<in> set pops \<longrightarrow> a \<notin> set s))
        else Controlflow ptr u nm False rtn = Inl Undefined))"
proof -
  obtain g where g: "initializeRoutineInfo ptr u nm rtn = Inr g"
      "Controlflow ptr u nm False rtn =
        (if \<forall>a \<in> set (cond_branches rtn). can_return g a then Inr (place_branches (post_dominator_of g) rtn) else Inl Undefined)"
    using Controlflow_ok[OF assms] .
  have "2 \<notin> INS_Address ` set rtn" using assms(4) by (auto simp: flags_def)
  with g place_pops_ok[of "post_dominator_of g" rtn] show ?thesis
    unfolding place_branches_def by (auto simp: Controlflow_def)
qed

theorem Controlflow_placement_witness:
  "Controlflow word_of_nat sample_uninit (\<lambda>a. None) True sample_routine = Inr [] \<and>
   Controlflow word_of_nat sample_uninit (\<lambda>a. None) False sample_routine = Inr [Push_at 17, Push_at 18, Pop_at 19 1 [17]]"
  using Controlflow_placement[of sample_uninit sample_routine word_of_nat "\<lambda>a. None", OF _ _ sample_routine_addresses]
    sample_Controlflow
  by (auto simp: sample_uninit_def routine_ins_defs)


section \<open>The second tool\<close>

text \<open>C36: \<open>penumbra.cpp\<close> agrees with \<open>dytan.cpp\<close>. On corresponding states, with a null pointer behind
  the bitsets and without a profile, its routines for reading, writing and clearing memory, for
  reading registers, and for opening and closing branches fail or return corresponding states exactly
  as those of \<open>dytan.cpp\<close> do. Writing a register agrees for all registers but AX, BX, CX and DX
  (whose sub-registers \<open>penumbra.cpp\<close> leaves alone), clearing one for all registers without
  sub-registers.\<close>

theorem penumbra_equivalence:
  shows "ClearTaintSet x opc (as_dytan s) = rmap as_dytan (pen_ClearTaintSet x s) \<and>
    TaintForRegister reg x opc (as_dytan s) = rmap as_dytan (pen_TaintForRegister reg x s) \<and>
    TaintForMemory P start sz b i x opc prof (as_dytan s) = rmap as_dytan (pen_TaintForMemory P start sz b i x s) \<and>
    SetTaintForMemory start sz opc prof (length xs) xs (as_dytan s) =
      rmap as_dytan (pen_SetTaintForMemory start sz (map Bits xs @ [Raw 0]) s) \<and>
    ClearTaintForMemory start sz opc prof (as_dytan s) = rmap as_dytan (pen_ClearTaintForMemory start sz s) \<and>
    (reg \<notin> {REG_AX, REG_BX, REG_CX, REG_DX} \<longrightarrow>
      SetTaintForRegister P reg opc prof (length xs) xs (as_dytan s) =
        rmap as_dytan (pen_SetTaintForRegister reg (map Bits xs @ [Raw 0]) s)) \<and>
    (subregisters reg = [] \<longrightarrow>
      ClearTaintForRegister P reg opc prof (as_dytan s) = rmap as_dytan (pen_ClearTaintForRegister reg s)) \<and>
    PushControl addr (as_dytan s) = rmap as_dytan (pen_PushControl addr s) \<and>
    PopControl n addrs (as_dytan s) = rmap as_dytan (pen_PopControl n addrs s)"
  by (intro conjI impI ClearTaintSet_as_dytan TaintForRegister_as_dytan TaintForMemory_as_dytan SetTaintForMemory_as_dytan
      ClearTaintForMemory_as_dytan SetTaintForRegister_as_dytan clear_register_as_dytan PushControl_as_dytan PopControl_as_dytan)

theorem penumbra_equivalence_witness:
  "SetTaintForRegister sample_pin REG_ESI 3 True 2 [Src, Dest] (as_dytan (snd (pen_main sample_env None))) =
     rmap as_dytan (pen_SetTaintForRegister REG_ESI [Bits Src, Bits Dest, Raw 0] (snd (pen_main sample_env None))) \<and>
   ClearTaintForRegister sample_pin REG_ESI 3 True (as_dytan (snd (pen_main sample_env None))) =
     rmap as_dytan (pen_ClearTaintForRegister REG_ESI (snd (pen_main sample_env None)))"
  using penumbra_equivalence[where reg = REG_ESI and xs = "[Src, Dest]" and P = sample_pin and opc = 3 and prof = True
      and s = "snd (pen_main sample_env None)"]
  by (simp add: numeral_2_eq_2)

text \<open>C37: the arguments of \<open>main\<close> in \<open>penumbra.cpp\<close>. With the next mark and one mark for each argument
  below 4096, the count gets the next mark, and argument \<open>i\<close> the mark after those before it, on all
  bytes from the slot of its pointer in the vector to the end of its string, whatever lies between
  them; a byte in several of these ranges keeps the last mark. When there are not enough marks an
  assertion fails; they do not wrap around, although the comment on the number of marks says so.\<close>

theorem penumbra_main_arguments:
  assumes "0 \<le> currentTaintMark s" "currentTaintMark s \<le> 4096"
    and "sint (load32 E argcAddr) = int n" "load32 E argvAddr = argv"
  shows "if currentTaintMark s + 1 + int n \<le> 4096
    then \<exists>s'. TaintMainArgs E argcAddr argvAddr s = Inr s' \<and> currentTaintMark s' = currentTaintMark s + 1 + int n \<and>
      pen_regTaintMap s' = pen_regTaintMap s \<and>
      (\<forall>a. pen_mem_marks s' a =
        (if \<exists>i < n. a \<in> argv_range E argv i then {nat (currentTaintMark s) + 1 + (GREATEST i. i < n \<and> a \<in> argv_range E argv i)}
         else if argcAddr \<le> a \<and> a < argcAddr + 4 then {nat (currentTaintMark s)}
         else pen_mem_marks s a))
    else TaintMainArgs E argcAddr argvAddr s = Inl Assert_failed"
  using assms by (rule TaintMainArgs_cases)

theorem penumbra_main_arguments_witness:
  "\<exists>s'. TaintMainArgs sample_env 64 68 (snd (pen_main sample_env None)) = Inr s' \<and> currentTaintMark s' = 3"
proof -
  have "sint (load32 sample_env 64) = int 2" by (simp add: sample_env_def)
  from penumbra_main_arguments[OF _ _ this refl, of "snd (pen_main sample_env None)" 68] show ?thesis
    by (auto simp: pen_main_def)
qed


section \<open>Configuration\<close>

text \<open>C38: the number of marks. Apart from the text \<open>1\<close>, which selects the constant generator, and the
  empty text, which leaves everything as it is, the text of the configuration is read as white space,
  an optional sign and decimal digits with nothing behind them and a value that is an \<open>int\<close>. A value
  between 1 and the number of marks in force becomes the number of marks, with the increasing
  generator started at 0; any other value ends the tool with exit code 1, numbers above the 4096 of
  start-up included. Text that is not of that form aborts it, for example digits that are followed
  by another character. Decimal numbers are of that form and are read back as written.\<close>

theorem number_of_marks:
  shows "(\<forall>v. int_text x v \<and> x \<noteq> ''1'' \<longrightarrow> set_markings junk x s =
      (if 1 \<le> v \<and> v \<le> NUMBER_OF_TAINT_MARKS s
       then Inr (s\<lparr>NUMBER_OF_TAINT_MARKS := v, taintGen := Some (new_TaintGenerator 0 v)\<rparr>) else Inl (Exit 1))) \<and>
    (x \<noteq> [] \<and> (\<nexists>v. int_text x v) \<longrightarrow> set_markings junk x s = Inl (Abort ''BadConversion'')) \<and>
    set_markings junk ''1'' s = Inr (s\<lparr>taintGen := Some (new_ConstantTaintGenerator junk 5)\<rparr>) \<and>
    set_markings junk [] s = Inr s \<and>
    (int n < 2 ^ 31 \<longrightarrow> int_text (show_dec n) (int n) \<and> convertTo_int (show_dec n) = Inr (int n)) \<and>
    (\<not> is_digit c \<longrightarrow> set_markings junk (show_dec n @ c # y) s = Inl (Abort ''BadConversion''))"
proof -
  have ok: "int_text x v \<Longrightarrow> x \<noteq> []" for x v by (auto simp: int_text_def)
  have "convertTo_int ''1'' = Inr 1" by code_simp
  then have one: "int_text ''1'' 1" by (simp only: convertTo_int_iff)
  have bad: "set_markings junk x s = Inl (Abort ''BadConversion'')" if "x \<noteq> []" "\<nexists>v. int_text x v" for x
    using convertTo_int_error[OF that(2)] that one by (auto simp: set_markings_def)
  have "set_markings junk x s = (if 1 \<le> v \<and> v \<le> NUMBER_OF_TAINT_MARKS s
      then Inr (s\<lparr>NUMBER_OF_TAINT_MARKS := v, taintGen := Some (new_TaintGenerator 0 v)\<rparr>) else Inl (Exit 1))"
    if "int_text x v" "x \<noteq> ''1''" for v
    using int_text_convert[OF that(1)] that ok[OF that(1)] by (auto simp: set_markings_def)
  moreover have "int n < 2 ^ 31 \<longrightarrow> int_text (show_dec n) (int n) \<and> convertTo_int (show_dec n) = Inr (int n)"
    using convertTo_show_dec[of n] convertTo_int_iff by blast
  moreover have "\<not> is_digit c \<longrightarrow> set_markings junk (show_dec n @ c # y) s = Inl (Abort ''BadConversion'')"
    using bad leftover_not_int[of c n y] by blast
  ultimately show ?thesis using bad by (simp add: set_markings_def)
qed

theorem number_of_marks_witness:
  "set_markings sample_junk (show_dec 5) sample_state =
      Inr (sample_state\<lparr>NUMBER_OF_TAINT_MARKS := 5, taintGen := Some (new_TaintGenerator 0 5)\<rparr>) \<and>
   set_markings sample_junk (show_dec 9) sample_state = Inl (Exit 1) \<and>
   set_markings sample_junk ''12abc'' sample_state = Inl (Abort ''BadConversion'')"
proof -
  have t: "int_text (show_dec 5) 5" "int_text (show_dec 9) 9"
    using number_of_marks[where n = 5] number_of_marks[where n = 9] by simp_all
  have "show_dec 12 @ CHR ''a'' # ''bc'' = ''12abc''" "\<not> is_digit (CHR ''a'')" "show_dec 5 \<noteq> ''1''" "show_dec 9 \<noteq> ''1''"
    by (simp_all add: show_dec_def show_base.simps digit_char_def is_digit_def)
  moreover have "NUMBER_OF_TAINT_MARKS sample_state = 8" by (simp add: sample_state_def)
  ultimately show ?thesis
    using number_of_marks[of "show_dec 5" sample_junk sample_state 12 "CHR ''a''" "''bc''"]
      number_of_marks[of "show_dec 9" sample_junk sample_state] t by auto
qed

text \<open>C39: configuration files. The document that describes a configuration is read back as that configuration,
  with result 0; a file that cannot be parsed, an empty document and a document with another root
  element give the result -1 and leave the configuration alone. (The text of an element comes from
  the XML library, which returns the text of a single text node.)\<close>

theorem config_round_trip:
  assumes "\<forall>t. getString [TextNode t] = Some t" "sources conf0 = []"
  shows "parseConfig getString (Some (Some (config_xml conf))) conf0 = Inr (0, conf) \<and>
    parseConfig getString None conf0 = Inr (-1, conf0) \<and> parseConfig getString (Some None) conf0 = Inr (-1, conf0) \<and>
    (n \<noteq> ''dytan-config'' \<longrightarrow> parseConfig getString (Some (Some (Element n attrs ch))) conf0 = Inr (-1, conf0))"
  using parseConfig_xml[OF assms] by (simp add: parseConfig_def)

theorem config_round_trip_witness:
  "parseConfig (\<lambda>xs. case xs of [TextNode t] \<Rightarrow> Some t | _ \<Rightarrow> None) (Some (Some (config_xml sample_conf)))
     (sample_conf\<lparr>sources := [], num_markings := []\<rparr>) = Inr (0, sample_conf)"
  using config_round_trip[of "\<lambda>xs. case xs of [TextNode t] \<Rightarrow> Some t | _ \<Rightarrow> None" "sample_conf\<lparr>sources := [], num_markings := []\<rparr>"]
  by simp

section \<open>The LLVM pass\<close>

text \<open>C40: what \<open>InstrumentIMA.cpp\<close> does to a function, if LLVM inserts an instruction where it
  is told to. With the counter in the module, the pass
  leaves the instructions of the program in their blocks and in their order, adds no other global,
  places no created instruction twice, and every call it creates is a call of \<open>DYTAN_tag_pointer\<close>,
  \<open>DYTAN_tag_memory\<close> or \<open>DYTAN_free\<close>; it reports a change exactly if it has created an
  instruction, and when it reports none, blocks and declarations are as before. Without the
  counter, \<open>instrumentRealloc\<close> reports no change although it has inserted a call of
  \<open>DYTAN_free\<close>, whenever it finds where the new pointer is stored (otherwise it creates nothing).\<close>

theorem pass_keeps_program:
  assumes "insertion_ok E"
  shows "(\<forall>s. ''ima_tag_count'' \<in> fst ` set (ir_globals s) \<and> body_ok s \<longrightarrow>
      (\<exists>changed s' is. runOnFunction E s = (changed, s') \<and> originals s' = originals s \<and>
        ir_globals s' = ir_globals s \<and> body_ok s' \<and> created s' = created s @ is \<and>
        (\<forall>f args. Call_function f args \<in> set is \<longrightarrow> f \<in> {''DYTAN_tag_pointer'', ''DYTAN_tag_memory'', ''DYTAN_free''}) \<and>
        (changed \<longleftrightarrow> is \<noteq> []) \<and> (\<not> changed \<longrightarrow> ir_body s' = ir_body s \<and> declared s' = declared s))) \<and>
    (\<forall>t ci. ''ima_tag_count'' \<notin> fst ` set (ir_globals t) \<longrightarrow>
      fst (instrumentRealloc E ci t) = False \<and>
      created (snd (instrumentRealloc E ci t)) = created t @
        (case pointer_stores E ''realloc'' (Given ci) t of
           Inl msg \<Rightarrow> [] | Inr stores \<Rightarrow> [Call_function ''DYTAN_free'' [arg_operand_of E ci 0]]))"
proof -
  have "fst (instrumentRealloc E ci t) = False \<and>
      created (snd (instrumentRealloc E ci t)) = created t @
        (case pointer_stores E ''realloc'' (Given ci) t of
           Inl msg \<Rightarrow> [] | Inr stores \<Rightarrow> [Call_function ''DYTAN_free'' [arg_operand_of E ci 0]])"
    if "''ima_tag_count'' \<notin> fst ` set (ir_globals t)" for t ci
    using realloc_without_counter[OF assms that]
    by (cases "pointer_stores E ''realloc'' (Given ci) t") (simp_all add: instrumentRealloc_def print_err_def)
  with runOnFunction_effect[OF assms] show ?thesis by blast
qed

theorem pass_keeps_program_witness:
  "originals (snd (runOnFunction sample_llvm (snd (doInitialization sample_ir)))) = [[0, 1, 2, 3, 4]] \<and>
   fst (instrumentRealloc sample_llvm 0 sample_ir) = False \<and>
   created (snd (instrumentRealloc sample_llvm 0 sample_ir)) = [Call_function ''DYTAN_free'' [Int32 8]]"
proof -
  have i: "''ima_tag_count'' \<in> fst ` set (ir_globals (snd (doInitialization sample_ir)))"
      "body_ok (snd (doInitialization sample_ir))" "''ima_tag_count'' \<notin> fst ` set (ir_globals sample_ir)"
    by (simp_all add: doInitialization_def sample_ir_def body_ok_def)
  have st: "pointer_stores sample_llvm ''realloc'' (Given 0) sample_ir = Inr [Given 2]" "arg_operand_of sample_llvm 0 0 = Int32 8"
      "created sample_ir = []" "originals (snd (doInitialization sample_ir)) = [[0, 1, 2, 3, 4]]"
    by (simp_all add: pointer_stores_def sample_llvm_def sample_ir_def originals_def doInitialization_def)
  note all = pass_keeps_program[OF sample_llvm_insertion_ok]
  have "originals (snd (runOnFunction sample_llvm (snd (doInitialization sample_ir)))) = [[0, 1, 2, 3, 4]]"
    using all[THEN conjunct1, rule_format, of "snd (doInitialization sample_ir)"] i(1,2) st(4) by auto
  moreover have "fst (instrumentRealloc sample_llvm 0 sample_ir) = False \<and>
      created (snd (instrumentRealloc sample_llvm 0 sample_ir)) = [Call_function ''DYTAN_free'' [Int32 8]]"
    using all[THEN conjunct2, rule_format, of sample_ir 0] i(3) st by simp
  ultimately show ?thesis by blast
qed

end
